(* ===== verification/Prelude.thy ===== *)
theory Prelude
  imports Main "HOL-Library.Word"
begin

unbundle bit_operations_syntax

text \<open>
  Shared vocabulary of the development: the collections of simplification rules the
  component theories add to, the C types that occur in the sources, the errno values the
  code returns, and the generic facts on words, lists and options that more than one
  component uses.
\<close>

section \<open>Collections\<close>

named_theorems reg_simps \<open>accesses to device registers\<close>
named_theorems cstr_simps \<open>C string functions on the model's strings\<close>
named_theorems dlist_simps \<open>operations on the doubly linked lists of list.h\<close>

section \<open>C types\<close>

text \<open>
  The program is built for Linux on IA-64: \<open>unsigned long\<close>, \<open>uint64_t\<close> and pointers are 64
  bits wide, \<open>unsigned int\<close> is 32 bits wide.
\<close>

type_synonym u64 = "64 word"
type_synonym u32 = "32 word"
type_synonym u16 = "16 word"
type_synonym addr = "64 word"

definition EINVAL :: int where "EINVAL = 22"
definition ENOMEM :: int where "ENOMEM = 12"

lemma EINVAL_pos: "0 < EINVAL"
  by (simp add: EINVAL_def)

lemma ENOMEM_pos: "0 < ENOMEM"
  by (simp add: ENOMEM_def)

section \<open>Bit fields of a word\<close>

text \<open>
  Both facts are about \<open>(c & ~(mask << s)) ^ (v << s)\<close>: when the value fits the mask, reading
  the field back gives the value, and the other bits keep what they were.
\<close>

lemma field_insert_get:
  fixes c v mask :: "'a::len word"
  assumes "v AND mask = v" "drop_bit s (push_bit s mask) = mask"
  shows "drop_bit s ((c AND NOT (push_bit s mask)) XOR push_bit s v) AND mask = v"
proof (rule bit_word_eqI)
  fix n assume n: "n < LENGTH('a)"
  have v: "bit v n \<Longrightarrow> bit mask n"
    using assms(1) by (metis bit_and_iff)
  have m: "bit mask n \<Longrightarrow> s + n < LENGTH('a)"
    using assms(2) by (metis bit_drop_bit_eq bit_imp_le_length comp_apply)
  show "bit (drop_bit s ((c AND NOT (push_bit s mask)) XOR push_bit s v) AND mask) n = bit v n"
    using v m n by (auto simp: bit_simps)
qed

lemma field_insert_frame:
  fixes c v mask :: "'a::len word"
  assumes "v AND mask = v"
  shows "((c AND NOT (push_bit s mask)) XOR push_bit s v) AND NOT (push_bit s mask)
    = c AND NOT (push_bit s mask)"
proof (rule bit_word_eqI)
  fix n assume n: "n < LENGTH('a)"
  have v: "bit v k \<Longrightarrow> bit mask k" for k
    using assms(1) by (metis bit_and_iff)
  show "bit (((c AND NOT (push_bit s mask)) XOR push_bit s v) AND NOT (push_bit s mask)) n
     = bit (c AND NOT (push_bit s mask)) n"
    using v n by (auto simp: bit_simps)
qed

text \<open>
  Fields of the same register that do not overlap do not disturb each other: inserting into
  the field \<open>mask << s\<close> leaves \<open>(c >> s2) & mask2\<close> alone when \<open>mask2 << s2\<close> shares no bit with it.
\<close>

lemma field_insert_other:
  fixes c v mask mask2 :: "'a::len word"
  assumes "v AND mask = v" "push_bit s mask AND push_bit s2 mask2 = 0"
    and "drop_bit s2 (push_bit s2 mask2) = mask2"
  shows "drop_bit s2 ((c AND NOT (push_bit s mask)) XOR push_bit s v) AND mask2
    = drop_bit s2 c AND mask2"
proof (rule bit_word_eqI)
  fix n assume n: "n < LENGTH('a)"
  have v: "bit v k \<Longrightarrow> bit mask k" for k
    using assms(1) by (metis bit_and_iff)
  have m: "bit mask2 n \<Longrightarrow> s2 + n < LENGTH('a)"
    using assms(3) by (metis bit_drop_bit_eq bit_imp_le_length comp_apply)
  have d: "\<not> (bit (push_bit s mask) k \<and> bit (push_bit s2 mask2) k)" for k
    using assms(2) by (metis bit_and_iff bit_0_eq bot_apply bot_bool_def)
  have e: "bit mask2 n \<Longrightarrow> s \<le> s2 + n \<Longrightarrow> \<not> bit mask (s2 + n - s)"
    using d [of "s2 + n"] m n by (auto simp: bit_simps)
  show "bit (drop_bit s2 ((c AND NOT (push_bit s mask)) XOR push_bit s v) AND mask2) n
     = bit (drop_bit s2 c AND mask2) n"
    using v e m n by (auto simp: bit_simps)
qed

lemma unat_and_le: "unat (x AND m) \<le> unat (m :: 'a::len word)"
  by (simp add: word_and_le1 word_le_nat_alt [symmetric])

lemma map_update_same: "j < length xs \<Longrightarrow> f y = f (xs ! j) \<Longrightarrow> map f (xs[j := y]) = map f xs"
  by (metis list_update_id map_update)

end
