(* ===== verification/CStr.thy ===== *)
theory CStr
  imports Prelude "HOL-Library.Char_ord"
begin

text \<open>
  The parts of the C standard library the sources use on strings: comparison and copying,
  and the conversions of printf, sscanf and strtol the program calls. A C string is the list of its
  characters before the terminating NUL; a buffer (a \<open>char []\<close> the code writes into) is the list
  of all its bytes. Where the C standard leaves an out-of-range conversion undefined, the
  behaviour of the GNU C library the program is built for is taken: saturation at the bounds of
  \<open>long\<close> and truncation to the target type.
\<close>

section \<open>Characters, comparison, copying\<close>

definition NUL :: char where "NUL = CHR 0x00"
definition newline :: char where "newline = CHR 0x0A"

text \<open>A proper C string holds no NUL.\<close>

definition cstring :: "string \<Rightarrow> bool" where
  "cstring s \<longleftrightarrow> NUL \<notin> set s"

text \<open>Reading \<open>s[n]\<close> for \<open>n\<close> up to the terminator.\<close>

definition c_at :: "string \<Rightarrow> nat \<Rightarrow> char" where
  "c_at s n = (if n < length s then s ! n else NUL)"

text \<open>\<open>strcmp(a, b) == 0\<close> and \<open>strncmp(a, b, n) == 0\<close>.\<close>

fun streq :: "string \<Rightarrow> string \<Rightarrow> bool" where
  "streq [] [] = True"
| "streq (a # as) (b # bs) = (a = b \<and> streq as bs)"
| "streq _ _ = False"

fun strneq :: "string \<Rightarrow> string \<Rightarrow> nat \<Rightarrow> bool" where
  "strneq _ _ 0 = True"
| "strneq [] [] (Suc n) = True"
| "strneq (a # as) (b # bs) (Suc n) = (a = b \<and> strneq as bs n)"
| "strneq _ _ (Suc n) = False"

lemma streq_iff [cstr_simps]: "streq a b \<longleftrightarrow> a = b"
  by (induction a b rule: streq.induct) auto

lemma strneq_iff [cstr_simps]: "strneq a b n \<longleftrightarrow> take n a = take n b"
  by (induction a b n rule: strneq.induct) auto

text \<open>The string a buffer holds, and \<open>strncpy\<close> into a buffer.\<close>

definition buf_str :: "char list \<Rightarrow> string" where
  "buf_str b = takeWhile (\<lambda>c. c \<noteq> NUL) b"

definition strncpy :: "char list \<Rightarrow> string \<Rightarrow> nat \<Rightarrow> char list" where
  "strncpy dst src n = take n (src @ replicate n NUL) @ drop n dst"

lemma length_strncpy [simp]: "n \<le> length dst \<Longrightarrow> length (strncpy dst src n) = length dst"
  by (simp add: strncpy_def)

lemma cstring_buf_str [simp]: "cstring (buf_str b)"
  by (auto simp: cstring_def buf_str_def dest: set_takeWhileD)

lemma cstring_append [simp]: "cstring (a @ b) \<longleftrightarrow> cstring a \<and> cstring b"
  by (auto simp: cstring_def)

lemma cstring_take: "cstring s \<Longrightarrow> cstring (take n s)"
  by (auto simp: cstring_def dest: in_set_takeD)

lemma buf_str_append_NUL: "cstring s \<Longrightarrow> buf_str (s @ NUL # r) = s"
  by (auto simp: cstring_def buf_str_def takeWhile_append)

lemma buf_str_id: "cstring s \<Longrightarrow> buf_str s = s"
  by (auto simp: cstring_def buf_str_def takeWhile_eq_all_conv)

lemma buf_str_strncpy:
  assumes "cstring src" "length src < n"
  shows "buf_str (strncpy dst src n) = src"
proof -
  have "take n (src @ replicate n NUL) = src @ NUL # replicate (n - length src - 1) NUL"
    using assms(2) by (cases "n - length src") (auto simp: min_def)
  then show ?thesis
    using assms(1) by (simp add: strncpy_def buf_str_append_NUL)
qed

section \<open>Digits\<close>

definition digit_char :: "nat \<Rightarrow> char" where
  "digit_char d = char_of (if d < 10 then 48 + d else 87 + d)"

definition digit_val :: "char \<Rightarrow> nat option" where
  "digit_val c =
     (let n = (of_char c :: nat)
      in if 48 \<le> n \<and> n \<le> 57 then Some (n - 48)
         else if 97 \<le> n \<and> n \<le> 102 then Some (n - 87)
         else if 65 \<le> n \<and> n \<le> 70 then Some (n - 55)
         else None)"

definition is_digit :: "nat \<Rightarrow> char \<Rightarrow> bool" where
  "is_digit b c = (case digit_val c of Some d \<Rightarrow> d < b | None \<Rightarrow> False)"

text \<open>\<open>isspace\<close> in the C locale.\<close>

definition is_space :: "char \<Rightarrow> bool" where
  "is_space c \<longleftrightarrow> (let n = (of_char c :: nat) in n = 32 \<or> (9 \<le> n \<and> n \<le> 13))"

lemma digit_val_char [simp]: "d < 16 \<Longrightarrow> digit_val (digit_char d) = Some d"
  by (auto simp: digit_val_def digit_char_def)

lemma is_digit_char [simp]: "d < b \<Longrightarrow> b \<le> 16 \<Longrightarrow> is_digit b (digit_char d)"
  by (simp add: is_digit_def)

lemma digit_char_not_space [simp]: "d < 16 \<Longrightarrow> \<not> is_space (digit_char d)"
  by (auto simp: is_space_def digit_char_def)

lemma digit_char_not_NUL [simp]: "d < 16 \<Longrightarrow> digit_char d \<noteq> NUL"
proof
  assume "d < 16" "digit_char d = NUL"
  then have "(of_char (digit_char d) :: nat) = of_char NUL" by simp
  then show False
    using \<open>d < 16\<close> by (simp add: digit_char_def NUL_def split: if_splits)
qed

section \<open>Printing numbers\<close>

fun show_base :: "nat \<Rightarrow> nat \<Rightarrow> string" where
  "show_base b n =
     (if n < b \<or> b < 2 then [digit_char n]
      else show_base b (n div b) @ [digit_char (n mod b)])"

declare show_base.simps [simp del]

text \<open>\<open>%lu\<close> and \<open>%d\<close>.\<close>

definition show_nat :: "nat \<Rightarrow> string" where
  "show_nat n = show_base 10 n"

definition show_int :: "int \<Rightarrow> string" where
  "show_int i = (if i < 0 then CHR ''-'' # show_nat (nat (- i)) else show_nat (nat i))"

text \<open>\<open>%0wx\<close> on an unsigned value, and the padding of \<open>%*s\<close> (a negative width pads right).\<close>

definition show_hex0 :: "nat \<Rightarrow> nat \<Rightarrow> string" where
  "show_hex0 w n = (let s = show_base 16 n in replicate (w - length s) (CHR ''0'') @ s)"

definition pad_str :: "int \<Rightarrow> string \<Rightarrow> string" where
  "pad_str w s =
     (if w < 0 then s @ replicate (nat (- w) - length s) (CHR '' '')
      else replicate (nat w - length s) (CHR '' '') @ s)"

lemma show_base_digits:
  "2 \<le> b \<Longrightarrow> b \<le> 16 \<Longrightarrow> \<forall>c \<in> set (show_base b n). \<exists>d < b. c = digit_char d"
proof (induction b n rule: show_base.induct)
  case (1 b n)
  then show ?case
    by (subst show_base.simps) (auto intro: exI [of _ "n mod b"] exI [of _ n])
qed

lemma show_base_nonempty [simp]: "show_base b n \<noteq> []"
  by (subst show_base.simps) simp

lemma length_show_base_pos [simp]: "0 < length (show_base b n)"
  by simp

lemma show_base_cstring: "2 \<le> b \<Longrightarrow> b \<le> 16 \<Longrightarrow> cstring (show_base b n)"
  using show_base_digits [of b n] unfolding cstring_def
  by (metis digit_char_not_NUL order_less_le_trans)

lemma length_show_base_le:
  assumes "2 \<le> b" "n < b ^ k" "0 < k"
  shows "length (show_base b n) \<le> k"
  using assms
proof (induction b n arbitrary: k rule: show_base.induct)
  case (1 b n)
  show ?case
  proof (cases "n < b")
    case True
    then show ?thesis using 1 by (simp add: show_base.simps)
  next
    case False
    with 1(3,4) obtain j where k: "k = Suc j" "0 < j"
      by (metis One_nat_def Suc_pred less_irrefl_nat neq0_conv power_one_right)
    with 1(3) have "n div b < b ^ j"
      by (simp add: less_mult_imp_div_less mult.commute)
    with 1(1) [of j] False 1(2) k have "length (show_base b (n div b)) \<le> j"
      by simp
    with False 1(2) k show ?thesis by (subst show_base.simps) simp
  qed
qed

lemma show_nat_cstring [simp]: "cstring (show_nat n)"
  by (simp add: show_nat_def show_base_cstring)

lemma length_pad_str: "length (pad_str w s) = max (nat \<bar>w\<bar>) (length s)"
  by (auto simp: pad_str_def max_def)

section \<open>Reading numbers\<close>

text \<open>Consume digits in base \<open>b\<close>, accumulating their value; the rest of the string is returned.\<close>

fun read_base :: "nat \<Rightarrow> nat \<Rightarrow> string \<Rightarrow> nat \<times> string" where
  "read_base b a [] = (a, [])"
| "read_base b a (c # cs) =
     (if is_digit b c then read_base b (a * b + the (digit_val c)) cs else (a, c # cs))"

definition no_digit :: "nat \<Rightarrow> string \<Rightarrow> bool" where
  "no_digit b s \<longleftrightarrow> (case s of [] \<Rightarrow> True | c # _ \<Rightarrow> \<not> is_digit b c)"

lemma read_base_stop: "no_digit b s \<Longrightarrow> read_base b a s = (a, s)"
  by (cases s) (auto simp: no_digit_def)

lemma read_base_append:
  "\<forall>c \<in> set xs. is_digit b c \<Longrightarrow>
   read_base b a (xs @ ys) = read_base b (foldl (\<lambda>v c. v * b + the (digit_val c)) a xs) ys"
  by (induction xs arbitrary: a) auto

lemma foldl_show_base:
  "2 \<le> b \<Longrightarrow> b \<le> 16 \<Longrightarrow> foldl (\<lambda>v c. v * b + the (digit_val c)) 0 (show_base b n) = n"
proof (induction b n rule: show_base.induct)
  case (1 b n)
  moreover have "n mod b < 16" if "2 \<le> b" "b \<le> 16" for b :: nat
    using that mod_less_divisor [of b n] by linarith
  ultimately show ?case by (subst show_base.simps) auto
qed

lemma show_base_all_digits:
  "2 \<le> b \<Longrightarrow> b \<le> 16 \<Longrightarrow> c \<in> set (show_base b n) \<Longrightarrow> is_digit b c"
  using show_base_digits [of b n] by auto

lemma read_show_base:
  assumes "2 \<le> b" "b \<le> 16" "no_digit b r"
  shows "read_base b 0 (show_base b n @ r) = (n, r)"
  using assms by (simp add: read_base_append show_base_all_digits foldl_show_base read_base_stop)

lemma read_zeros [simp]:
  "2 \<le> b \<Longrightarrow> read_base b 0 (replicate k (CHR ''0'') @ r) = read_base b 0 r"
proof (induction k)
  case (Suc k)
  moreover have "is_digit b (CHR ''0'')" "digit_val (CHR ''0'') = Some 0"
    using Suc.prems by (auto simp: is_digit_def digit_val_def)
  ultimately show ?case by simp
qed simp

subsection \<open>strtol and the integer conversions of sscanf\<close>

definition skip_space :: "string \<Rightarrow> string" where
  "skip_space s = dropWhile is_space s"

text \<open>An optional sign: whether it was a minus, and the rest.\<close>

definition read_sign :: "string \<Rightarrow> bool \<times> string" where
  "read_sign s =
     (case s of
        c # cs \<Rightarrow> if c = CHR ''-'' then (True, cs) else if c = CHR ''+'' then (False, cs) else (False, s)
      | [] \<Rightarrow> (False, s))"

text \<open>The clamping of \<open>strtol\<close> to \<open>long\<close> and of \<open>strtoul\<close> to \<open>unsigned long\<close>.\<close>

definition clamp_long :: "bool \<Rightarrow> nat \<Rightarrow> int" where
  "clamp_long neg n = (if neg then max (- (2 ^ 63)) (- int n) else min (2 ^ 63 - 1) (int n))"

definition clamp_ulong :: "bool \<Rightarrow> nat \<Rightarrow> u64" where
  "clamp_ulong neg n =
     (if 2 ^ 64 \<le> n then - 1 else if neg then - word_of_nat n else word_of_nat n)"

text \<open>Conversion of a \<open>long\<close> to \<open>int\<close>: the low 32 bits, as two's complement.\<close>

definition to_int :: "int \<Rightarrow> int" where
  "to_int i = signed_take_bit 31 i"

text \<open>
  \<open>%d\<close>: white space, an optional sign, at least one digit; \<open>None\<close> is a matching failure.
\<close>

definition scan_d :: "string \<Rightarrow> (int \<times> string) option" where
  "scan_d s =
     (let (neg, t) = read_sign (skip_space s)
      in if no_digit 10 t then None
         else let (n, r) = read_base 10 0 t in Some (to_int (clamp_long neg n), r))"

definition scan_lu :: "string \<Rightarrow> (u64 \<times> string) option" where
  "scan_lu s =
     (let (neg, t) = read_sign (skip_space s)
      in if no_digit 10 t then None
         else let (n, r) = read_base 10 0 t in Some (clamp_ulong neg n, r))"

text \<open>\<open>atoi(s)\<close> is \<open>(int) strtol(s, NULL, 10)\<close>; no digits give 0.\<close>

definition atoi :: "string \<Rightarrow> int" where
  "atoi s = (case scan_d s of Some (i, _) \<Rightarrow> i | None \<Rightarrow> 0)"

text \<open>
  \<open>%x\<close> without a field width: white space, an optional sign, an optional \<open>0x\<close>, hexadecimal
  digits (after \<open>0x\<close> there may be none: the zero already counts).
\<close>

definition scan_hex_body :: "string \<Rightarrow> (u32 \<times> string) option" where
  "scan_hex_body t0 =
     (let (neg, t) = read_sign t0;
          conv = (\<lambda>(n, r). (ucast (clamp_ulong neg n) :: u32, r))
      in case t of
           c # d # cs \<Rightarrow>
             if c = CHR ''0'' \<and> (d = CHR ''x'' \<or> d = CHR ''X'') then Some (conv (read_base 16 0 cs))
             else if no_digit 16 t then None else Some (conv (read_base 16 0 t))
         | _ \<Rightarrow> if no_digit 16 t then None else Some (conv (read_base 16 0 t)))"

definition scan_x :: "string \<Rightarrow> (u32 \<times> string) option" where
  "scan_x s = scan_hex_body (skip_space s)"

text \<open>\<open>%wx\<close>: at most \<open>w\<close> characters after the white space take part in the conversion.\<close>

definition scan_xw :: "nat \<Rightarrow> string \<Rightarrow> (u32 \<times> string) option" where
  "scan_xw w s =
     (let t = skip_space s
      in case scan_hex_body (take w t) of
           None \<Rightarrow> None
         | Some (v, r) \<Rightarrow> Some (v, r @ drop w t))"

text \<open>A literal character of a scanf format.\<close>

definition scan_lit :: "char \<Rightarrow> string \<Rightarrow> string option" where
  "scan_lit c s = (case s of d # ds \<Rightarrow> if c = d then Some ds else None | [] \<Rightarrow> None)"

text \<open>
  A format made of \<open>%wx\<close> conversions and literal characters: the values assigned before the
  first failure (the return value of \<open>sscanf\<close> is their number).
\<close>

datatype scan_item = SLit char | SHex nat

fun scan_items :: "scan_item list \<Rightarrow> string \<Rightarrow> u32 list" where
  "scan_items [] s = []"
| "scan_items (SLit c # is) s = (case scan_lit c s of None \<Rightarrow> [] | Some r \<Rightarrow> scan_items is r)"
| "scan_items (SHex w # is) s =
     (case scan_xw w s of None \<Rightarrow> [] | Some (v, r) \<Rightarrow> v # scan_items is r)"

section \<open>Printed numbers read back\<close>

lemma show_base_hd:
  assumes "2 \<le> b" "b \<le> 16"
  obtains d cs where "show_base b n = digit_char d # cs" "d < b"
proof -
  obtain c cs where s: "show_base b n = c # cs"
    by (metis list.exhaust show_base_nonempty)
  with show_base_digits [OF assms, of n] show ?thesis
    using that by auto
qed

lemma digit_char_neq: "d < 16 \<Longrightarrow> digit_val c = None \<Longrightarrow> digit_char d \<noteq> c"
  by auto

lemma digit_char_not_sign [simp]:
  "d < 16 \<Longrightarrow> digit_char d \<noteq> CHR ''-''" "d < 16 \<Longrightarrow> digit_char d \<noteq> CHR ''+''"
  by (simp_all add: digit_char_neq digit_val_def)

lemma read_sign_show_base:
  assumes "2 \<le> b" "b \<le> 16"
  shows "read_sign (skip_space (show_base b n @ r)) = (False, show_base b n @ r)"
proof -
  obtain d cs where s: "show_base b n = digit_char d # cs" "d < b"
    using show_base_hd [OF assms] .
  with assms have "d < 16" by simp
  then show ?thesis by (simp add: s skip_space_def read_sign_def)
qed

lemma no_digit_show_base:
  "2 \<le> b \<Longrightarrow> b \<le> 16 \<Longrightarrow> \<not> no_digit b (show_base b n @ r)"
  by (rule show_base_hd [of b n]) (auto simp: no_digit_def)

lemma scan_lu_show_nat:
  assumes "n < 2 ^ 64" "no_digit 10 r"
  shows "scan_lu (show_nat n @ r) = Some (word_of_nat n, r)"
  using assms read_show_base [of 10 r n]
  by (simp add: scan_lu_def show_nat_def read_sign_show_base no_digit_show_base clamp_ulong_def)

lemma scan_d_show_nat:
  assumes "int n < 2 ^ 31" "no_digit 10 r"
  shows "scan_d (show_nat n @ r) = Some (int n, r)"
proof -
  have "to_int (clamp_long False n) = int n"
    using assms(1) by (simp add: to_int_def clamp_long_def signed_take_bit_int_eq_self)
  then show ?thesis
    using assms(2) read_show_base [of 10 r n]
    by (simp add: scan_d_def show_nat_def read_sign_show_base no_digit_show_base)
qed

subsection \<open>Hexadecimal numbers of a fixed width\<close>

lemma digit_char_0: "digit_char 0 = CHR ''0''"
  by code_simp

definition hex_digits :: "string \<Rightarrow> bool" where
  "hex_digits s \<longleftrightarrow> s \<noteq> [] \<and> (\<forall>c \<in> set s. \<exists>d < 16. c = digit_char d)"

lemma digit_char_not_x: "d < 16 \<Longrightarrow> digit_char d \<noteq> CHR ''x''" "d < 16 \<Longrightarrow> digit_char d \<noteq> CHR ''X''"
  by (simp_all add: digit_char_neq digit_val_def)

lemma scan_hex_body_digits:
  assumes "hex_digits s"
  shows "scan_hex_body s =
    Some (case read_base 16 0 s of (n, r) \<Rightarrow> (ucast (clamp_ulong False n), r))"
proof -
  obtain d cs where s: "s = digit_char d # cs" "d < 16"
    using assms by (cases s) (auto simp: hex_digits_def)
  then have "read_sign s = (False, s)" "\<not> no_digit 16 s"
    by (auto simp: read_sign_def no_digit_def)
  moreover have "c \<noteq> CHR ''x'' \<and> c \<noteq> CHR ''X''" if "cs = c # r" for c r
    using assms that digit_char_not_x by (auto simp: hex_digits_def s)
  ultimately show ?thesis
    using s(1) by (cases cs) (simp_all add: scan_hex_body_def)
qed

lemma hex_digits_show_hex0: "hex_digits (show_hex0 w n)"
  using show_base_digits [of 16 n]
  by (auto simp: hex_digits_def show_hex0_def Let_def digit_char_0 [symmetric] intro: exI [of _ 0])

lemma length_show_hex0: "n < 16 ^ w \<Longrightarrow> 0 < w \<Longrightarrow> length (show_hex0 w n) = w"
  using length_show_base_le [of 16 n w] by (simp add: show_hex0_def Let_def)

lemma read_show_hex0: "read_base 16 0 (show_hex0 w n) = (n, [])"
  using read_show_base [of 16 "[]" n] by (simp add: show_hex0_def Let_def no_digit_def)

lemma hex_digits_no_space: "hex_digits s \<Longrightarrow> skip_space (s @ r) = s @ r"
  by (cases s) (auto simp: hex_digits_def skip_space_def)

lemma hex_digits_cstring: "hex_digits s \<Longrightarrow> cstring s"
  unfolding hex_digits_def cstring_def using digit_char_not_NUL by metis

text \<open>\<open>%wx\<close> reads back what \<open>%0wx\<close> printed, whatever follows.\<close>

lemma scan_xw_show_hex0:
  assumes "n < 16 ^ w" "0 < w" "n < 2 ^ 32"
  shows "scan_xw w (show_hex0 w n @ r) = Some (word_of_nat n, r)"
proof -
  have "clamp_ulong False n = word_of_nat n"
    using assms(3) by (simp add: clamp_ulong_def)
  then have "(ucast (clamp_ulong False n) :: u32) = word_of_nat n"
    using assms(3) by (simp add: unsigned_of_nat take_bit_nat_def)
  then show ?thesis
    using length_show_hex0 [OF assms(1,2)] hex_digits_no_space [OF hex_digits_show_hex0, of w n r]
    by (simp add: scan_xw_def scan_hex_body_digits [OF hex_digits_show_hex0] read_show_hex0)
qed

end
