(* ===== verification/Util.thy ===== *)
theory Util
  imports CStr
begin

text \<open>
  The tool's access to the operating system and src/util.c: the program name, and reading and
  writing one-line attribute files.

  What the operating system answers is a parameter, the record \<open>os\<close>: its functions act on a
  state of a type of their own, so that files can change under reads and writes (a
  sysfs file runs driver code). \<open>os_stack\<close> is what uninitialised variables hold and \<open>os_fresh\<close>
  what a new block of memory holds; \<open>os_sleep\<close> also tells whether a SIGINT arrived, and
  \<open>os_early_sigint\<close> whether one arrived between the installation of its handler and the first sample. The state of the tool's process is the record \<open>proc\<close>. A
  result \<open>None\<close> of a whole function is undefined behaviour of C (an access out of bounds).
  Texts printed on the standard error stream are not modelled.
\<close>

section \<open>The operating system\<close>

record 's os =
  os_page_size :: nat
  os_malloc :: "nat \<Rightarrow> 's \<Rightarrow> bool \<times> 's"
  os_open_r :: "string \<Rightarrow> 's \<Rightarrow> bool"
  os_open_w :: "string \<Rightarrow> 's \<Rightarrow> bool"
  os_read :: "string \<Rightarrow> 's \<Rightarrow> char list option \<times> 's"
  os_write :: "string \<Rightarrow> char list \<Rightarrow> 's \<Rightarrow> int \<times> 's"
  os_dir :: "string \<Rightarrow> 's \<Rightarrow> string list option"
  os_stat :: "string \<Rightarrow> 's \<Rightarrow> bool"
  os_readlink :: "string \<Rightarrow> 's \<Rightarrow> string option"
  os_stack :: "'s \<Rightarrow> nat \<Rightarrow> u32"
  os_fresh :: "nat \<Rightarrow> 's \<Rightarrow> char list"
  os_sleep :: "int \<Rightarrow> 's \<Rightarrow> bool \<times> 's"
  os_early_sigint :: bool
  os_euid :: nat

record 's proc =
  os_st :: 's
  prg_name :: "char list"
  read_buf :: bool

definition PATH_MAX :: nat where "PATH_MAX = 4096"

text \<open>\<open>read\<close> returns at most as many bytes as the caller asked for.\<close>

definition read_bytes :: "'s os \<Rightarrow> string \<Rightarrow> nat \<Rightarrow> 's \<Rightarrow> char list option \<times> 's" where
  "read_bytes os path n s = (case os_read os path s of (r, s') \<Rightarrow> (map_option (take n) r, s'))"

section \<open>Outcomes\<close>

text \<open>
  The outcome of code that may end the process or access memory it must not: it returns, calls
  \<open>exit\<close>, or its behaviour is undefined.
\<close>

datatype 'a outcome = Ret 'a | Exit int | Crash

fun bind_o :: "'a outcome \<Rightarrow> ('a \<Rightarrow> 'b outcome) \<Rightarrow> 'b outcome" where
  "bind_o (Ret x) f = f x"
| "bind_o (Exit n) f = Exit n"
| "bind_o Crash f = Crash"

definition or_crash :: "'a option \<Rightarrow> 'a outcome" where
  "or_crash r = (case r of Some x \<Rightarrow> Ret x | None \<Rightarrow> Crash)"

lemma or_crash_simps [simp]: "or_crash (Some x) = Ret x" "or_crash None = Crash"
  by (simp_all add: or_crash_def)

lemma bind_o_Ret_iff: "bind_o x f = Ret r \<longleftrightarrow> (\<exists>y. x = Ret y \<and> f y = Ret r)"
  by (cases x) auto

lemma or_crash_Ret_iff: "or_crash x = Ret r \<longleftrightarrow> x = Some r"
  by (cases x) auto

text \<open>The string in a buffer; without a terminator, reading it runs past the end.\<close>

definition c_string :: "char list \<Rightarrow> string option" where
  "c_string b = (if NUL \<in> set b then Some (buf_str b) else None)"

section \<open>The program name\<close>

text \<open>\<open>basename\<close> of the GNU library (the build defines \<open>_GNU_SOURCE\<close>): what follows the last slash.\<close>

definition basename :: "string \<Rightarrow> string" where
  "basename s = rev (takeWhile (\<lambda>c. c \<noteq> CHR ''/'') (rev s))"

definition set_program_name :: "string \<Rightarrow> ('s, 'z) proc_scheme \<Rightarrow> ('s, 'z) proc_scheme" where
  "set_program_name name p = p\<lparr>prg_name := strncpy (prg_name p) (basename name) PATH_MAX\<rparr>"

text \<open>The buffer is a string only while a terminator is left in it.\<close>

definition program_name :: "('s, 'z) proc_scheme \<Rightarrow> string option" where
  "program_name p = (if NUL \<in> set (prg_name p) then Some (buf_str (prg_name p)) else None)"

section \<open>Attribute files\<close>

text \<open>
  The one-line string in a freshly read page: the last character, normally the newline, is
  overwritten by a terminator. A page without a NUL makes \<open>strlen\<close> run past its end.
\<close>

definition chop_page :: "char list \<Rightarrow> char list option" where
  "chop_page b =
     (if NUL \<notin> set b then None
      else if length (buf_str b) > 0 then Some (b[length (buf_str b) - 1 := NUL])
      else Some b)"

definition read_attribute ::
  "'s os \<Rightarrow> string \<Rightarrow> char list \<Rightarrow> nat \<Rightarrow> ('s, 'z) proc_scheme \<Rightarrow>
   (int \<times> char list \<times> ('s, 'z) proc_scheme) option" where
  "read_attribute os path contents n p =
     (let page_size = os_page_size os in
      let (ok, s0) = (if read_buf p then (True, os_st p) else os_malloc os page_size (os_st p)) in
      if \<not> ok then Some (1, contents, p\<lparr>os_st := s0\<rparr>)
      else let p1 = p\<lparr>os_st := s0, read_buf := True\<rparr> in
        if \<not> os_open_r os path (os_st p1) then Some (1, contents, p1)
        else (case read_bytes os path page_size (os_st p1) of
            (None, s) \<Rightarrow> Some (1, contents, p1\<lparr>os_st := s\<rparr>)
          | (Some d, s) \<Rightarrow>
              (case chop_page (d @ replicate (page_size - length d) NUL) of
                 None \<Rightarrow> None
               | Some b \<Rightarrow>
                   (let k = (if n < page_size then n else page_size)
                    in if length contents < k then None
                       else Some (0, strncpy contents (buf_str b) k, p1\<lparr>os_st := s\<rparr>)))))"

text \<open>The terminator is written along with the string.\<close>

definition write_attribute ::
  "'s os \<Rightarrow> string \<Rightarrow> string \<Rightarrow> ('s, 'z) proc_scheme \<Rightarrow> int \<times> ('s, 'z) proc_scheme" where
  "write_attribute os path contents p =
     (if \<not> os_open_w os path (os_st p) then (1, p)
      else (case os_write os path (contents @ [NUL]) (os_st p) of
              (r, s) \<Rightarrow> (if r < 0 then 1 else 0, p\<lparr>os_st := s\<rparr>)))"

section \<open>Facts\<close>

lemma basename_no_slash: "CHR ''/'' \<notin> set (basename s)"
  by (auto simp: basename_def dest: set_takeWhileD)

lemma basename_append: "CHR ''/'' \<notin> set b \<Longrightarrow> basename (d @ ''/'' @ b) = b"
  by (auto simp: basename_def takeWhile_append)

lemma chop_page_line:
  assumes "cstring (line @ [c])" "length line + 1 < n"
  shows "\<exists>b. chop_page ((line @ [c]) @ replicate (n - length (line @ [c])) NUL) = Some b \<and> buf_str b = line"
proof -
  define k where "k = n - length line - 2"
  have r: "replicate (n - length (line @ [c])) NUL = NUL # replicate k NUL"
    using assms(2) by (simp add: k_def) (metis Suc_diff_Suc diff_Suc_Suc diff_diff_left plus_1_eq_Suc replicate_Suc)
  have "buf_str ((line @ [c]) @ NUL # replicate k NUL) = line @ [c]"
    using assms(1) by (rule buf_str_append_NUL)
  moreover have "((line @ [c]) @ NUL # replicate k NUL)[length line := NUL]
      = line @ NUL # NUL # replicate k NUL"
    by simp
  moreover have "buf_str (line @ NUL # NUL # replicate k NUL) = line"
    using assms(1) by (intro buf_str_append_NUL) simp
  ultimately show ?thesis unfolding r chop_page_def by simp
qed

text \<open>
  Reading an attribute of one line: the line without its last character arrives, terminated.
\<close>

lemma read_attribute_line:
  assumes "(if read_buf p then (True, os_st p) else os_malloc os (os_page_size os) (os_st p)) = (True, s0)"
    and "os_open_r os path s0" "os_read os path s0 = (Some (line @ [c]), s)"
    and "cstring (line @ [c])" "length line + 1 < os_page_size os"
    and "length line < n" "min n (os_page_size os) \<le> length contents"
  shows "\<exists>b. read_attribute os path contents n p = Some (0, b, p\<lparr>os_st := s, read_buf := True\<rparr>) \<and>
    length b = length contents \<and> buf_str b = line"
proof -
  let ?d = "line @ [c]"
  define k where "k = (if n < os_page_size os then n else os_page_size os)"
  obtain b where b: "chop_page (?d @ replicate (os_page_size os - length ?d) NUL) = Some b" "buf_str b = line"
    using chop_page_line [OF assms(4,5)] by blast
  have "take (os_page_size os) ?d = ?d" using assms(5) by simp
  then have "read_bytes os path (os_page_size os) s0 = (Some ?d, s)"
    unfolding read_bytes_def assms(3) by simp
  moreover have "k \<le> length contents" "length line < k"
    using assms(5-7) by (auto simp: k_def)
  ultimately have "read_attribute os path contents n p
      = Some (0, strncpy contents line k, p\<lparr>os_st := s, read_buf := True\<rparr>)"
    using assms(1,2) b by (simp add: read_attribute_def k_def Let_def)
  with \<open>k \<le> length contents\<close> \<open>length line < k\<close> assms(4) show ?thesis
    by (simp add: buf_str_strncpy)
qed

text \<open>A failed read leaves the caller's buffer as it was.\<close>

lemma read_attribute_fails:
  "read_attribute os path contents n p = Some (r, b, p') \<Longrightarrow> r = 0 \<or> r = 1 \<and> b = contents"
  by (auto simp: read_attribute_def Let_def split: if_splits prod.splits option.splits)

lemma read_attribute_keeps_length:
  "read_attribute os path contents n p = Some (r, b, p') \<Longrightarrow> length b = length contents"
  by (auto simp: read_attribute_def Let_def split: if_splits prod.splits option.splits)

lemma buf_str_full: "NUL \<notin> set b \<Longrightarrow> buf_str b = b"
  by (simp add: buf_str_id cstring_def)

section \<open>A small system\<close>

text \<open>
  An operating system for concrete runs: its state is the number of allocations that still
  succeed; every attribute file holds the same line; there is one root bridge with one bus
  and one slot.
\<close>

definition demo_os :: "nat os" where
  "demo_os =
     \<lparr>os_page_size = 16, os_malloc = (\<lambda>n k. (0 < k, k - 1)), os_open_r = (\<lambda>p k. True),
      os_open_w = (\<lambda>p k. True), os_read = (\<lambda>p k. (Some ''0000:10:01\<newline>'', k)),
      os_write = (\<lambda>p d k. (int (length d), k)),
      os_dir = (\<lambda>p k. if p = ''/sys/devices'' then Some [''.'', ''..'', ''system'', ''pci0000:10'']
                      else if p = ''/sys/class/pci_bus'' then Some [''0000:10'']
                      else if p = ''/sys/bus/pci/slots'' then Some [''7''] else None),
      os_stat = (\<lambda>p k. False), os_readlink = (\<lambda>p k. Some ''../../../devices/pci0000:10''),
      os_stack = (\<lambda>k n. 0), os_fresh = (\<lambda>n k. replicate n NUL), os_sleep = (\<lambda>n k. (False, k)), os_early_sigint = False,
      os_euid = 0\<rparr>"

definition demo_proc :: "nat proc" where
  "demo_proc = \<lparr>os_st = 10, prg_name = [], read_buf = False\<rparr>"

section \<open>The property\<close>

text \<open>
  C32. Reading an attribute file that holds one line: the call succeeds and the caller's buffer
  holds the line without its newline, terminated, provided the line is shorter than a page
  and than the buffer. (A failed read returns 1 and leaves the buffer as it was.)
\<close>

theorem read_attribute_correct:
  assumes "(if read_buf p then (True, os_st p) else os_malloc os (os_page_size os) (os_st p)) = (True, s0)"
    and "os_open_r os path s0" "os_read os path s0 = (Some (line @ [newline]), s)"
    and "cstring line" "length line + 1 < os_page_size os"
    and "length line < n" "min n (os_page_size os) \<le> length contents"
  shows "\<exists>b. read_attribute os path contents n p = Some (0, b, p\<lparr>os_st := s, read_buf := True\<rparr>) \<and>
    length b = length contents \<and> c_string b = Some line"
proof -
  have "cstring (line @ [newline])"
    using assms(4) by (simp add: cstring_def newline_def NUL_def)
  from read_attribute_line [OF assms(1-3) this assms(5-7)] obtain b where
    b: "read_attribute os path contents n p = Some (0, b, p\<lparr>os_st := s, read_buf := True\<rparr>)"
      "length b = length contents" "buf_str b = line" by blast
  have "length line < length b" using assms(5-7) b(2) by linarith
  with b(3) have "NUL \<in> set b"
    by (metis buf_str_full less_irrefl)
  with b show ?thesis by (auto simp: c_string_def)
qed

theorem read_attribute_correct_witness:
  "\<exists>b. read_attribute demo_os ''f'' (replicate 12 NUL) 12 demo_proc
      = Some (0, b, demo_proc\<lparr>os_st := 9, read_buf := True\<rparr>) \<and> c_string b = Some ''0000:10:01''"
  using read_attribute_correct [of demo_proc demo_os 9 "''f''" "''0000:10:01''" 9 12 "replicate 12 NUL"]
  by (auto simp: demo_os_def demo_proc_def newline_def cstring_def NUL_def)

end
