(* ===== verification/CList.thy ===== *)
theory CList
  imports Prelude
begin

text \<open>
  The doubly linked lists of src/list.h and the checker of src/list.c. A heap maps the address
  of every \<open>struct list_node\<close> to its \<open>next\<close> and \<open>prev\<close> fields; a \<open>struct list_head\<close> is a node.
  \<open>CCAN_LIST_DEBUG\<close> is not defined by the build, so \<open>debug_list\<close> is its argument.
\<close>

section \<open>The heap and the operations\<close>

record lheap =
  nxt :: "addr \<Rightarrow> addr"
  prv :: "addr \<Rightarrow> addr"

definition set_nxt :: "addr \<Rightarrow> addr \<Rightarrow> lheap \<Rightarrow> lheap" where
  "set_nxt p q s = s\<lparr>nxt := (nxt s)(p := q)\<rparr>"

definition set_prv :: "addr \<Rightarrow> addr \<Rightarrow> lheap \<Rightarrow> lheap" where
  "set_prv p q s = s\<lparr>prv := (prv s)(p := q)\<rparr>"

lemma heap_simps [simp]:
  "nxt (set_nxt p q s) = (nxt s)(p := q)" "prv (set_nxt p q s) = prv s"
  "prv (set_prv p q s) = (prv s)(p := q)" "nxt (set_prv p q s) = nxt s"
  by (simp_all add: set_nxt_def set_prv_def)

definition list_head_init :: "addr \<Rightarrow> lheap \<Rightarrow> lheap" where
  "list_head_init h s = set_nxt h h (set_prv h h s)"

definition list_add :: "addr \<Rightarrow> addr \<Rightarrow> lheap \<Rightarrow> lheap" where
  "list_add h n s =
     (let s1 = set_nxt n (nxt s h) s;
          s2 = set_prv n h s1;
          s3 = set_prv (nxt s2 h) n s2
      in set_nxt h n s3)"

definition list_add_tail :: "addr \<Rightarrow> addr \<Rightarrow> lheap \<Rightarrow> lheap" where
  "list_add_tail h n s =
     (let s1 = set_nxt n h s;
          s2 = set_prv n (prv s1 h) s1;
          s3 = set_nxt (prv s2 h) n s2
      in set_prv h n s3)"

definition list_del :: "addr \<Rightarrow> lheap \<Rightarrow> lheap" where
  "list_del n s =
     (let s1 = set_prv (nxt s n) (prv s n) s
      in set_nxt (prv s1 n) (nxt s1 n) s1)"

definition list_empty :: "addr \<Rightarrow> lheap \<Rightarrow> bool" where
  "list_empty h s \<longleftrightarrow> nxt s h = h"

definition list_is_last :: "addr \<Rightarrow> addr \<Rightarrow> lheap \<Rightarrow> bool" where
  "list_is_last h n s \<longleftrightarrow> nxt s n = h"

definition list_is_first :: "addr \<Rightarrow> addr \<Rightarrow> lheap \<Rightarrow> bool" where
  "list_is_first h n s \<longleftrightarrow> prv s n = h"

definition list_top :: "addr \<Rightarrow> lheap \<Rightarrow> addr option" where
  "list_top h s = (if list_empty h s then None else Some (nxt s h))"

text \<open>
  The macro \<open>list_for_each\<close>: the nodes its loop visits, starting at \<open>i\<close>, in order. The loop
  ends when it is back at the head, which a damaged list may never be: \<open>None\<close>.
\<close>

partial_function (option) for_each_from :: "addr \<Rightarrow> addr \<Rightarrow> lheap \<Rightarrow> addr list option" where
  "for_each_from h i s =
     (if i = h then Some []
      else Option.bind (for_each_from h (nxt s i) s) (\<lambda>is. Some (i # is)))"

definition list_for_each :: "addr \<Rightarrow> lheap \<Rightarrow> addr list option" where
  "list_for_each h s = for_each_from h (nxt s h) s"

text \<open>
  \<open>list_for_each_safe\<close> with a body that deletes the visited node: the successor is read before
  the body runs. The final heap and the visited nodes.
\<close>

partial_function (option) del_each_from ::
  "addr \<Rightarrow> addr \<Rightarrow> addr \<Rightarrow> lheap \<Rightarrow> (lheap \<times> addr list) option" where
  "del_each_from h i nx s =
     (if i = h then Some (s, [])
      else let s1 = list_del i s
           in Option.bind (del_each_from h nx (nxt s1 nx) s1) (\<lambda>(s2, is). Some (s2, i # is)))"

definition list_del_each :: "addr \<Rightarrow> lheap \<Rightarrow> (lheap \<times> addr list) option" where
  "list_del_each h s = del_each_from h (nxt s h) (nxt s (nxt s h)) s"

text \<open>
  \<open>list_check\<close>: the head when the list is consistent; otherwise a null result, or, when the
  caller passed a string to print, the abort with the number of the offending node (0 for an
  empty list whose \<open>prev\<close> is wrong).
\<close>

datatype check_result = Check_ok addr | Check_null | Check_abort nat

definition check_fail :: "string option \<Rightarrow> nat \<Rightarrow> check_result" where
  "check_fail abortstr count =
     (case abortstr of None \<Rightarrow> Check_null | Some _ \<Rightarrow> Check_abort count)"

partial_function (option) list_check_loop ::
  "addr \<Rightarrow> string option \<Rightarrow> addr \<Rightarrow> addr \<Rightarrow> nat \<Rightarrow> lheap \<Rightarrow> check_result option" where
  "list_check_loop h abortstr p n count s =
     (if n = h then Some (Check_ok h)
      else if prv s n \<noteq> p then Some (check_fail abortstr (Suc count))
      else list_check_loop h abortstr n (nxt s n) (Suc count) s)"

definition list_check :: "addr \<Rightarrow> string option \<Rightarrow> lheap \<Rightarrow> check_result option" where
  "list_check h abortstr s =
     (if nxt s h = h
      then if prv s h \<noteq> h then Some (check_fail abortstr 0) else Some (Check_ok h)
      else list_check_loop h abortstr h (nxt s h) 0 s)"

section \<open>The list a heap represents\<close>

text \<open>
  \<open>links s xs\<close>: every node of \<open>xs\<close> points to its successor in \<open>xs\<close> and back. A head \<open>h\<close>
  represents the list \<open>xs\<close> of nodes when the circle from \<open>h\<close> through \<open>xs\<close> back to \<open>h\<close> is linked
  both ways and passes each node once.
\<close>

fun links :: "lheap \<Rightarrow> addr list \<Rightarrow> bool" where
  "links s (a # b # r) \<longleftrightarrow> nxt s a = b \<and> prv s b = a \<and> links s (b # r)"
| "links s _ \<longleftrightarrow> True"

definition dlist :: "lheap \<Rightarrow> addr \<Rightarrow> addr list \<Rightarrow> bool" where
  "dlist s h xs \<longleftrightarrow> distinct (h # xs) \<and> links s (h # xs @ [h])"

lemma links_append: "links s (xs @ a # ys) \<longleftrightarrow> links s (xs @ [a]) \<and> links s (a # ys)"
proof (induction xs)
  case (Cons x xs)
  then show ?case by (cases xs) auto
qed simp

lemma links_cong:
  assumes "\<forall>x \<in> set (butlast xs). nxt s' x = nxt s x" "\<forall>x \<in> set (tl xs). prv s' x = prv s x"
  shows "links s' xs = links s xs"
  using assms
proof (induction s xs rule: links.induct)
  case (1 s a b r)
  then show ?case by (cases r) auto
qed auto

lemma links_Cons: "links s (a # xs) \<longleftrightarrow> xs = [] \<or> nxt s a = hd xs \<and> prv s (hd xs) = a \<and> links s xs"
  by (cases xs) auto

lemma links_snoc:
  "links s (xs @ [b]) \<longleftrightarrow> xs = [] \<or> nxt s (last xs) = b \<and> prv s b = last xs \<and> links s xs"
proof (induction xs)
  case (Cons x xs)
  then show ?case by (cases xs) auto
qed simp

lemma links_ConsD:
  assumes "links s (a # xs)" "xs \<noteq> []"
  shows "nxt s a = hd xs" "prv s (hd xs) = a" "links s xs"
  using assms links_Cons [of s a xs] by simp_all

lemma links_snocD:
  assumes "links s (xs @ [b])" "xs \<noteq> []"
  shows "nxt s (last xs) = b" "prv s b = last xs" "links s xs"
  using assms links_snoc [of s xs b] by simp_all

lemma links_snocI:
  "links s xs \<Longrightarrow> nxt s (last xs) = b \<Longrightarrow> prv s b = last xs \<Longrightarrow> links s (xs @ [b])"
  using links_snoc [of s xs b] by simp

lemma dlist_head:
  assumes "dlist s h xs"
  shows "nxt s h = hd (xs @ [h])" "prv s h = last (h # xs)"
proof -
  have "links s (h # (xs @ [h]))" "links s ((h # xs) @ [h])"
    using assms by (simp_all add: dlist_def)
  then show "nxt s h = hd (xs @ [h])" "prv s h = last (h # xs)"
    unfolding links_snoc links_Cons by auto
qed

lemma last_not_butlast: "distinct xs \<Longrightarrow> xs \<noteq> [] \<Longrightarrow> last xs \<notin> set (butlast xs)"
  by (cases xs rule: rev_cases) auto

section \<open>The operations on the represented list\<close>

lemma dlist_init: "dlist (list_head_init h s) h []"
  by (simp add: dlist_def list_head_init_def)

lemma dlist_add:
  assumes "dlist s h xs" "n \<notin> set (h # xs)"
  shows "dlist (list_add h n s) h (n # xs)"
proof -
  define f where "f = hd (xs @ [h])"
  have s': "nxt (list_add h n s) = (nxt s)(n := f, h := n)"
      "prv (list_add h n s) = (prv s)(n := h, f := n)"
    using assms(2) dlist_head [OF assms(1)] by (simp_all add: list_add_def Let_def f_def)
  have d: "distinct (h # xs)" "links s (xs @ [h])"
    using assms(1) by (auto simp: dlist_def links_Cons)
  have f: "xs @ [h] = f # tl (xs @ [h])" "f \<in> set (h # xs)"
    by (auto simp: f_def) (cases xs; simp)+
  have "links (list_add h n s) (xs @ [h]) = links s (xs @ [h])"
  proof (rule links_cong)
    show "\<forall>x \<in> set (butlast (xs @ [h])). nxt (list_add h n s) x = nxt s x"
      using assms(2) d by (auto simp: s')
    show "\<forall>x \<in> set (tl (xs @ [h])). prv (list_add h n s) x = prv s x"
      using assms(2) d f(2) by (cases xs) (auto simp: s' f_def)
  qed
  then show ?thesis
    using assms(2) d f by (auto simp: dlist_def s' links_Cons f_def)
qed

lemma dlist_add_tail:
  assumes "dlist s h xs" "n \<notin> set (h # xs)"
  shows "dlist (list_add_tail h n s) h (xs @ [n])"
proof -
  define e where "e = last (h # xs)"
  have s': "nxt (list_add_tail h n s) = (nxt s)(n := h, e := n)"
      "prv (list_add_tail h n s) = (prv s)(n := e, h := n)"
    using assms(2) dlist_head [OF assms(1)] by (simp_all add: list_add_tail_def Let_def e_def)
  have d: "distinct (h # xs)" "links s (h # xs)"
    using assms(1) links_snoc [of s "h # xs" h] by (auto simp: dlist_def)
  have e: "e \<in> set (h # xs)" "e \<notin> set (butlast (h # xs))"
    using last_in_set [of "h # xs"] last_not_butlast [OF d(1)] by (simp_all only: e_def list.distinct) auto
  have "links (list_add_tail h n s) (h # xs) = links s (h # xs)"
  proof (rule links_cong)
    show "\<forall>x \<in> set (butlast (h # xs)). nxt (list_add_tail h n s) x = nxt s x"
      using assms(2) e(2) in_set_butlastD by (fastforce simp: s')
    show "\<forall>x \<in> set (tl (h # xs)). prv (list_add_tail h n s) x = prv s x"
      using assms(2) d(1) by (auto simp: s')
  qed
  with d(2) have l: "links (list_add_tail h n s) (h # xs)" by simp
  have "nxt (list_add_tail h n s) e = n" "prv (list_add_tail h n s) n = e"
    "nxt (list_add_tail h n s) n = h" "prv (list_add_tail h n s) h = n"
    using assms(2) e(1) by (auto simp: s')
  then have "links (list_add_tail h n s) (((h # xs) @ [n]) @ [h])"
    using l by (intro links_snocI) (simp_all only: e_def last_snoc)
  then show ?thesis
    using assms(2) d(1) by (auto simp: dlist_def)
qed

lemma dlist_split:
  assumes "dlist s h (xs @ n # ys)"
  shows "nxt s n = hd (ys @ [h])" "prv s n = last (h # xs)"
    "links s (h # xs)" "links s (ys @ [h])"
proof -
  have l: "links s ((h # xs) @ n # (ys @ [h]))"
    using assms by (simp add: dlist_def)
  have "links s ((h # xs) @ [n])" "links s (n # (ys @ [h]))"
    using links_append [of s "h # xs" n "ys @ [h]"] l by blast+
  then show "nxt s n = hd (ys @ [h])" "prv s n = last (h # xs)"
    "links s (h # xs)" "links s (ys @ [h])"
    using links_snocD [of s "h # xs" n] links_ConsD [of s n "ys @ [h]"] by simp_all
qed

lemma dlist_del:
  assumes "dlist s h (xs @ n # ys)"
  shows "dlist (list_del n s) h (xs @ ys)"
proof -
  define p q where "p = last (h # xs)" and "q = hd (ys @ [h])"
  note sp = dlist_split [OF assms, folded p_def q_def]
  have d: "distinct (h # xs @ n # ys)"
    using assms by (simp add: dlist_def)
  have pq: "p \<in> set (h # xs)" "q \<in> set (h # ys)" "ys @ [h] = q # tl (ys @ [h])"
    using last_in_set [of "h # xs"] by (simp only: p_def list.distinct, auto simp: q_def)
      (cases ys; simp)+
  have "p \<noteq> n" "q \<noteq> n" using d pq(1,2) by auto
  then have s': "nxt (list_del n s) = (nxt s)(p := q)" "prv (list_del n s) = (prv s)(q := p)"
    using sp(1,2) by (simp_all add: list_del_def Let_def)
  have "p \<notin> set (butlast (h # xs))"
    using last_not_butlast [of "h # xs"] d by (simp add: p_def)
  moreover have "q \<notin> set xs"
    using d pq(2) by auto
  ultimately have "links (list_del n s) (h # xs) = links s (h # xs)"
    by (intro links_cong ballI) (auto simp: s' simp del: butlast.simps)
  with sp(3) have a: "links (list_del n s) (h # xs)" by simp
  have "p \<notin> set ys"
    using d pq(1) by auto
  moreover have "q \<notin> set (tl (ys @ [h]))"
    using d by (cases ys) (auto simp: q_def)
  ultimately have "links (list_del n s) (ys @ [h]) = links s (ys @ [h])"
    by (intro links_cong ballI) (auto simp: s')
  with sp(4) have b: "links (list_del n s) (ys @ [h])" by simp
  have "links (list_del n s) ((h # xs) @ [q])"
    using a by (intro links_snocI) (simp_all only: s' p_def [symmetric] fun_upd_same)
  with b have "links (list_del n s) ((h # xs) @ (ys @ [h]))"
    by (subst pq(3), subst links_append) (simp add: pq(3) [symmetric])
  then show ?thesis
    using d by (simp add: dlist_def)
qed

lemma dlist_empty_iff: "dlist s h xs \<Longrightarrow> list_empty h s \<longleftrightarrow> xs = []"
  using dlist_head(1) [of s h xs] by (cases xs) (auto simp: list_empty_def dlist_def)

lemma dlist_top: "dlist s h xs \<Longrightarrow> list_top h s = (case xs of [] \<Rightarrow> None | x # _ \<Rightarrow> Some x)"
  using dlist_head(1) [of s h xs] dlist_empty_iff [of s h xs]
  by (auto simp: list_top_def split: list.splits)

lemma dlist_is_last:
  assumes "dlist s h (xs @ n # ys)"
  shows "list_is_last h n s \<longleftrightarrow> ys = []"
  using dlist_split(1) [OF assms] assms by (cases ys) (auto simp: list_is_last_def dlist_def)

lemma dlist_is_first:
  assumes "dlist s h (xs @ n # ys)"
  shows "list_is_first h n s \<longleftrightarrow> xs = []"
proof (cases xs rule: rev_cases)
  case Nil
  then show ?thesis using dlist_split(2) [OF assms] by (simp add: list_is_first_def)
next
  case (snoc zs z)
  then show ?thesis
    using dlist_split(2) [OF assms] assms by (auto simp: list_is_first_def dlist_def)
qed

section \<open>Traversal\<close>

lemma for_each_from_links:
  "links s (xs @ [h]) \<Longrightarrow> h \<notin> set xs \<Longrightarrow> for_each_from h (hd (xs @ [h])) s = Some xs"
proof (induction xs)
  case Nil
  show ?case by (simp add: for_each_from.simps)
next
  case (Cons x xs)
  then have "nxt s x = hd (xs @ [h])" "links s (xs @ [h])" "x \<noteq> h"
    by (auto simp: links_Cons)
  with Cons show ?case
    by (simp add: for_each_from.simps [of h x])
qed

text \<open>\<open>list_for_each\<close> visits the nodes of the list, in order, and ends.\<close>

lemma dlist_for_each:
  assumes "dlist s h xs"
  shows "list_for_each h s = Some xs"
  using assms dlist_head(1) [OF assms] for_each_from_links [of s xs h]
  by (auto simp: list_for_each_def dlist_def links_Cons)

lemma del_each_from_dlist:
  "dlist s h xs \<Longrightarrow>
   \<exists>s'. del_each_from h (nxt s h) (nxt s (nxt s h)) s = Some (s', xs) \<and> dlist s' h []"
proof (induction xs arbitrary: s)
  case Nil
  then show ?case using dlist_head(1) [of s h "[]"] by (simp add: del_each_from.simps)
next
  case (Cons x xs)
  have x: "nxt s h = x" "x \<noteq> h" "nxt s x = hd (xs @ [h])"
    using Cons.prems dlist_head(1) [of s h "x # xs"] dlist_split(1) [of s h "[]" x xs]
    by (auto simp: dlist_def)
  define s1 where "s1 = list_del x s"
  have d: "dlist s1 h xs"
    using dlist_del [of s h "[]" x xs] Cons.prems by (simp add: s1_def)
  then have "nxt s1 h = hd (xs @ [h])" by (rule dlist_head)
  with Cons.IH [OF d] obtain s' where
    "del_each_from h (nxt s x) (nxt s1 (nxt s x)) s1 = Some (s', xs)" "dlist s' h []"
    by (auto simp: x)
  then show ?case
    using x(1,2) by (simp add: del_each_from.simps [of h x] s1_def Let_def)
qed

text \<open>Deleting every node while traversing visits them all and leaves the empty list.\<close>

lemma dlist_del_each:
  "dlist s h xs \<Longrightarrow> \<exists>s'. list_del_each h s = Some (s', xs) \<and> dlist s' h []"
  unfolding list_del_each_def by (rule del_each_from_dlist)

section \<open>The consistency check\<close>

text \<open>
  The state of the check's loop: it has followed \<open>next\<close> from the head through the nodes \<open>xs\<close>,
  and every \<open>prev\<close> agreed. Then no node can come up twice, so the loop ends after at most as
  many steps as there are addresses, whatever the heap.
\<close>

definition chain :: "lheap \<Rightarrow> addr \<Rightarrow> addr list \<Rightarrow> bool" where
  "chain s h xs \<longleftrightarrow> distinct (h # xs) \<and> links s (h # xs)"

lemma links_prev_unique:
  assumes "links s (xs @ a # b # ys)"
  shows "prv s b = a"
  using assms links_append [of s xs a "b # ys"] by auto

lemma chain_step:
  assumes "chain s h xs" "n = nxt s (last (h # xs))" "n \<noteq> h" "prv s n = last (h # xs)"
  shows "chain s h (xs @ [n])"
proof -
  have "n \<notin> set xs"
  proof
    assume "n \<in> set xs"
    then obtain as bs where xs: "xs = as @ n # bs" by (meson split_list)
    have "links s ((butlast (h # as)) @ last (h # as) # n # bs)"
      using assms(1) append_butlast_last_id [of "h # as"]
      by (simp only: chain_def xs append_Cons append_assoc)
        (metis append.assoc append_Cons append_Nil list.distinct(1))
    then have "prv s n = last (h # as)" by (rule links_prev_unique)
    with assms(4) have "last (h # as) = last (n # bs)"
      by (simp add: xs)
    moreover have "last (h # as) \<in> set (h # as)" "last (n # bs) \<in> set (n # bs)"
      by (rule last_in_set, simp)+
    ultimately show False
      using assms(1) by (auto simp: chain_def xs simp del: last.simps)
  qed
  with assms show ?thesis
    using links_snocI [of s "h # xs" n] by (auto simp: chain_def)
qed

lemma chain_length: "chain s h xs \<Longrightarrow> length xs < 2 ^ 64"
  using card_mono [of UNIV "set (h # xs)"] distinct_card [of "h # xs"]
  by (simp add: chain_def card_word)

text \<open>The outcomes of the loop: success only when the circle closes consistently.\<close>

lemma list_check_loop_total:
  "chain s h xs \<Longrightarrow>
   \<exists>r. list_check_loop h abortstr (last (h # xs)) (nxt s (last (h # xs))) c s = Some r \<and>
     (r = Check_ok h \<and> (\<exists>zs. chain s h zs \<and> nxt s (last (h # zs)) = h) \<or>
      (\<exists>k. r = check_fail abortstr k))"
proof (induction "2 ^ 64 - length xs" arbitrary: xs c rule: less_induct)
  case less
  define p n where "p = last (h # xs)" and "n = nxt s p"
  consider "n = h" | "n \<noteq> h" "prv s n \<noteq> p" | "n \<noteq> h" "prv s n = p" by blast
  then show ?case
  proof cases
    case 1
    have "list_check_loop h abortstr p n c s = Some (Check_ok h)"
      using 1 by (simp add: list_check_loop.simps)
    moreover have "\<exists>zs. chain s h zs \<and> nxt s (last (h # zs)) = h"
      using 1 less.prems unfolding n_def p_def by blast
    ultimately show ?thesis by (simp only: p_def n_def) blast
  next
    case 2
    have "list_check_loop h abortstr p n c s = Some (check_fail abortstr (Suc c))"
      using 2 by (simp add: list_check_loop.simps)
    then show ?thesis by (simp only: p_def n_def) blast
  next
    case 3
    have ch: "chain s h (xs @ [n])"
      by (rule chain_step [OF less.prems n_def [unfolded p_def] 3(1) 3(2) [unfolded p_def]])
    have len: "2 ^ 64 - length (xs @ [n]) < 2 ^ 64 - length xs"
      using chain_length [OF less.prems] by simp
    have l: "last (h # xs @ [n]) = n" by simp
    have "list_check_loop h abortstr p n c s
        = list_check_loop h abortstr n (nxt s n) (Suc c) s"
      using 3 by (simp add: list_check_loop.simps [of h abortstr p n])
    then show ?thesis
      using less.hyps [OF len ch, of "Suc c"]
      unfolding l p_def [symmetric] n_def [symmetric] by (simp only:)
  qed
qed

lemma chain_closed_dlist:
  "dlist s h xs \<longleftrightarrow> chain s h xs \<and> nxt s (last (h # xs)) = h \<and> prv s h = last (h # xs)"
  using links_snoc [of s "h # xs" h] by (auto simp: dlist_def chain_def)

lemma list_check_loop_chain:
  "links s (p # ys) \<Longrightarrow> h \<notin> set ys \<Longrightarrow> nxt s (last (p # ys)) = h \<Longrightarrow>
   list_check_loop h abortstr p (hd (ys @ [h])) c s = Some (Check_ok h)"
proof (induction ys arbitrary: p c)
  case Nil
  show ?case by (simp add: list_check_loop.simps)
next
  case (Cons y ys)
  have "prv s y = p" "y \<noteq> h" "links s (y # ys)"
    using Cons.prems by auto
  moreover have "nxt s y = hd (ys @ [h])"
    using Cons.prems by (cases ys) auto
  ultimately show ?case
    using Cons by (simp add: list_check_loop.simps [of h abortstr p y])
qed

definition chain_closed :: "lheap \<Rightarrow> addr \<Rightarrow> addr list \<Rightarrow> bool" where
  "chain_closed s h xs \<longleftrightarrow>
     chain s h xs \<and> nxt s (last (h # xs)) = h \<and> (xs = [] \<longrightarrow> prv s h = h)"

lemma list_check_closed:
  assumes "chain_closed s h xs"
  shows "list_check h abortstr s = Some (Check_ok h)"
proof (cases xs)
  case Nil
  then show ?thesis using assms by (simp add: list_check_def chain_closed_def)
next
  case (Cons x ys)
  then have "nxt s h = x" "x \<noteq> h" "links s (h # xs)" "h \<notin> set xs" "nxt s (last (h # xs)) = h"
    using assms by (auto simp: chain_closed_def chain_def)
  then show ?thesis
    using list_check_loop_chain [of s h xs h abortstr 0] Cons by (simp add: list_check_def)
qed

text \<open>A well-formed list passes.\<close>

lemma list_check_dlist: "dlist s h xs \<Longrightarrow> list_check h abortstr s = Some (Check_ok h)"
  by (rule list_check_closed [of s h xs]) (simp add: chain_closed_def chain_closed_dlist)

text \<open>
  The check ends on every heap, and passes exactly when the nodes form a circle whose links
  agree, but for the head's \<open>prev\<close>, which it compares on an empty list only.
\<close>

lemma check_fail_not_ok: "check_fail abortstr k \<noteq> Check_ok h"
  by (simp add: check_fail_def split: option.split)

lemma list_check_total:
  "\<exists>r. list_check h abortstr s = Some r \<and> (r = Check_ok h \<or> (\<exists>k. r = check_fail abortstr k)) \<and>
       (r = Check_ok h \<longleftrightarrow> (\<exists>xs. chain_closed s h xs))"
proof (cases "\<exists>xs. chain_closed s h xs")
  case True
  then show ?thesis using list_check_closed by blast
next
  case no: False
  have "\<exists>k. list_check h abortstr s = Some (check_fail abortstr k)"
  proof (cases "nxt s h = h")
    case True
    then have "prv s h \<noteq> h"
      using no by (auto simp: chain_closed_def chain_def dest: spec [of _ "[]"])
    then show ?thesis using True by (auto simp: list_check_def)
  next
    case False
    have nc: "\<not> (\<exists>zs. chain s h zs \<and> nxt s (last (h # zs)) = h)"
    proof
      assume "\<exists>zs. chain s h zs \<and> nxt s (last (h # zs)) = h"
      then obtain zs where "chain s h zs" "nxt s (last (h # zs)) = h" by blast
      moreover from this(2) have "zs \<noteq> []" using False by (metis last_ConsL)
      ultimately have "chain_closed s h zs" unfolding chain_closed_def by blast
      with no show False by blast
    qed
    have "chain s h []" by (simp add: chain_def)
    note list_check_loop_total [OF this, of abortstr 0, unfolded last_ConsL [OF refl]]
    with nc have "\<exists>k. list_check_loop h abortstr h (nxt s h) 0 s = Some (check_fail abortstr k)"
      by blast
    then show ?thesis
      using False by (simp only: list_check_def if_False)
  qed
  then obtain k where "list_check h abortstr s = Some (check_fail abortstr k)" ..
  then show ?thesis
    using no by (intro exI [of _ "check_fail abortstr k"]) (simp add: check_fail_not_ok, blast)
qed

section \<open>The interface its users rely on\<close>

text \<open>
  What a user of the lists needs: the operations act on the represented list as the obvious
  list functions do. A sequence of insertions and deletions can then be run on plain lists.
\<close>

datatype list_cmd = Head addr | Tail addr | Drop addr

fun cmd_ok :: "addr \<Rightarrow> list_cmd \<Rightarrow> addr list \<Rightarrow> bool" where
  "cmd_ok h (Head n) xs \<longleftrightarrow> n \<notin> set (h # xs)"
| "cmd_ok h (Tail n) xs \<longleftrightarrow> n \<notin> set (h # xs)"
| "cmd_ok h (Drop n) xs \<longleftrightarrow> n \<in> set xs"

fun cmd_list :: "list_cmd \<Rightarrow> addr list \<Rightarrow> addr list" where
  "cmd_list (Head n) xs = n # xs"
| "cmd_list (Tail n) xs = xs @ [n]"
| "cmd_list (Drop n) xs = remove1 n xs"

fun cmds_ok :: "addr \<Rightarrow> list_cmd list \<Rightarrow> addr list \<Rightarrow> bool" where
  "cmds_ok h [] xs \<longleftrightarrow> True"
| "cmds_ok h (c # cs) xs \<longleftrightarrow> cmd_ok h c xs \<and> cmds_ok h cs (cmd_list c xs)"

text \<open>The command on the heap, for any implementation of the three operations.\<close>

fun run_cmd ::
  "(addr \<Rightarrow> addr \<Rightarrow> 'h \<Rightarrow> 'h) \<Rightarrow> (addr \<Rightarrow> addr \<Rightarrow> 'h \<Rightarrow> 'h) \<Rightarrow> (addr \<Rightarrow> 'h \<Rightarrow> 'h) \<Rightarrow>
   addr \<Rightarrow> list_cmd \<Rightarrow> 'h \<Rightarrow> 'h" where
  "run_cmd add_head add_tail del h (Head n) s = add_head h n s"
| "run_cmd add_head add_tail del h (Tail n) s = add_tail h n s"
| "run_cmd add_head add_tail del h (Drop n) s = del n s"

locale node_list =
  fixes mk :: "addr \<Rightarrow> 'h \<Rightarrow> 'h"
    and add_head :: "addr \<Rightarrow> addr \<Rightarrow> 'h \<Rightarrow> 'h"
    and add_tail :: "addr \<Rightarrow> addr \<Rightarrow> 'h \<Rightarrow> 'h"
    and del :: "addr \<Rightarrow> 'h \<Rightarrow> 'h"
    and visit :: "addr \<Rightarrow> 'h \<Rightarrow> addr list option"
    and repr :: "'h \<Rightarrow> addr \<Rightarrow> addr list \<Rightarrow> bool"
  assumes repr_mk: "repr (mk h s) h []"
    and repr_add_head: "repr s h xs \<Longrightarrow> n \<notin> set (h # xs) \<Longrightarrow> repr (add_head h n s) h (n # xs)"
    and repr_add_tail: "repr s h xs \<Longrightarrow> n \<notin> set (h # xs) \<Longrightarrow> repr (add_tail h n s) h (xs @ [n])"
    and repr_del: "repr s h xs \<Longrightarrow> n \<in> set xs \<Longrightarrow> repr (del n s) h (remove1 n xs)"
    and repr_visit: "repr s h xs \<Longrightarrow> visit h s = Some xs"
begin

abbreviation run :: "addr \<Rightarrow> list_cmd \<Rightarrow> 'h \<Rightarrow> 'h" where
  "run \<equiv> run_cmd add_head add_tail del"

lemma repr_run: "repr s h xs \<Longrightarrow> cmd_ok h c xs \<Longrightarrow> repr (run h c s) h (cmd_list c xs)"
  by (cases c) (simp_all add: repr_add_head repr_add_tail repr_del)

lemma repr_runs:
  "repr s h xs \<Longrightarrow> cmds_ok h cs xs \<Longrightarrow> repr (fold (run h) cs s) h (fold cmd_list cs xs)"
  by (induction cs arbitrary: s xs) (auto intro: repr_run)

lemma visit_runs:
  "repr s h xs \<Longrightarrow> cmds_ok h cs xs \<Longrightarrow> visit h (fold (run h) cs s) = Some (fold cmd_list cs xs)"
  by (rule repr_visit, rule repr_runs)

lemma repr_tails:
  "repr s h xs \<Longrightarrow> distinct (h # xs @ ns) \<Longrightarrow> repr (fold (add_tail h) ns s) h (xs @ ns)"
proof (induction ns arbitrary: s xs)
  case (Cons n ns)
  have "n \<noteq> h" using Cons.prems(2) by auto
  with repr_add_tail [of s h xs n] Cons.IH [of "add_tail h n s" "xs @ [n]"] Cons.prems
  show ?case by simp
qed simp

lemma visit_queue:
  "distinct (h # ns) \<Longrightarrow> visit h (fold (add_tail h) ns (mk h s)) = Some ns"
  using repr_visit [OF repr_tails [OF repr_mk]] by simp

end

lemma dlist_remove:
  assumes "dlist s h xs" "n \<in> set xs"
  shows "dlist (list_del n s) h (remove1 n xs)"
proof -
  from assms(2) obtain as bs where xs: "xs = as @ n # bs" by (meson split_list)
  with assms(1) have "n \<notin> set as" by (auto simp: dlist_def)
  with xs show ?thesis using dlist_del [of s h as n bs] assms(1) by (simp add: remove1_append)
qed

interpretation cl: node_list list_head_init list_add list_add_tail list_del list_for_each dlist
  by unfold_locales
    (auto intro: dlist_init dlist_add dlist_add_tail dlist_remove dlist_for_each)

text \<open>Operations on one list leave the others as they are.\<close>

lemma dlist_frame:
  assumes "dlist s h xs" "\<forall>x \<in> set (h # xs). nxt s' x = nxt s x \<and> prv s' x = prv s x"
  shows "dlist s' h xs"
proof -
  have "links s' (h # xs @ [h]) = links s (h # xs @ [h])"
    using assms(2) by (intro links_cong) (auto dest: in_set_butlastD)
  with assms(1) show ?thesis by (simp add: dlist_def)
qed

lemma dlist_add_tail_other:
  assumes "dlist s h xs" "dlist s h' ys" "set (h # xs) \<inter> set (h' # ys) = {}" "n \<notin> set (h' # ys)"
  shows "dlist (list_add_tail h n s) h' ys"
proof (rule dlist_frame [OF assms(2)])
  have "prv s h \<in> set (h # xs)"
    using dlist_head(2) [OF assms(1)] last_in_set [of "h # xs"] by (simp del: last.simps)
  then show "\<forall>x \<in> set (h' # ys). nxt (list_add_tail h n s) x = nxt s x \<and>
      prv (list_add_tail h n s) x = prv s x"
    using assms(3,4) by (auto simp: list_add_tail_def Let_def)
qed

section \<open>A list the check misses\<close>

text \<open>
  One node; every \<open>next\<close> and the node's \<open>prev\<close> are right, the head's \<open>prev\<close> points elsewhere.
\<close>

definition bad_head :: lheap where
  "bad_head = \<lparr>nxt = (\<lambda>p. if p = 1 then 2 else 1), prv = (\<lambda>p. if p = 2 then 1 else 77)\<rparr>"

lemma bad_head_checks: "list_check 1 None bad_head = Some (Check_ok 1)"
proof (rule list_check_closed [of _ _ "[2]"])
  show "chain_closed bad_head 1 [2]" by (simp add: chain_closed_def chain_def bad_head_def)
qed

lemma bad_head_not_dlist: "\<not> dlist bad_head 1 xs"
proof
  assume d: "dlist bad_head 1 xs"
  from dlist_for_each [OF d] have "xs = [2]"
    by (simp add: list_for_each_def bad_head_def for_each_from.simps)
  with dlist_head(2) [OF d] show False by (simp add: bad_head_def)
qed

section \<open>The properties\<close>

text \<open>
  C33. Lists built and changed by any sequence of \<open>list_add\<close>, \<open>list_add_tail\<close> and \<open>list_del\<close> (of
  fresh nodes and of nodes that are in the list) behave as the mathematical lists they
  stand for: \<open>list_for_each\<close> ends, and visits exactly the nodes the commands on lists leave, in
  order; the list is well linked in both directions and passes \<open>list_check\<close>.
\<close>

theorem list_commands_refine:
  assumes "cmds_ok h cs []"
  shows "list_for_each h (fold (run_cmd list_add list_add_tail list_del h) cs (list_head_init h s))
      = Some (fold cmd_list cs []) \<and>
    list_check h abortstr (fold (run_cmd list_add list_add_tail list_del h) cs (list_head_init h s))
      = Some (Check_ok h)"
  using cl.visit_runs [OF cl.repr_mk assms] cl.repr_runs [OF cl.repr_mk assms]
  by (auto intro: list_check_dlist)

theorem list_commands_refine_witness:
  "list_for_each 1 (fold (run_cmd list_add list_add_tail list_del 1)
     [Tail 2, Tail 3, Head 4, Drop 3, Tail 5] (list_head_init 1 bad_head)) = Some [4, 2, 5]"
  using list_commands_refine [of 1 "[Tail 2, Tail 3, Head 4, Drop 3, Tail 5]" bad_head] by simp

text \<open>
  C34. The loop of \<open>list_for_each_safe\<close> that deletes every node ends, visits each node once and
  in order, and leaves the empty list.
\<close>

theorem delete_all:
  assumes "dlist s h xs"
  shows "\<exists>s'. list_del_each h s = Some (s', xs) \<and> dlist s' h [] \<and> list_empty h s'"
  using dlist_del_each [OF assms] dlist_empty_iff by blast

theorem delete_all_witness:
  "\<exists>s'. list_del_each 1 (list_add_tail 1 3 (list_add_tail 1 2 (list_head_init 1 bad_head)))
     = Some (s', [2, 3])"
proof -
  have "dlist (list_add_tail 1 3 (list_add_tail 1 2 (list_head_init 1 bad_head))) 1 [2, 3]"
    using cl.repr_tails [OF cl.repr_mk, of 1 "[2, 3]" bad_head] by simp
  from delete_all [OF this] show ?thesis by auto
qed



text \<open>
  A list whose head has a wrong \<open>prev\<close> passes the check when it is not empty, although adding
  a node at its tail would then write to a foreign address.
\<close>

theorem list_check_misses_head:
  "list_check 1 None bad_head = Some (Check_ok 1) \<and> \<not> dlist bad_head 1 xs \<and>
   nxt (list_add_tail 1 3 bad_head) 77 = 3"
  using bad_head_checks bad_head_not_dlist by (simp add: list_add_tail_def bad_head_def)

end
