(* ===== verification/PciSysfs.thy ===== *)
theory PciSysfs
  imports Util CList
begin

text \<open>
  The tree of root bridges, buses and slots the tool builds from sysfs, src/pci_sysfs.h and
  src/pci_sysfs.c.

  The three static lists only ever grow at their ends (\<open>list_add_tail\<close>), so a node is named by its
  position: a bus points to its root bridge, a slot to its bus, and a bridge lists its slots, by
  positions in the lists. That a list traversal visits the nodes in the order of their insertion
  is shown for the list operations themselves in \<open>CList\<close>. Fixed-size name fields are buffers:
  \<open>strncpy\<close> leaves a long name without a terminator.
\<close>

section \<open>The tree\<close>

definition ROOT_BRIDGE_NAME_LEN :: nat where "ROOT_BRIDGE_NAME_LEN = 8"
definition BUS_NAME_LEN :: nat where "BUS_NAME_LEN = 8"
definition SLOT_NAME_LEN :: nat where "SLOT_NAME_LEN = 20"
definition SLOT_ADDRESS_LEN :: nat where "SLOT_ADDRESS_LEN = 11"
definition SYSFS_SLOTS_DIR :: string where "SYSFS_SLOTS_DIR = ''/sys/bus/pci/slots''"
definition SYSFS_DEV_DIR :: string where "SYSFS_DEV_DIR = ''/sys/devices''"
definition SYSFS_BUS_DIR :: string where "SYSFS_BUS_DIR = ''/sys/class/pci_bus''"

record sysfs_root_bridge =
  rb_name :: string
  rb_slots :: "nat list"

record sysfs_bus =
  bus_name :: "char list"
  bus_bridge :: "nat option"

record sysfs_slot =
  slot_name :: "char list"
  slot_bus :: nat

record pci_tree =
  root_bridges :: "sysfs_root_bridge list"
  buses :: "sysfs_bus list"
  slots :: "sysfs_slot list"

definition empty_tree :: pci_tree where
  "empty_tree = \<lparr>root_bridges = [], buses = [], slots = []\<rparr>"

definition root_bridge_size :: nat where "root_bridge_size = 40"
definition bus_size :: nat where "bus_size = 32"
definition slot_size :: nat where "slot_size = 80"

definition zeroed :: "nat \<Rightarrow> char list" where "zeroed n = replicate n NUL"

text \<open>\<open>snprintf\<close> into a buffer of \<open>PATH_MAX\<close> bytes.\<close>

definition path_buf :: "string \<Rightarrow> string" where "path_buf s = take (PATH_MAX - 1) s"

definition skip_entry :: "string \<Rightarrow> bool" where
  "skip_entry d_name \<longleftrightarrow> length d_name = 0 \<or> streq d_name ''.'' \<or> streq d_name ''..''"

section \<open>Root bridges\<close>

definition scan_bridge :: "string \<Rightarrow> u32 list" where
  "scan_bridge d_name =
     scan_items [SLit (CHR ''p''), SLit (CHR ''c''), SLit (CHR ''i''), SHex 4, SLit (CHR '':''), SHex 2] d_name"

definition bridge_name :: "u32 \<Rightarrow> u32 \<Rightarrow> string" where
  "bridge_name domain bus_id =
     take (ROOT_BRIDGE_NAME_LEN - 1) (show_hex0 4 (unat domain) @ '':'' @ show_hex0 2 (unat bus_id))"

fun root_bridge_loop ::
  "'s os \<Rightarrow> string list \<Rightarrow> pci_tree \<Rightarrow> ('s, 'z) proc_scheme \<Rightarrow> int \<times> pci_tree \<times> ('s, 'z) proc_scheme" where
  "root_bridge_loop os [] t p = (0, t, p)"
| "root_bridge_loop os (d_name # ds) t p =
     (if skip_entry d_name then root_bridge_loop os ds t p
      else (case scan_bridge d_name of
              [domain, bus_id] \<Rightarrow>
                (let (ok, s) = os_malloc os root_bridge_size (os_st p); p1 = p\<lparr>os_st := s\<rparr>
                 in if \<not> ok then (1, t, p1)
                    else root_bridge_loop os ds
                      (t\<lparr>root_bridges := root_bridges t @
                           [\<lparr>rb_name = bridge_name domain bus_id, rb_slots = []\<rparr>]\<rparr>) p1)
            | _ \<Rightarrow> root_bridge_loop os ds t p))"

definition create_root_bridge_list ::
  "'s os \<Rightarrow> pci_tree \<Rightarrow> ('s, 'z) proc_scheme \<Rightarrow> int \<times> pci_tree \<times> ('s, 'z) proc_scheme" where
  "create_root_bridge_list os t p =
     (case os_dir os SYSFS_DEV_DIR (os_st p) of
        None \<Rightarrow> (1, t, p)
      | Some ds \<Rightarrow> root_bridge_loop os ds t p)"

section \<open>Buses\<close>

text \<open>
  The format \<open>../../../devices/pci%7s\<close>: the literal text, then at least one and at most seven
  characters up to a space. \<open>None\<close> when nothing is converted.
\<close>

fun scan_lits :: "string \<Rightarrow> string \<Rightarrow> string option" where
  "scan_lits [] s = Some s"
| "scan_lits (c # cs) s = (case scan_lit c s of None \<Rightarrow> None | Some r \<Rightarrow> scan_lits cs r)"

definition scan_word :: "nat \<Rightarrow> string \<Rightarrow> string option" where
  "scan_word w s =
     (let r = take w (takeWhile (\<lambda>c. \<not> is_space c) (skip_space s)) in if r = [] then None else Some r)"

definition scan_link :: "string \<Rightarrow> string option" where
  "scan_link link =
     (case scan_lits ''../../../devices/pci'' link of None \<Rightarrow> None | Some r \<Rightarrow> scan_word 7 r)"

definition device_path :: "'s os \<Rightarrow> string \<Rightarrow> 's \<Rightarrow> string" where
  "device_path os d_name s =
     (let p = path_buf (SYSFS_BUS_DIR @ ''/'' @ d_name @ ''/'' @ ''device'')
      in if os_stat os p s then p
         else path_buf (SYSFS_BUS_DIR @ ''/'' @ d_name @ ''/'' @ ''bridge''))"

text \<open>The position of the first bridge with a name that agrees in the first \<open>n\<close> characters.\<close>

fun find_bridge :: "string \<Rightarrow> nat \<Rightarrow> sysfs_root_bridge list \<Rightarrow> nat \<Rightarrow> nat option" where
  "find_bridge name n [] i = None"
| "find_bridge name n (b # bs) i =
     (if strneq name (rb_name b) n then Some i else find_bridge name n bs (Suc i))"

fun bus_loop ::
  "'s os \<Rightarrow> string list \<Rightarrow> pci_tree \<Rightarrow> ('s, 'z) proc_scheme \<Rightarrow> int \<times> pci_tree \<times> ('s, 'z) proc_scheme" where
  "bus_loop os [] t p = (0, t, p)"
| "bus_loop os (d_name # ds) t p =
     (if skip_entry d_name then bus_loop os ds t p
      else (case os_readlink os (device_path os d_name (os_st p)) (os_st p) of
              None \<Rightarrow> bus_loop os ds t p
            | Some link \<Rightarrow>
                (case scan_link (take (PATH_MAX - 1) link) of
                   None \<Rightarrow> bus_loop os ds t p
                 | Some root_bridge_name \<Rightarrow>
                     (let (ok, s) = os_malloc os bus_size (os_st p); p1 = p\<lparr>os_st := s\<rparr>
                      in if \<not> ok then (1, t, p1)
                         else bus_loop os ds
                           (t\<lparr>buses := buses t @
                                [\<lparr>bus_name = strncpy (zeroed BUS_NAME_LEN) d_name BUS_NAME_LEN,
                                  bus_bridge = find_bridge root_bridge_name ROOT_BRIDGE_NAME_LEN
                                                 (root_bridges t) 0\<rparr>]\<rparr>) p1))))"

definition create_pci_bus_list ::
  "'s os \<Rightarrow> pci_tree \<Rightarrow> ('s, 'z) proc_scheme \<Rightarrow> int \<times> pci_tree \<times> ('s, 'z) proc_scheme" where
  "create_pci_bus_list os t p =
     (case os_dir os SYSFS_BUS_DIR (os_st p) of
        None \<Rightarrow> (1, t, p)
      | Some ds \<Rightarrow> bus_loop os ds t p)"

section \<open>Slots\<close>

text \<open>
  The buffer \<open>address\<close> is not initialised and keeps its contents when an attribute cannot be
  read, so it is a parameter of the loop. Adding a slot to the list of a null bridge is an
  invalid access (\<open>None\<close>).
\<close>

fun find_bus :: "char list \<Rightarrow> sysfs_bus list \<Rightarrow> nat \<Rightarrow> nat option" where
  "find_bus address [] i = None"
| "find_bus address (b # bs) i =
     (if strneq (buf_str address) (buf_str (bus_name b)) (BUS_NAME_LEN - 1) then Some i
      else find_bus address bs (Suc i))"

definition add_slot :: "string \<Rightarrow> nat \<Rightarrow> nat \<Rightarrow> pci_tree \<Rightarrow> pci_tree" where
  "add_slot d_name bus bridge t =
     (let i = length (slots t); rb = root_bridges t ! bridge
      in t\<lparr>slots := slots t @
             [\<lparr>slot_name = strncpy (zeroed SLOT_NAME_LEN) d_name SLOT_NAME_LEN, slot_bus = bus\<rparr>],
           root_bridges := (root_bridges t)[bridge := rb\<lparr>rb_slots := rb_slots rb @ [i]\<rparr>]\<rparr>)"

fun slot_loop ::
  "'s os \<Rightarrow> string list \<Rightarrow> char list \<Rightarrow> pci_tree \<Rightarrow> ('s, 'z) proc_scheme \<Rightarrow>
   (int \<times> pci_tree \<times> ('s, 'z) proc_scheme) option" where
  "slot_loop os [] address t p = Some (0, t, p)"
| "slot_loop os (d_name # ds) address t p =
     (if skip_entry d_name then slot_loop os ds address t p
      else (case read_attribute os (path_buf (SYSFS_SLOTS_DIR @ ''/'' @ d_name @ ''/address''))
                   address SLOT_ADDRESS_LEN p of
              None \<Rightarrow> None
            | Some (_, address1, p1) \<Rightarrow>
                (let (ok, s) = os_malloc os slot_size (os_st p1); p2 = p1\<lparr>os_st := s\<rparr>
                 in if \<not> ok then Some (1, t, p2)
                    else (case find_bus address1 (buses t) 0 of
                            None \<Rightarrow> Some (1, t, p2)
                          | Some bus \<Rightarrow>
                              (case bus_bridge (buses t ! bus) of
                                 None \<Rightarrow> None
                               | Some bridge \<Rightarrow>
                                   slot_loop os ds address1 (add_slot d_name bus bridge t) p2)))))"

definition create_sysfs_slot_list ::
  "'s os \<Rightarrow> char list \<Rightarrow> pci_tree \<Rightarrow> ('s, 'z) proc_scheme \<Rightarrow>
   (int \<times> pci_tree \<times> ('s, 'z) proc_scheme) option" where
  "create_sysfs_slot_list os address t p =
     (case os_dir os SYSFS_SLOTS_DIR (os_st p) of
        None \<Rightarrow> Some (1, t, p)
      | Some ds \<Rightarrow> slot_loop os ds address t p)"

section \<open>The whole tree\<close>

definition create_sysfs_pci_tree ::
  "'s os \<Rightarrow> char list \<Rightarrow> pci_tree \<Rightarrow> ('s, 'z) proc_scheme \<Rightarrow>
   (int \<times> pci_tree \<times> ('s, 'z) proc_scheme) option" where
  "create_sysfs_pci_tree os address t p =
     (let (_, t1, p1) = create_root_bridge_list os t p;
          (_, t2, p2) = create_pci_bus_list os t1 p1
      in case create_sysfs_slot_list os address t2 p2 of
           None \<Rightarrow> None
         | Some (_, t3, p3) \<Rightarrow> Some (0, t3, p3))"

definition get_sysfs_root_bridge :: "string \<Rightarrow> pci_tree \<Rightarrow> nat option" where
  "get_sysfs_root_bridge name t = find_bridge name (ROOT_BRIDGE_NAME_LEN - 1) (root_bridges t) 0"

text \<open>
  The debugging dump. A \<open>%s\<close> on a name without terminator, or through a null bridge, is an
  invalid access.
\<close>

fun concat_opt :: "('a \<Rightarrow> string option) \<Rightarrow> 'a list \<Rightarrow> string option" where
  "concat_opt f [] = Some []"
| "concat_opt f (x # xs) =
     Option.bind (f x) (\<lambda>a. Option.bind (concat_opt f xs) (\<lambda>b. Some (a @ b)))"

definition dump_sysfs_pci_tree :: "pci_tree \<Rightarrow> string option" where
  "dump_sysfs_pci_tree t =
     (let bridge_text = (\<lambda>rb. Option.bind
            (concat_opt (\<lambda>i. Option.bind (c_string (slot_name (slots t ! i)))
                (\<lambda>n. Some (CHR 0x09 # ''slot '' @ n @ [newline]))) (rb_slots rb))
            (\<lambda>x. Some (''bridge = '' @ rb_name rb @ [newline] @ x)));
          bus_text = (\<lambda>b. Option.bind (c_string (bus_name b)) (\<lambda>n.
            case bus_bridge b of
              None \<Rightarrow> None
            | Some r \<Rightarrow> Some (''bus = '' @ n @ '', root = '' @ rb_name (root_bridges t ! r) @ [newline])));
          slot_text = (\<lambda>s. Option.bind (c_string (slot_name s)) (\<lambda>n.
            let b = buses t ! slot_bus s
            in Option.bind (c_string (bus_name b)) (\<lambda>bn.
                 case bus_bridge b of
                   None \<Rightarrow> None
                 | Some r \<Rightarrow> Some (''slot = '' @ n @ '', bus = '' @ bn @ '', root = '' @
                                    rb_name (root_bridges t ! r) @ [newline]))))
      in Option.bind (concat_opt bridge_text (root_bridges t)) (\<lambda>a.
         Option.bind (concat_opt bus_text (buses t)) (\<lambda>b.
         Option.bind (concat_opt slot_text (slots t)) (\<lambda>c. Some (a @ b @ c)))))"

section \<open>The tree is consistent\<close>

text \<open>
  Every pointer points into its list, and the slots of a bridge are those on its buses, in the
  order of their discovery.
\<close>

definition slots_of :: "pci_tree \<Rightarrow> nat \<Rightarrow> nat list" where
  "slots_of t j =
     filter (\<lambda>i. bus_bridge (buses t ! slot_bus (slots t ! i)) = Some j) [0..<length (slots t)]"

definition tree_ok :: "pci_tree \<Rightarrow> bool" where
  "tree_ok t \<longleftrightarrow>
     (\<forall>b \<in> set (buses t). \<forall>j. bus_bridge b = Some j \<longrightarrow> j < length (root_bridges t)) \<and>
     (\<forall>s \<in> set (slots t). slot_bus s < length (buses t)) \<and>
     (\<forall>j < length (root_bridges t). rb_slots (root_bridges t ! j) = slots_of t j)"

lemma empty_tree_ok: "tree_ok empty_tree"
  by (simp add: tree_ok_def empty_tree_def)

lemma find_bridge_less:
  "find_bridge name n bs i = Some j \<Longrightarrow> i \<le> j \<and> j < i + length bs \<and> strneq name (rb_name (bs ! (j - i))) n"
proof (induction bs arbitrary: i)
  case (Cons b bs)
  show ?case
  proof (cases "strneq name (rb_name b) n")
    case True
    with Cons.prems show ?thesis by simp
  next
    case False
    with Cons.prems Cons.IH [of "Suc i"] have "Suc i \<le> j" "j < Suc i + length bs"
      "strneq name (rb_name (bs ! (j - Suc i))) n" by auto
    moreover from this have "(b # bs) ! (j - i) = bs ! (j - Suc i)"
      by (metis Suc_diff_le diff_Suc_Suc nth_Cons_Suc)
    ultimately show ?thesis by simp
  qed
qed simp

lemma find_bridge_None: "find_bridge name n bs i = None \<longleftrightarrow> (\<forall>b \<in> set bs. \<not> strneq name (rb_name b) n)"
  by (induction bs arbitrary: i) auto

lemma find_bus_less:
  "find_bus address bs i = Some j \<Longrightarrow> i \<le> j \<and> j < i + length bs"
proof (induction bs arbitrary: i)
  case (Cons b bs)
  show ?case
  proof (cases "find_bus address bs (Suc i) = Some j")
    case True
    with Cons.IH [of "Suc i"] show ?thesis by simp
  next
    case False
    with Cons.prems show ?thesis by (auto split: if_splits)
  qed
qed simp

lemma slots_of_less: "i \<in> set (slots_of t j) \<Longrightarrow> i < length (slots t)"
  by (auto simp: slots_of_def)

lemma slots_of_bus_append:
  assumes "tree_ok t"
  shows "slots_of (t\<lparr>buses := buses t @ bs\<rparr>) j = slots_of t j"
  using assms by (auto simp: slots_of_def tree_ok_def nth_append intro!: filter_cong)

lemma tree_ok_bridge:
  assumes "tree_ok t"
  shows "tree_ok (t\<lparr>root_bridges := root_bridges t @ [\<lparr>rb_name = n, rb_slots = []\<rparr>]\<rparr>)"
proof -
  have s: "slots_of (t\<lparr>root_bridges := rs\<rparr>) j = slots_of t j" for rs j
    by (simp add: slots_of_def)
  have "slots_of t (length (root_bridges t)) = []"
    using assms by (fastforce simp: slots_of_def tree_ok_def filter_empty_conv in_set_conv_nth)
  with assms show ?thesis
    by (auto simp: tree_ok_def s nth_append less_Suc_eq)
qed

lemma tree_ok_bus:
  assumes "tree_ok t" "\<forall>j. bus_bridge b = Some j \<longrightarrow> j < length (root_bridges t)"
  shows "tree_ok (t\<lparr>buses := buses t @ [b]\<rparr>)"
  using assms slots_of_bus_append [OF assms(1)] by (auto simp: tree_ok_def)

lemma tree_ok_slot:
  assumes "tree_ok t" "bus < length (buses t)" "bus_bridge (buses t ! bus) = Some bridge"
  shows "tree_ok (add_slot d_name bus bridge t)"
proof -
  define t' where "t' = add_slot d_name bus bridge t"
  have "bridge < length (root_bridges t)"
    using assms by (auto simp: tree_ok_def)
  have t': "buses t' = buses t" "length (root_bridges t') = length (root_bridges t)"
    "map slot_bus (slots t') = map slot_bus (slots t) @ [bus]"
    by (simp_all add: t'_def add_slot_def Let_def)
  have old: "slot_bus (slots t' ! i) = slot_bus (slots t ! i)" if "i < length (slots t)" for i
    using that by (simp add: t'_def add_slot_def Let_def nth_append)
  have new: "slot_bus (slots t' ! length (slots t)) = bus" "length (slots t') = Suc (length (slots t))"
    by (simp_all add: t'_def add_slot_def Let_def)
  have sl: "slots_of t' j = slots_of t j @ (if j = bridge then [length (slots t)] else [])" for j
    using assms(3) new by (auto simp: slots_of_def t' old intro: filter_cong)
  have "rb_slots (root_bridges t' ! j) = rb_slots (root_bridges t ! j) @
      (if j = bridge then [length (slots t)] else [])" if "j < length (root_bridges t)" for j
    using that by (simp add: t'_def add_slot_def Let_def nth_list_update)
  with sl have "\<forall>j < length (root_bridges t'). rb_slots (root_bridges t' ! j) = slots_of t' j"
    using assms(1) by (simp add: tree_ok_def t')
  moreover have "\<forall>s \<in> set (slots t'). slot_bus s < length (buses t')"
    using assms(1,2) by (auto simp: tree_ok_def t'_def add_slot_def Let_def)
  ultimately show ?thesis
    using assms(1) by (simp add: tree_ok_def t'_def [symmetric] t')
qed

lemma root_bridge_loop_ok:
  "root_bridge_loop os ds t p = (r, t', p') \<Longrightarrow> tree_ok t \<Longrightarrow> tree_ok t'"
proof (induction ds arbitrary: t p)
  case (Cons d_name ds)
  from Cons.prems show ?case
    by (auto simp: Let_def intro: tree_ok_bridge elim!: Cons.IH
        split: if_splits prod.splits list.splits)
qed auto

lemma bus_loop_ok:
  "bus_loop os ds t p = (r, t', p') \<Longrightarrow> tree_ok t \<Longrightarrow> tree_ok t'"
proof (induction ds arbitrary: t p)
  case (Cons d_name ds)
  have "\<forall>j. find_bridge n k (root_bridges t) 0 = Some j \<longrightarrow> j < length (root_bridges t)" for n k
    using find_bridge_less by fastforce
  with Cons.prems show ?case
    by (auto simp: Let_def intro!: tree_ok_bus elim!: Cons.IH
        split: if_splits prod.splits option.splits)
qed auto

lemma slot_loop_ok:
  "slot_loop os ds address t p = Some (r, t', p') \<Longrightarrow> tree_ok t \<Longrightarrow> tree_ok t'"
proof (induction ds arbitrary: address t p)
  case (Cons d_name ds)
  have "find_bus a (buses t) 0 = Some j \<Longrightarrow> j < length (buses t)" for a j
    using find_bus_less [of a "buses t" 0 j] by simp
  with Cons.prems show ?case
    by (auto simp: Let_def intro: tree_ok_slot elim!: Cons.IH
        split: if_splits prod.splits option.splits)
qed auto

lemma create_tree_ok:
  assumes "create_sysfs_pci_tree os address t p = Some (r, t', p')" "tree_ok t"
  shows "r = 0 \<and> tree_ok t'"
proof -
  obtain r1 t1 p1 where 1: "create_root_bridge_list os t p = (r1, t1, p1)" by (cases "create_root_bridge_list os t p")
  obtain r2 t2 p2 where 2: "create_pci_bus_list os t1 p1 = (r2, t2, p2)" by (cases "create_pci_bus_list os t1 p1")
  have "tree_ok t1"
    using 1 assms(2) by (auto simp: create_root_bridge_list_def split: option.splits dest: root_bridge_loop_ok)
  then have "tree_ok t2"
    using 2 by (auto simp: create_pci_bus_list_def split: option.splits dest: bus_loop_ok)
  with assms(1) 1 2 show ?thesis
    by (auto simp: create_sysfs_pci_tree_def create_sysfs_slot_list_def split: option.splits dest: slot_loop_ok)
qed

text \<open>
  The kernel names the directory of a root bridge \<open>pciDDDD:BB\<close>; the bridge gets the name \<open>DDDD:BB\<close>,
  which is the first seven characters of the names of the devices on its bus.
\<close>

lemma scan_bridge_kernel_name:
  assumes "d < 2 ^ 16" "b < 2 ^ 8"
  shows "scan_bridge (''pci'' @ show_hex0 4 d @ '':'' @ show_hex0 2 b) = [word_of_nat d, word_of_nat b]"
  using scan_xw_show_hex0 [of d 4 "'':'' @ show_hex0 2 b"] scan_xw_show_hex0 [of b 2 "[]"] assms
  by (simp add: scan_bridge_def scan_lit_def)

lemma bridge_name_kernel:
  assumes "d < 2 ^ 16" "b < 2 ^ 8"
  shows "bridge_name (word_of_nat d) (word_of_nat b) = show_hex0 4 d @ '':'' @ show_hex0 2 b"
  using assms length_show_hex0 [of d 4] length_show_hex0 [of b 2]
  by (simp add: bridge_name_def ROOT_BRIDGE_NAME_LEN_def unat_word_ariths take_bit_nat_def unsigned_of_nat)

text \<open>The bridge of an adapter is the first one whose name starts the adapter's name.\<close>

lemma get_sysfs_root_bridge_Some:
  assumes "get_sysfs_root_bridge name t = Some j"
  shows "j < length (root_bridges t)" "take 7 name = take 7 (rb_name (root_bridges t ! j))"
  using find_bridge_less [OF assms [unfolded get_sysfs_root_bridge_def]]
  by (simp_all add: strneq_iff ROOT_BRIDGE_NAME_LEN_def)

lemma get_sysfs_root_bridge_None:
  "get_sysfs_root_bridge name t = None \<longleftrightarrow>
   (\<forall>b \<in> set (root_bridges t). take 7 name \<noteq> take 7 (rb_name b))"
  by (simp add: get_sysfs_root_bridge_def find_bridge_None strneq_iff ROOT_BRIDGE_NAME_LEN_def)

section \<open>The properties\<close>


lemma bridge_lookup:
  assumes "d < 2 ^ 16" "b < 2 ^ 8"
    and "\<forall>rb \<in> set (root_bridges t). \<exists>d' b'. d' < 2 ^ 16 \<and> b' < 2 ^ 8 \<and>
           rb_name rb = show_hex0 4 d' @ '':'' @ show_hex0 2 b'"
  shows "case get_sysfs_root_bridge (show_hex0 4 d @ '':'' @ show_hex0 2 b @ r) t of
      Some j \<Rightarrow> j < length (root_bridges t) \<and>
        rb_name (root_bridges t ! j) = show_hex0 4 d @ '':'' @ show_hex0 2 b
    | None \<Rightarrow> \<forall>rb \<in> set (root_bridges t). rb_name rb \<noteq> show_hex0 4 d @ '':'' @ show_hex0 2 b"
proof -
  let ?n = "show_hex0 4 d @ '':'' @ show_hex0 2 b"
  have l: "length (show_hex0 4 k @ '':'' @ show_hex0 2 k') = 7" if "k < 2 ^ 16" "k' < 2 ^ 8" for k k'
    using that length_show_hex0 [of k 4] length_show_hex0 [of k' 2] by simp
  have t7: "take 7 (?n @ r) = ?n"
    using l [OF assms(1,2)] by (simp add: take_Cons')
  have rb: "take 7 (rb_name rb) = rb_name rb" if "rb \<in> set (root_bridges t)" for rb
    using assms(3) that l by fastforce
  show ?thesis
  proof (cases "get_sysfs_root_bridge (?n @ r) t")
    case None
    then show ?thesis
      using get_sysfs_root_bridge_None [of "?n @ r" t] rb t7 by auto
  next
    case (Some j)
    then show ?thesis
      using get_sysfs_root_bridge_Some [OF Some] rb [of "root_bridges t ! j"] t7 by auto
  qed
qed

text \<open>
  The kernel's directory of a root bridge, \<open>pciDDDD:BB\<close>, gives a root bridge named \<open>DDDD:BB\<close>;
  an adapter with the address \<open>DDDD:BB:dd.f\<close> finds the first bridge with the same domain and bus,
  and finds none only if there is none.
\<close>

lemma adapter_finds_its_bridge:
  assumes "d < 2 ^ 16" "b < 2 ^ 8"
    and "\<forall>rb \<in> set (root_bridges t). \<exists>d' b'. d' < 2 ^ 16 \<and> b' < 2 ^ 8 \<and>
           rb_name rb = show_hex0 4 d' @ '':'' @ show_hex0 2 b'"
  shows "scan_bridge (''pci'' @ show_hex0 4 d @ '':'' @ show_hex0 2 b) = [word_of_nat d, word_of_nat b] \<and>
    bridge_name (word_of_nat d) (word_of_nat b) = show_hex0 4 d @ '':'' @ show_hex0 2 b \<and>
    (case get_sysfs_root_bridge (show_hex0 4 d @ '':'' @ show_hex0 2 b @ r) t of
       Some j \<Rightarrow> j < length (root_bridges t) \<and>
         rb_name (root_bridges t ! j) = show_hex0 4 d @ '':'' @ show_hex0 2 b
     | None \<Rightarrow> \<forall>rb \<in> set (root_bridges t). rb_name rb \<noteq> show_hex0 4 d @ '':'' @ show_hex0 2 b)"
  using scan_bridge_kernel_name [OF assms(1,2)] bridge_name_kernel [OF assms(1,2)]
    bridge_lookup [OF assms] by blast

definition demo_tree :: pci_tree where
  "demo_tree =
     \<lparr>root_bridges = [\<lparr>rb_name = ''0000:10'', rb_slots = [0, 1]\<rparr>, \<lparr>rb_name = ''0000:4a'', rb_slots = []\<rparr>],
      buses = [\<lparr>bus_name = ''0000:10'' @ [NUL], bus_bridge = Some 0\<rparr>],
      slots = [\<lparr>slot_name = strncpy (zeroed SLOT_NAME_LEN) ''7'' SLOT_NAME_LEN, slot_bus = 0\<rparr>,
               \<lparr>slot_name = strncpy (zeroed SLOT_NAME_LEN) ''12308'' SLOT_NAME_LEN, slot_bus = 0\<rparr>]\<rparr>"

lemma adapter_finds_its_bridge_demo:
  "get_sysfs_root_bridge ''0000:4a:00.0'' demo_tree = Some 1"
proof -
  have s: "show_hex0 4 0 = ''0000''" "show_hex0 2 0x10 = ''10''" "show_hex0 2 0x4a = ''4a''" by code_simp+
  have "\<exists>d' b'. d' < 2 ^ 16 \<and> b' < 2 ^ 8 \<and> ''0000:10'' = show_hex0 4 d' @ '':'' @ show_hex0 2 b'"
    by (intro exI [of _ 0] exI [of _ "0x10"]) (simp add: s)
  moreover have "\<exists>d' b'. d' < 2 ^ 16 \<and> b' < 2 ^ 8 \<and> ''0000:4a'' = show_hex0 4 d' @ '':'' @ show_hex0 2 b'"
    by (intro exI [of _ 0] exI [of _ "0x4a"]) (simp add: s)
  ultimately have "\<forall>rb \<in> set (root_bridges demo_tree). \<exists>d' b'. d' < 2 ^ 16 \<and> b' < 2 ^ 8 \<and>
      rb_name rb = show_hex0 4 d' @ '':'' @ show_hex0 2 b'"
    by (simp add: demo_tree_def)
  from adapter_finds_its_bridge [OF _ _ this, of 0 "0x4a" "'':00.0''"]
  show ?thesis
    by (auto simp: s demo_tree_def less_Suc_eq nth_Cons split: option.splits nat.splits)
qed


end
