(* ===== verification/Integrity.thy ===== *)
theory Integrity
  imports Util
begin

text \<open>
  The layout of HP Integrity machines, src/integrity.h and src/integrity.c: the cabinets, bays
  and chassis seen so far (three lists in the order of discovery, with counters), the decoding
  of slot names, the texts for the display and the comparisons the filters use.

  The lists hold one number per allocated node; a call allocates through the parameter \<open>os\<close> and
  stops at the first failure, leaving what it has done. The size of a node is the sum of an
  \<open>int\<close> (padded) and two pointers.
\<close>

section \<open>The machine and the adapters\<close>

definition INTEGRITY_NONE :: int where "INTEGRITY_NONE = - 1"

record integrity_sys_info =
  num_cabinets :: int
  cabinet_list :: "int list"
  num_bays :: int
  bay_list :: "int list"
  num_chassis :: int
  chassis_list :: "int list"
  num_slots :: int

record integrity_lba_info =
  cabinet :: int
  bay :: int
  chassis :: int
  lba_num_slots :: int

definition info_node_size :: nat where "info_node_size = 24"

definition integrity_init_sys_info :: "integrity_sys_info \<Rightarrow> int \<times> integrity_sys_info" where
  "integrity_init_sys_info sys_info =
     (0, \<lparr>num_cabinets = 0, cabinet_list = [], num_bays = 0, bay_list = [],
          num_chassis = 0, chassis_list = [], num_slots = 0\<rparr>)"

definition integrity_update_lba_info :: "integrity_lba_info \<Rightarrow> int \<Rightarrow> int \<times> integrity_lba_info" where
  "integrity_update_lba_info info slot_num =
     (0, if slot_num \<noteq> INTEGRITY_NONE then info\<lparr>lba_num_slots := lba_num_slots info + 1\<rparr> else info)"

text \<open>The search loop over a list.\<close>

fun number_found :: "int \<Rightarrow> int list \<Rightarrow> bool" where
  "number_found n [] = False"
| "number_found n (m # ms) = (if n = m then True else number_found n ms)"

definition integrity_update_sys_info ::
  "'s os \<Rightarrow> integrity_lba_info \<Rightarrow> integrity_sys_info \<Rightarrow> 's \<Rightarrow> int \<times> integrity_sys_info \<times> 's" where
  "integrity_update_sys_info os lba_info sys_info s =
     (let (ok, sys1, s1) =
        (if number_found (cabinet lba_info) (cabinet_list sys_info) then (True, sys_info, s)
         else let (ok, s') = os_malloc os info_node_size s
              in if \<not> ok then (False, sys_info, s')
                 else (True, sys_info\<lparr>num_cabinets := num_cabinets sys_info + 1,
                         cabinet_list := cabinet_list sys_info @ [cabinet lba_info]\<rparr>, s'))
      in if \<not> ok then (- ENOMEM, sys1, s1) else
      let (ok, sys2, s2) =
        (if number_found (bay lba_info) (bay_list sys1) then (True, sys1, s1)
         else let (ok, s') = os_malloc os info_node_size s1
              in if \<not> ok then (False, sys1, s')
                 else (True, sys1\<lparr>num_bays := num_bays sys1 + 1,
                         bay_list := bay_list sys1 @ [bay lba_info]\<rparr>, s'))
      in if \<not> ok then (- ENOMEM, sys2, s2) else
      let (ok, sys3, s3) =
        (if number_found (chassis lba_info) (chassis_list sys2) then (True, sys2, s2)
         else let (ok, s') = os_malloc os info_node_size s2
              in if \<not> ok then (False, sys2, s')
                 else (True, sys2\<lparr>num_chassis := num_chassis sys2 + 1,
                         chassis_list := chassis_list sys2 @ [chassis lba_info]\<rparr>, s'))
      in if \<not> ok then (- ENOMEM, sys3, s3) else (0, sys3, s3))"

section \<open>Slot names\<close>

text \<open>A \<open>char\<close> is signed, so \<open>c - '0'\<close> is negative for characters from 128 on.\<close>

definition char_int :: "char \<Rightarrow> int" where
  "char_int c = (let n = (of_char c :: int) in if n < 128 then n else n - 256)"

definition minus_0 :: "char \<Rightarrow> int" where
  "minus_0 c = char_int c - 48"

text \<open>The results in the order of the parameters: cabinet, chassis, bay, slot.\<close>

definition integrity_parse_slot :: "string \<Rightarrow> int \<times> int \<times> int \<times> int" where
  "integrity_parse_slot slot_name =
     (let len = length slot_name;
          (cab, s1) = (if len = 5 then (minus_0 (c_at slot_name 0), drop 1 slot_name) else (0, slot_name));
          (bay, s2) = (if len \<ge> 4 then (minus_0 (c_at s1 0), drop 1 s1) else (0, s1));
          (chas, s3) = (if len \<ge> 3 then (minus_0 (c_at s2 0), drop 1 s2) else (0, s2))
      in if len \<ge> 2 \<and> c_at s3 0 \<noteq> CHR ''0''
         then (cab, chas, bay, case scan_d s3 of Some (n, _) \<Rightarrow> n | None \<Rightarrow> 0)
         else let s4 = (if len \<ge> 2 then drop 1 s3 else s3)
              in (cab, chas, bay, if len \<ge> 1 then minus_0 (c_at s4 0) else 0))"

section \<open>Texts and comparisons\<close>

definition num_or_na :: "int \<Rightarrow> string" where
  "num_or_na n = (if n = INTEGRITY_NONE then ''n/a'' else show_int n)"

definition integrity_cabinet_to_str :: "int \<Rightarrow> string" where
  "integrity_cabinet_to_str cab = num_or_na cab"

definition integrity_bay_to_str :: "int \<Rightarrow> string" where
  "integrity_bay_to_str b = num_or_na b"

definition integrity_chassis_to_str :: "int \<Rightarrow> string" where
  "integrity_chassis_to_str c = num_or_na c"

definition integrity_slot_to_str :: "int \<Rightarrow> string" where
  "integrity_slot_to_str slot = num_or_na slot"

definition integrity_slot_str :: "string \<Rightarrow> string" where
  "integrity_slot_str slot_name =
     (case integrity_parse_slot slot_name of (_, _, _, slot_num) \<Rightarrow> show_int slot_num)"

text \<open>As in C, 0 means that the numbers agree.\<close>

definition integrity_match_cabinet :: "string \<Rightarrow> int \<Rightarrow> int" where
  "integrity_match_cabinet cabinet_name cabinet_num = (if atoi cabinet_name = cabinet_num then 0 else 1)"

definition integrity_match_bay :: "string \<Rightarrow> int \<Rightarrow> int" where
  "integrity_match_bay bay_name bay_num = (if atoi bay_name = bay_num then 0 else 1)"

definition integrity_match_chassis :: "string \<Rightarrow> int \<Rightarrow> int" where
  "integrity_match_chassis chassis_name chassis_num = (if atoi chassis_name = chassis_num then 0 else 1)"

definition integrity_match_slot :: "string \<Rightarrow> int \<Rightarrow> int" where
  "integrity_match_slot slot_name slot_num = (if atoi slot_name = slot_num then 0 else 1)"

section \<open>Facts about slot names\<close>

lemma minus_0_digit [simp]: "d < 10 \<Longrightarrow> minus_0 (digit_char d) = int d"
proof -
  assume "d < 10"
  then have "(of_char (digit_char d) :: nat) = 48 + d"
    by (simp add: digit_char_def)
  then have "(of_char (digit_char d) :: int) = 48 + int d"
    by (metis of_nat_add of_nat_numeral of_nat_of_char)
  with \<open>d < 10\<close> show ?thesis by (simp add: minus_0_def char_int_def)
qed

lemma digit_char_0_iff [simp]: "d < 10 \<Longrightarrow> digit_char d = CHR ''0'' \<longleftrightarrow> d = 0"
  using digit_val_char [of d] by (auto simp: digit_val_def digit_char_0)

lemma show_nat_two: "0 < a \<Longrightarrow> a < 10 \<Longrightarrow> b < 10 \<Longrightarrow> show_nat (10 * a + b) = [digit_char a, digit_char b]"
  by (simp add: show_nat_def show_base.simps)

lemma scan_d_two:
  assumes "0 < a" "a < 10" "b < 10"
  shows "scan_d [digit_char a, digit_char b] = Some (10 * int a + int b, [])"
  using scan_d_show_nat [of "10 * a + b" "[]"] assms
  by (simp add: show_nat_two no_digit_def)

lemma parse_slot_digits:
  assumes "w < 10" "x < 10" "y < 10" "a < 10" "b < 10"
  shows "integrity_parse_slot (map digit_char [w, x, y, a, b]) = (int w, int y, int x, 10 * int a + int b)"
    and "integrity_parse_slot (map digit_char [x, y, a, b]) = (0, int y, int x, 10 * int a + int b)"
    and "integrity_parse_slot (map digit_char [y, a, b]) = (0, int y, 0, 10 * int a + int b)"
    and "integrity_parse_slot (map digit_char [a, b]) = (0, 0, 0, 10 * int a + int b)"
    and "integrity_parse_slot (map digit_char [b]) = (0, 0, 0, int b)"
  using assms by (auto simp: integrity_parse_slot_def c_at_def scan_d_two Let_def)

text \<open>A number printed for the display matches itself when a filter reads it.\<close>

lemma atoi_show_int:
  assumes "0 \<le> n" "n < 2 ^ 31"
  shows "atoi (show_int n) = n"
  using scan_d_show_nat [of "nat n" "[]"] assms by (simp add: atoi_def show_int_def no_digit_def)

section \<open>The machine's invariant\<close>

text \<open>
  Each counter is the length of its list, and each list names a number once.
\<close>

definition sys_ok :: "integrity_sys_info \<Rightarrow> bool" where
  "sys_ok si \<longleftrightarrow>
     num_cabinets si = int (length (cabinet_list si)) \<and> distinct (cabinet_list si) \<and>
     num_bays si = int (length (bay_list si)) \<and> distinct (bay_list si) \<and>
     num_chassis si = int (length (chassis_list si)) \<and> distinct (chassis_list si)"

lemma number_found_iff: "number_found n ms \<longleftrightarrow> n \<in> set ms"
  by (induction ms) auto

lemma init_sys_ok: "sys_ok (snd (integrity_init_sys_info si))"
  by (simp add: integrity_init_sys_info_def sys_ok_def)

lemma update_sys_ok:
  "integrity_update_sys_info os li si s = (r, si', s') \<Longrightarrow> sys_ok si \<Longrightarrow> sys_ok si'"
  by (auto simp: integrity_update_sys_info_def sys_ok_def number_found_iff Let_def
      split: if_splits prod.splits)

text \<open>The lists only grow, at their ends.\<close>

definition extends :: "integrity_sys_info \<Rightarrow> integrity_sys_info \<Rightarrow> bool" where
  "extends si si' \<longleftrightarrow>
     take (length (cabinet_list si)) (cabinet_list si') = cabinet_list si \<and>
     take (length (bay_list si)) (bay_list si') = bay_list si \<and>
     take (length (chassis_list si)) (chassis_list si') = chassis_list si"

lemma update_sys_extends:
  "integrity_update_sys_info os li si s = (r, si', s') \<Longrightarrow> extends si si'"
  by (auto simp: integrity_update_sys_info_def extends_def Let_def split: if_splits prod.splits)

lemma update_sys_sets:
  assumes "integrity_update_sys_info os li si s = (r, si', s')"
  shows "r = 0 \<or> r = - ENOMEM"
    and "set (cabinet_list si') \<subseteq> insert (cabinet li) (set (cabinet_list si))"
    and "set (bay_list si') \<subseteq> insert (bay li) (set (bay_list si))"
    and "set (chassis_list si') \<subseteq> insert (chassis li) (set (chassis_list si))"
    and "r = 0 \<Longrightarrow> cabinet li \<in> set (cabinet_list si')"
    and "r = 0 \<Longrightarrow> bay li \<in> set (bay_list si')"
    and "r = 0 \<Longrightarrow> chassis li \<in> set (chassis_list si')"
  using assms ENOMEM_pos
  by (auto simp: integrity_update_sys_info_def number_found_iff Let_def split: if_splits prod.splits)

section \<open>The properties\<close>

text \<open>
  C27. A slot name has the documented layout \<open>WXYZZ\<close>: cabinet, bay, chassis and two digits of slot
  number, where leading fields may be missing and are then zero. Names of one to five digits
  are decoded accordingly, and the slot number is displayed without its leading zero.
\<close>

theorem parse_slot_layout:
  assumes "w < 10" "x < 10" "y < 10" "a < 10" "b < 10"
  shows "integrity_parse_slot (map digit_char [w, x, y, a, b]) = (int w, int y, int x, 10 * int a + int b) \<and>
    integrity_parse_slot (map digit_char [x, y, a, b]) = (0, int y, int x, 10 * int a + int b) \<and>
    integrity_parse_slot (map digit_char [y, a, b]) = (0, int y, 0, 10 * int a + int b) \<and>
    integrity_parse_slot (map digit_char [a, b]) = (0, 0, 0, 10 * int a + int b) \<and>
    integrity_parse_slot (map digit_char [b]) = (0, 0, 0, int b) \<and>
    integrity_slot_str (map digit_char [a, b]) = show_int (10 * int a + int b)"
  using parse_slot_digits [OF assms] by (simp add: integrity_slot_str_def)

theorem parse_slot_layout_witness:
  "integrity_parse_slot ''12307'' = (1, 3, 2, 7)"
proof -
  have "map digit_char [1, 2, 3, 0, 7] = ''12307''" by code_simp
  with parse_slot_layout [of 1 2 3 0 7] show ?thesis by (simp add: digit_char_0)
qed

text \<open>
  C28. Recording an adapter's location keeps the machine description consistent (each count is the
  length of its list and no number is listed twice), also when memory runs out half way; the
  lists only grow at their ends and only by this adapter's numbers, and a return of 0 means
  that all three of them are listed.
\<close>

theorem update_sys_info_correct:
  assumes "integrity_update_sys_info os li si s = (r, si', s')" "sys_ok si"
  shows "sys_ok si' \<and> extends si si' \<and> (r = 0 \<or> r = - ENOMEM) \<and>
    set (cabinet_list si') \<subseteq> insert (cabinet li) (set (cabinet_list si)) \<and>
    set (bay_list si') \<subseteq> insert (bay li) (set (bay_list si)) \<and>
    set (chassis_list si') \<subseteq> insert (chassis li) (set (chassis_list si)) \<and>
    (r = 0 \<longrightarrow> cabinet li \<in> set (cabinet_list si') \<and> bay li \<in> set (bay_list si') \<and>
       chassis li \<in> set (chassis_list si'))"
  using update_sys_ok [OF assms] update_sys_extends [OF assms(1)] update_sys_sets [OF assms(1)]
  by blast

text \<open>Memory for two of the three nodes.\<close>

theorem update_sys_info_correct_witness:
  "\<exists>si'. integrity_update_sys_info demo_os \<lparr>cabinet = 1, bay = 2, chassis = 3, lba_num_slots = 0\<rparr>
      (snd (integrity_init_sys_info undefined)) 2 = (- ENOMEM, si', 0) \<and> sys_ok si' \<and> num_bays si' = 1"
proof -
  define li where "li = \<lparr>cabinet = 1, bay = 2, chassis = 3, lba_num_slots = 0\<rparr>"
  obtain si' where u: "integrity_update_sys_info demo_os li (snd (integrity_init_sys_info undefined)) 2
      = (- ENOMEM, si', 0)" "num_bays si' = 1"
    by (simp add: integrity_update_sys_info_def integrity_init_sys_info_def demo_os_def li_def)
  from update_sys_info_correct [OF u(1) init_sys_ok] u show ?thesis by (auto simp: li_def)
qed



end
