(* ===== verification/Tables.thy ===== *)
theory Tables
  imports CStr
begin

text \<open>
  The name tables shared by driver and tool (drivers/hplba.h lines 30-154): the enumerations of
  bus modes, bus speeds and utilization states, the two sets of tables (the driver's in
  drivers/hplba_drv.c, the tool's in src/pcitop.c, in a different order), and the six lookup
  functions. The lookups read the table \<open>extern\<close>ally, so they take it as an argument here.
\<close>

section \<open>The enumerations\<close>

datatype bus_op_mode =
  LBA_AGP | LBA_PCI | LBA_PCI_X | LBA_PCI_X_ECC | LBA_PCI_X2_ECC | LBA_PCIE | LBA_UNK_TYPE

datatype bus_speed =
    LBA_66MHZ | LBA_100MHZ | LBA_133MHZ | LBA_266MHZ
  | LBA_X1 | LBA_X2 | LBA_X4 | LBA_X8
  | LBA_AGP_1X | LBA_AGP_2X | LBA_AGP_4X | LBA_UNK_SPEED

datatype util_state =
    LBA_UTILSTATE_INIT | LBA_UTILSTATE_RESET | LBA_UTILSTATE_START | LBA_UTILSTATE_STOP
  | LBA_UTILSTATE_UNK

text \<open>The integer values C gives the enumerators, used to index the tables.\<close>

fun op_mode_index :: "bus_op_mode \<Rightarrow> nat" where
  "op_mode_index LBA_AGP = 0"
| "op_mode_index LBA_PCI = 1"
| "op_mode_index LBA_PCI_X = 2"
| "op_mode_index LBA_PCI_X_ECC = 3"
| "op_mode_index LBA_PCI_X2_ECC = 4"
| "op_mode_index LBA_PCIE = 5"
| "op_mode_index LBA_UNK_TYPE = 6"

fun speed_index :: "bus_speed \<Rightarrow> nat" where
  "speed_index LBA_66MHZ = 0"
| "speed_index LBA_100MHZ = 1"
| "speed_index LBA_133MHZ = 2"
| "speed_index LBA_266MHZ = 3"
| "speed_index LBA_X1 = 4"
| "speed_index LBA_X2 = 5"
| "speed_index LBA_X4 = 6"
| "speed_index LBA_X8 = 7"
| "speed_index LBA_AGP_1X = 8"
| "speed_index LBA_AGP_2X = 9"
| "speed_index LBA_AGP_4X = 10"
| "speed_index LBA_UNK_SPEED = 11"

fun util_state_index :: "util_state \<Rightarrow> nat" where
  "util_state_index LBA_UTILSTATE_INIT = 0"
| "util_state_index LBA_UTILSTATE_RESET = 1"
| "util_state_index LBA_UTILSTATE_START = 2"
| "util_state_index LBA_UTILSTATE_STOP = 3"
| "util_state_index LBA_UTILSTATE_UNK = 4"

section \<open>The tables\<close>

type_synonym 'e name_tab = "('e \<times> string) list"

text \<open>The driver's tables: entry \<open>i\<close> is the entry of enumerator \<open>i\<close>.\<close>

definition drv_bus_op_modes_tab :: "bus_op_mode name_tab" where
  "drv_bus_op_modes_tab =
    [(LBA_AGP, ''AGP''), (LBA_PCI, ''PCI''), (LBA_PCI_X, ''PCI-X mode 1''),
     (LBA_PCI_X_ECC, ''mode 1 ECC''), (LBA_PCI_X2_ECC, ''PCI-X mode 2 ECC''),
     (LBA_PCIE, ''PCIe''), (LBA_UNK_TYPE, ''unknown'')]"

definition drv_bus_speeds_tab :: "bus_speed name_tab" where
  "drv_bus_speeds_tab =
    [(LBA_66MHZ, ''66 MHz''), (LBA_100MHZ, ''100 MHz''), (LBA_133MHZ, ''133 MHz''),
     (LBA_266MHZ, ''266 MHz''), (LBA_X1, ''x1''), (LBA_X2, ''x2''), (LBA_X4, ''x4''),
     (LBA_X8, ''x8''), (LBA_AGP_1X, ''1x''), (LBA_AGP_2X, ''2x''), (LBA_AGP_4X, ''4x''),
     (LBA_UNK_SPEED, ''unknown'')]"

definition drv_util_states_tab :: "util_state name_tab" where
  "drv_util_states_tab =
    [(LBA_UTILSTATE_INIT, ''init''), (LBA_UTILSTATE_RESET, ''reset''),
     (LBA_UTILSTATE_START, ''start''), (LBA_UTILSTATE_STOP, ''stop''),
     (LBA_UTILSTATE_UNK, ''unknown'')]"

text \<open>The tool's tables: the unknown entry comes first.\<close>

definition top_bus_op_modes_tab :: "bus_op_mode name_tab" where
  "top_bus_op_modes_tab =
    [(LBA_UNK_TYPE, ''unknown''), (LBA_AGP, ''AGP''), (LBA_PCI, ''PCI''),
     (LBA_PCI_X, ''PCI-X mode 1''), (LBA_PCI_X_ECC, ''mode 1 ECC''),
     (LBA_PCI_X2_ECC, ''PCI-X mode 2 ECC''), (LBA_PCIE, ''PCIe'')]"

definition top_bus_speeds_tab :: "bus_speed name_tab" where
  "top_bus_speeds_tab =
    [(LBA_UNK_SPEED, ''unknown''), (LBA_66MHZ, ''66 MHz''), (LBA_100MHZ, ''100 MHz''),
     (LBA_133MHZ, ''133 MHz''), (LBA_266MHZ, ''266 MHz''), (LBA_X1, ''x1''), (LBA_X2, ''x2''),
     (LBA_X4, ''x4''), (LBA_X8, ''x8''), (LBA_AGP_1X, ''1x''), (LBA_AGP_2X, ''2x''),
     (LBA_AGP_4X, ''4x'')]"

definition top_util_states_tab :: "util_state name_tab" where
  "top_util_states_tab =
    [(LBA_UTILSTATE_UNK, ''unknown''), (LBA_UTILSTATE_INIT, ''init''),
     (LBA_UTILSTATE_RESET, ''reset''), (LBA_UTILSTATE_START, ''start''),
     (LBA_UTILSTATE_STOP, ''stop'')]"

section \<open>The lookups\<close>

text \<open>
  The three pairs of functions differ in the table and in the enumerator that bounds the loop.
  \<open>tab_to_str\<close> is the loop \<open>for (i = 0; i <= unk; i++)\<close> over the entries, returning the name of
  the first entry with the value and the entry at index \<open>unk\<close> when there is none;
  \<open>tab_to_value\<close> returns the value of the first entry whose name is a prefix of the argument
  that ends there or is followed by a newline.
\<close>

fun tab_to_str :: "'e name_tab \<Rightarrow> string \<Rightarrow> 'e \<Rightarrow> string" where
  "tab_to_str [] dflt v = dflt"
| "tab_to_str ((w, n) # t) dflt v = (if v = w then n else tab_to_str t dflt v)"

definition name_matches :: "string \<Rightarrow> string \<Rightarrow> bool" where
  "name_matches n name \<longleftrightarrow>
     strneq n name (length n) \<and>
     (c_at name (length n) = newline \<or> c_at name (length n) = NUL)"

fun tab_to_value :: "'e name_tab \<Rightarrow> 'e \<Rightarrow> string \<Rightarrow> 'e" where
  "tab_to_value [] unk name = unk"
| "tab_to_value ((w, n) # t) unk name =
     (if name_matches n name then w else tab_to_value t unk name)"

definition hplba_bus_op_mode_to_str :: "bus_op_mode name_tab \<Rightarrow> bus_op_mode \<Rightarrow> string" where
  "hplba_bus_op_mode_to_str tab mode =
     tab_to_str (take (op_mode_index LBA_UNK_TYPE + 1) tab)
       (snd (tab ! op_mode_index LBA_UNK_TYPE)) mode"

definition hplba_bus_op_mode_to_value :: "bus_op_mode name_tab \<Rightarrow> string \<Rightarrow> bus_op_mode" where
  "hplba_bus_op_mode_to_value tab name =
     tab_to_value (take (op_mode_index LBA_UNK_TYPE + 1) tab) LBA_UNK_TYPE name"

definition hplba_bus_speed_to_str :: "bus_speed name_tab \<Rightarrow> bus_speed \<Rightarrow> string" where
  "hplba_bus_speed_to_str tab speed =
     tab_to_str (take (speed_index LBA_UNK_SPEED + 1) tab)
       (snd (tab ! speed_index LBA_UNK_SPEED)) speed"

definition hplba_bus_speed_to_value :: "bus_speed name_tab \<Rightarrow> string \<Rightarrow> bus_speed" where
  "hplba_bus_speed_to_value tab name =
     tab_to_value (take (speed_index LBA_UNK_SPEED + 1) tab) LBA_UNK_SPEED name"

definition hplba_util_state_to_str :: "util_state name_tab \<Rightarrow> util_state \<Rightarrow> string" where
  "hplba_util_state_to_str tab st =
     tab_to_str (take (util_state_index LBA_UTILSTATE_UNK + 1) tab)
       (snd (tab ! util_state_index LBA_UTILSTATE_UNK)) st"

definition hplba_util_state_to_value :: "util_state name_tab \<Rightarrow> string \<Rightarrow> util_state" where
  "hplba_util_state_to_value tab name =
     tab_to_value (take (util_state_index LBA_UTILSTATE_UNK + 1) tab) LBA_UTILSTATE_UNK name"

lemmas drv_tabs = drv_bus_op_modes_tab_def drv_bus_speeds_tab_def drv_util_states_tab_def
lemmas top_tabs = top_bus_op_modes_tab_def top_bus_speeds_tab_def top_util_states_tab_def
lemmas lookup_defs =
  hplba_bus_op_mode_to_str_def hplba_bus_op_mode_to_value_def
  hplba_bus_speed_to_str_def hplba_bus_speed_to_value_def
  hplba_util_state_to_str_def hplba_util_state_to_value_def

section \<open>Facts about the lookups\<close>

text \<open>
  The lookups by name look at the first line of the argument only. On a table whose names hold
  no newline they are \<open>map_of\<close> on the reversed table, and the lookups by value are \<open>map_of\<close>.
\<close>

definition first_line :: "string \<Rightarrow> string" where
  "first_line s = takeWhile (\<lambda>c. c \<noteq> newline) s"

definition one_line_names :: "'e name_tab \<Rightarrow> bool" where
  "one_line_names t \<longleftrightarrow> list_all (\<lambda>e. newline \<notin> set (snd e)) t"

lemma first_line_id [cstr_simps]: "newline \<notin> set s \<Longrightarrow> first_line s = s"
  by (auto simp: first_line_def takeWhile_eq_all_conv)

lemma first_line_append [cstr_simps]: "newline \<notin> set s \<Longrightarrow> first_line (s @ newline # r) = s"
  by (auto simp: first_line_def takeWhile_append)

lemma name_matches_iff [cstr_simps]:
  assumes "cstring name" "newline \<notin> set n"
  shows "name_matches n name \<longleftrightarrow> first_line name = n"
proof
  assume m: "name_matches n name"
  then have t: "take (length n) name = n"
    by (simp add: name_matches_def strneq_iff)
  then have name: "name = n @ drop (length n) name"
    by (metis append_take_drop_id)
  show "first_line name = n"
  proof (cases "drop (length n) name")
    case Nil
    with name assms(2) show ?thesis by (simp add: first_line_id)
  next
    case (Cons c r)
    then have "c_at name (length n) = c"
      by (metis c_at_def drop_eq_Nil2 hd_drop_conv_nth leI list.distinct(1) list.sel(1))
    moreover have "c \<in> set name"
      using Cons by (metis in_set_dropD list.set_intros(1))
    ultimately have "c = newline"
      using m assms(1) by (auto simp: name_matches_def cstring_def)
    with name Cons have "name = n @ newline # r" by simp
    then show ?thesis using first_line_append [OF assms(2)] by blast
  qed
next
  assume f: "first_line name = n"
  show "name_matches n name"
  proof (cases "dropWhile (\<lambda>c. c \<noteq> newline) name")
    case Nil
    with f have "name = n"
      by (metis append_Nil2 first_line_def takeWhile_dropWhile_id)
    then show ?thesis by (simp add: name_matches_def strneq_iff c_at_def)
  next
    case (Cons c r)
    then have "c = newline"
      using hd_dropWhile [of "\<lambda>c. c \<noteq> newline" name] by simp
    with Cons f have "name = n @ newline # r"
      using takeWhile_dropWhile_id [of "\<lambda>c. c \<noteq> newline" name] by (simp add: first_line_def)
    then show ?thesis by (simp add: name_matches_def strneq_iff c_at_def nth_append)
  qed
qed

lemma tab_to_value_map_of:
  assumes "cstring name" "one_line_names t"
  shows "tab_to_value t unk name =
    (case map_of (map prod.swap t) (first_line name) of Some v \<Rightarrow> v | None \<Rightarrow> unk)"
  using assms(2)
proof (induction t)
  case (Cons e t)
  with assms(1) show ?case
    by (cases e) (auto simp: one_line_names_def name_matches_iff)
qed simp

lemma tab_to_str_map_of:
  "tab_to_str t dflt v = (case map_of t v of Some n \<Rightarrow> n | None \<Rightarrow> dflt)"
  by (induction t) auto

lemma tabs_one_line [simp]:
  "one_line_names drv_bus_op_modes_tab" "one_line_names drv_bus_speeds_tab"
  "one_line_names drv_util_states_tab"
  "one_line_names top_bus_op_modes_tab" "one_line_names top_bus_speeds_tab"
  "one_line_names top_util_states_tab"
  by (simp_all add: one_line_names_def newline_def drv_tabs top_tabs)

lemma one_line_names_take: "one_line_names t \<Longrightarrow> one_line_names (take n t)"
  by (auto simp: one_line_names_def list_all_iff dest: in_set_takeD)

text \<open>The name of a bus mode, a bus speed and a utilization state, the same in both sets of tables.\<close>

lemma bus_op_mode_to_str_drv: "hplba_bus_op_mode_to_str drv_bus_op_modes_tab m = snd (drv_bus_op_modes_tab ! op_mode_index m)"
  by (cases m) (simp_all add: lookup_defs drv_tabs)

lemma bus_speed_to_str_drv: "hplba_bus_speed_to_str drv_bus_speeds_tab v = snd (drv_bus_speeds_tab ! speed_index v)"
  by (cases v) (simp_all add: lookup_defs drv_tabs)

section \<open>Both programs use the same names\<close>

lemma mode_names_agree:
  "hplba_bus_op_mode_to_value top_bus_op_modes_tab (snd (drv_bus_op_modes_tab ! op_mode_index m)) = m"
  "hplba_bus_op_mode_to_value top_bus_op_modes_tab
     (snd (drv_bus_op_modes_tab ! op_mode_index m) @ [newline]) = m"
  "hplba_bus_op_mode_to_str top_bus_op_modes_tab m = snd (drv_bus_op_modes_tab ! op_mode_index m)"
  by (induction m; code_simp)+

lemma speed_names_agree:
  "hplba_bus_speed_to_value top_bus_speeds_tab (snd (drv_bus_speeds_tab ! speed_index v)) = v"
  "hplba_bus_speed_to_value top_bus_speeds_tab
     (snd (drv_bus_speeds_tab ! speed_index v) @ [newline]) = v"
  "hplba_bus_speed_to_str top_bus_speeds_tab v = snd (drv_bus_speeds_tab ! speed_index v)"
  by (induction v; code_simp)+

lemma state_names_agree:
  "hplba_util_state_to_value drv_util_states_tab (hplba_util_state_to_str top_util_states_tab st) = st"
  "hplba_util_state_to_value drv_util_states_tab
     (hplba_util_state_to_str top_util_states_tab st @ [newline]) = st"
  "hplba_util_state_to_str drv_util_states_tab st = hplba_util_state_to_str top_util_states_tab st"
  by (induction st; code_simp)+

text \<open>
  C25. A bus mode, bus speed or state printed by the driver by name, with the newline or without,
  is read by the tool as the same mode, speed or state, and the tool prints it by the same name,
  although the two programs keep their tables in different orders.
\<close>

theorem names_agree:
  "(let name = snd (drv_bus_op_modes_tab ! op_mode_index m)
    in hplba_bus_op_mode_to_value top_bus_op_modes_tab name = m \<and>
       hplba_bus_op_mode_to_value top_bus_op_modes_tab (name @ [newline]) = m \<and>
       hplba_bus_op_mode_to_str top_bus_op_modes_tab m = name) \<and>
   (let name = snd (drv_bus_speeds_tab ! speed_index v)
    in hplba_bus_speed_to_value top_bus_speeds_tab name = v \<and>
       hplba_bus_speed_to_value top_bus_speeds_tab (name @ [newline]) = v \<and>
       hplba_bus_speed_to_str top_bus_speeds_tab v = name) \<and>
   (let name = hplba_util_state_to_str top_util_states_tab st
    in hplba_util_state_to_value drv_util_states_tab name = st \<and>
       hplba_util_state_to_value drv_util_states_tab (name @ [newline]) = st \<and>
       hplba_util_state_to_str drv_util_states_tab st = name)"
  using mode_names_agree speed_names_agree state_names_agree by (simp add: Let_def)

end
