(* ===== verification/Lbas.thy ===== *)
theory Lbas
  imports PciSysfs Integrity Tables
begin

text \<open>
  The adapters as the tool sees them: the global state of src/pcitop.c (src/pcitop.h has the
  types), the checks for loaded drivers, the operations on an adapter through its attribute
  files, and the discovery of the adapters.

  The static list \<open>host_lba_list\<close> only grows at its end; an adapter is named by its position.
  \<open>init_lba\<close> gives every adapter the same table of operations, \<open>hplba_ops\<close>, so the calls through
  it are calls of those functions.
\<close>

section \<open>The tool's state\<close>

record pci_id =
  pci_domain :: u32
  pci_busid :: u32
  pci_addr :: u32
  pci_func :: u32

record pcitop_options =
  opt_verbose :: int
  opt_debug :: int
  opt_show_info :: int
  opt_match_bus :: int
  opt_match_domain :: int
  opt_match_and :: int
  opt_match_or :: int
  opt_match_cabinet :: "string option"
  opt_match_bay :: "string option"
  opt_match_chassis :: "string option"
  opt_match_slot :: "string option"
  opt_match_lspci :: "string option"
  num_lba :: u64
  num_lba_display :: u64
  nsamples :: u64
  timeout :: int

record lba_info =
  li_name :: string
  sysfs_root_bridge :: "nat option"
  prev_timer :: u64
  prev_counter :: u64
  timer :: u64
  counter :: u64
  bus_type :: "string option"
  li_bus_speed :: "string option"
  li_revision :: "char list"
  li_id :: u32
  li_ropes :: u32
  li_pci_id :: pci_id
  in_use :: u32
  display :: u32
  arch_info :: integrity_lba_info

record 's tool = "'s proc" +
  options :: pcitop_options
  time_to_quit :: int
  host_lba_list :: "lba_info list"
  sys_info :: integrity_sys_info
  tree :: pci_tree
  collect_buf :: bool
  stdout :: string

definition REV_LEN :: nat where "REV_LEN = 10"

definition PAGE :: "'s os \<Rightarrow> nat" where "PAGE os = os_page_size os"

text \<open>What \<open>calloc\<close> makes of a \<open>struct lba_info\<close>.\<close>

definition zero_lba :: lba_info where
  "zero_lba =
     \<lparr>li_name = [], sysfs_root_bridge = None, prev_timer = 0, prev_counter = 0, timer = 0,
      counter = 0, bus_type = None, li_bus_speed = None, li_revision = zeroed REV_LEN, li_id = 0,
      li_ropes = 0, li_pci_id = \<lparr>pci_domain = 0, pci_busid = 0, pci_addr = 0, pci_func = 0\<rparr>,
      in_use = 0, display = 0,
      arch_info = \<lparr>cabinet = 0, bay = 0, chassis = 0, lba_num_slots = 0\<rparr>\<rparr>"

definition lba_info_size :: nat where "lba_info_size = 160"

definition set_lba :: "nat \<Rightarrow> lba_info \<Rightarrow> 's tool \<Rightarrow> 's tool" where
  "set_lba i l t = t\<lparr>host_lba_list := (host_lba_list t)[i := l]\<rparr>"

section \<open>Loaded drivers\<close>

definition LBA_DRIVER_NAME :: string where "LBA_DRIVER_NAME = ''hplba''"
definition SLOT_DRIVER_NAMES :: "string list" where "SLOT_DRIVER_NAMES = [''acpiphp'', ''pci_slot'']"
definition SYSFS_CLASS_DIR :: string where "SYSFS_CLASS_DIR = ''/sys/class''"

definition driver_loaded :: "'s os \<Rightarrow> string \<Rightarrow> 's tool \<Rightarrow> int" where
  "driver_loaded os name t =
     (if \<not> os_stat os (take (PATH_MAX - 2) (''/sys/module/'' @ name)) (os_st t) then 0 else 1)"

fun slot_driver_loop :: "'s os \<Rightarrow> string list \<Rightarrow> 's tool \<Rightarrow> bool" where
  "slot_driver_loop os [] t = False"
| "slot_driver_loop os (d # ds) t = (if driver_loaded os d t \<noteq> 0 then True else slot_driver_loop os ds t)"

text \<open>The text of the message listing the slot drivers, built in a buffer of 80 bytes.\<close>

fun driver_names_text :: "string list \<Rightarrow> string" where
  "driver_names_text [] = []"
| "driver_names_text [d] = ''\"'' @ d @ ''\"''"
| "driver_names_text (d # ds) = ''\"'' @ d @ ''\" or '' @ driver_names_text ds"

definition drivers_loaded :: "'s os \<Rightarrow> 's tool \<Rightarrow> int outcome" where
  "drivers_loaded os t =
     (if driver_loaded os LBA_DRIVER_NAME t = 0 then Ret 0
      else if \<not> slot_driver_loop os SLOT_DRIVER_NAMES t
      then if length (driver_names_text SLOT_DRIVER_NAMES) + 1 > 80 then Crash else Ret 0
      else Ret 1)"

section \<open>Attribute files of an adapter\<close>

definition lba_attr_path :: "lba_info \<Rightarrow> string \<Rightarrow> string" where
  "lba_attr_path lba attribute =
     path_buf (SYSFS_CLASS_DIR @ ''/'' @ LBA_DRIVER_NAME @ ''/'' @ li_name lba @ ''/'' @ attribute)"

definition read_lba_attribute ::
  "'s os \<Rightarrow> lba_info \<Rightarrow> string \<Rightarrow> char list \<Rightarrow> 's tool \<Rightarrow> (int \<times> char list \<times> 's tool) outcome" where
  "read_lba_attribute os lba attribute contents t =
     or_crash (read_attribute os (lba_attr_path lba attribute) contents PATH_MAX t)"

definition write_lba_attribute :: "'s os \<Rightarrow> lba_info \<Rightarrow> string \<Rightarrow> string \<Rightarrow> 's tool \<Rightarrow> int \<times> 's tool" where
  "write_lba_attribute os lba attribute contents t =
     write_attribute os (lba_attr_path lba attribute) contents t"

section \<open>Operations of the driver hplba\<close>

definition hplba_op_init :: "'s os \<Rightarrow> nat \<Rightarrow> 's tool \<Rightarrow> int \<times> 's tool" where
  "hplba_op_init os i t = write_lba_attribute os (host_lba_list t ! i) ''utilization'' ''init'' t"

definition hplba_reset :: "'s os \<Rightarrow> nat \<Rightarrow> 's tool \<Rightarrow> int \<times> 's tool" where
  "hplba_reset os i t = write_lba_attribute os (host_lba_list t ! i) ''utilization'' ''reset'' t"

definition hplba_start :: "'s os \<Rightarrow> nat \<Rightarrow> 's tool \<Rightarrow> int \<times> 's tool" where
  "hplba_start os i t = write_lba_attribute os (host_lba_list t ! i) ''utilization'' ''start'' t"

definition hplba_stop :: "'s os \<Rightarrow> nat \<Rightarrow> 's tool \<Rightarrow> int \<times> 's tool" where
  "hplba_stop os i t = write_lba_attribute os (host_lba_list t ! i) ''utilization'' ''stop'' t"

text \<open>The format \<open>%lu,%lu\<close>: the values converted.\<close>

definition scan_counts :: "string \<Rightarrow> u64 list" where
  "scan_counts s =
     (case scan_lu s of
        None \<Rightarrow> []
      | Some (a, r) \<Rightarrow>
          (case scan_lit (CHR '','') r of
             None \<Rightarrow> [a]
           | Some r1 \<Rightarrow> (case scan_lu r1 of None \<Rightarrow> [a] | Some (b, _) \<Rightarrow> [a, b])))"

text \<open>
  Without memory it prints an error, whose format needs an argument that is not given: the behaviour is undefined.
\<close>

definition hplba_collect :: "'s os \<Rightarrow> nat \<Rightarrow> 's tool \<Rightarrow> (int \<times> 's tool) outcome" where
  "hplba_collect os i t =
     (let (ok, s) = (if collect_buf t then (True, os_st t) else os_malloc os (PAGE os) (os_st t))
      in if \<not> ok then Crash
         else let t1 = t\<lparr>os_st := s, collect_buf := True\<rparr>
              in bind_o (read_lba_attribute os (host_lba_list t ! i) ''utilization'' (zeroed (PAGE os)) t1)
                   (\<lambda>(_, utilization, t2). bind_o (or_crash (c_string utilization)) (\<lambda>txt.
                      case scan_counts txt of
                        [tm, cn] \<Rightarrow> Ret (0, set_lba i ((host_lba_list t2 ! i)\<lparr>timer := tm, counter := cn\<rparr>) t2)
                      | _ \<Rightarrow> Ret (1, t2))))"

section \<open>Registration\<close>

definition register_lba :: "'s os \<Rightarrow> string \<Rightarrow> 's tool \<Rightarrow> (nat \<times> 's tool) outcome" where
  "register_lba os name t =
     (let (ok, s) = os_malloc os lba_info_size (os_st t)
      in if \<not> ok then Exit 1
         else Ret (length (host_lba_list t),
                   t\<lparr>os_st := s, host_lba_list := host_lba_list t @ [zero_lba\<lparr>li_name := name\<rparr>]\<rparr>))"

text \<open>
  The value of \<open>name_to_pci_id\<close> is \<open>- 1\<close> even when everything is converted (the comparison with
  4 and 5 counts one conversion too many); the caller ignores it. Fields that are not
  converted keep what they held.
\<close>

definition lspci_short :: "scan_item list" where
  "lspci_short = [SHex 2, SLit (CHR '':''), SHex 2, SLit (CHR ''.''), SHex 1]"

definition lspci_long :: "scan_item list" where
  "lspci_long = [SHex 4, SLit (CHR '':'')] @ lspci_short"

definition nth_or :: "'a list \<Rightarrow> nat \<Rightarrow> 'a \<Rightarrow> 'a" where
  "nth_or xs n d = (if n < length xs then xs ! n else d)"

definition name_to_pci_id :: "string \<Rightarrow> pci_id \<Rightarrow> int \<times> pci_id" where
  "name_to_pci_id name pid =
     (if length name = 7 then
        let v = scan_items lspci_short name;
            ret = int (length v)
        in (if ret \<noteq> 4 then - 1 else ret,
            \<lparr>pci_domain = 0, pci_busid = nth_or v 0 (pci_busid pid), pci_addr = nth_or v 1 (pci_addr pid),
             pci_func = nth_or v 2 (pci_func pid)\<rparr>)
      else if length name = 12 then
        let v = scan_items lspci_long name;
            ret = int (length v)
        in (if ret \<noteq> 5 then - 1 else ret,
            \<lparr>pci_domain = nth_or v 0 (pci_domain pid), pci_busid = nth_or v 1 (pci_busid pid),
             pci_addr = nth_or v 2 (pci_addr pid), pci_func = nth_or v 3 (pci_func pid)\<rparr>)
      else (- 1, pid))"

definition junk_pci_id :: "'s os \<Rightarrow> 's \<Rightarrow> pci_id" where
  "junk_pci_id os s =
     \<lparr>pci_domain = os_stack os s 0, pci_busid = os_stack os s 1, pci_addr = os_stack os s 2,
      pci_func = os_stack os s 3\<rparr>"

definition scan_id :: "string \<Rightarrow> u32 option" where
  "scan_id s =
     (case scan_lits ''0x'' s of None \<Rightarrow> None | Some r \<Rightarrow> map_option fst (scan_x r))"

text \<open>
  \<open>init_lba\<close> returns the position of the adapter, or \<open>None\<close> for a null pointer. A failed read
  leaves the text of the previous attribute in \<open>attrib\<close>. Without memory it, too, prints an error without its argument.
\<close>

definition init_lba :: "'s os \<Rightarrow> string \<Rightarrow> 's tool \<Rightarrow> (nat option \<times> 's tool) outcome" where
  "init_lba os name t =
     (let (ok, s) = os_malloc os (min (length name) PATH_MAX + 1) (os_st t); t0 = t\<lparr>os_st := s\<rparr>
      in if \<not> ok then Crash
         else bind_o (register_lba os (take PATH_MAX name) t0) (\<lambda>(i, t1).
           let lba1 = (host_lba_list t1 ! i)
                 \<lparr>li_pci_id := snd (name_to_pci_id name (junk_pci_id os (os_st t1))),
                  display := 1, in_use := 1\<rparr>;
               t2 = set_lba i lba1 t1;
               (ok2, s2) = os_malloc os (PAGE os) (os_st t2);
               t3 = t2\<lparr>os_st := s2\<rparr>
           in if \<not> ok2 then Crash
              else bind_o (read_lba_attribute os lba1 ''bus_mode'' (zeroed (PAGE os)) t3) (\<lambda>(_, a1, t4).
                bind_o (or_crash (c_string a1)) (\<lambda>mode.
                bind_o (read_lba_attribute os lba1 ''bus_speed'' a1 t4) (\<lambda>(_, a2, t5).
                bind_o (or_crash (c_string a2)) (\<lambda>speed.
                bind_o (read_lba_attribute os lba1 ''function_id'' a2 t5) (\<lambda>(_, a3, t6).
                bind_o (or_crash (c_string a3)) (\<lambda>fid.
                bind_o (read_lba_attribute os lba1 ''revision'' a3 t6) (\<lambda>(_, a4, t7).
                bind_o (or_crash (c_string a4)) (\<lambda>rev.
                bind_o (read_lba_attribute os lba1 ''ropes'' a4 t7) (\<lambda>(_, a5, t8).
                bind_o (or_crash (c_string a5)) (\<lambda>rop.
                  let lba2 = lba1
                        \<lparr>bus_type := Some (hplba_bus_op_mode_to_str top_bus_op_modes_tab
                            (hplba_bus_op_mode_to_value top_bus_op_modes_tab mode)),
                         li_bus_speed := Some (hplba_bus_speed_to_str top_bus_speeds_tab
                            (hplba_bus_speed_to_value top_bus_speeds_tab speed)),
                         li_id := (case scan_id fid of Some v \<Rightarrow> v | None \<Rightarrow> li_id lba1),
                         li_revision := strncpy (li_revision lba1) rev REV_LEN,
                         li_ropes := word_of_int (atoi rop)\<rparr>
                  in Ret (Some i, (set_lba i lba2 t8)
                       \<lparr>options := (options t8)\<lparr>num_lba := num_lba (options t8) + 1\<rparr>\<rparr>)))))))))))))"

section \<open>Location\<close>

fun location_loop :: "'s os \<Rightarrow> nat list \<Rightarrow> nat \<Rightarrow> 's tool \<Rightarrow> 's tool outcome" where
  "location_loop os [] i t = Ret t"
| "location_loop os (k # ks) i t =
     bind_o (or_crash (c_string (slot_name (slots (tree t) ! k)))) (\<lambda>name.
       let (cab, chas, b, slot_num) = integrity_parse_slot name;
           lba = host_lba_list t ! i;
           info = (arch_info lba)\<lparr>cabinet := cab, bay := b, chassis := chas\<rparr>;
           (_, info') = integrity_update_lba_info info slot_num;
           (_, si, s) = integrity_update_sys_info os info' (sys_info t) (os_st t)
       in location_loop os ks i ((set_lba i (lba\<lparr>arch_info := info'\<rparr>) t)\<lparr>sys_info := si, os_st := s\<rparr>))"

text \<open>A null argument is an invalid access.\<close>

definition find_lba_location_info :: "'s os \<Rightarrow> nat option \<Rightarrow> 's tool \<Rightarrow> (int \<times> 's tool) outcome" where
  "find_lba_location_info os lba t =
     (case lba of
        None \<Rightarrow> Crash
      | Some i \<Rightarrow>
          (let rb = get_sysfs_root_bridge (li_name (host_lba_list t ! i)) (tree t);
               t1 = set_lba i ((host_lba_list t ! i)\<lparr>sysfs_root_bridge := rb\<rparr>) t
           in case rb of
                None \<Rightarrow> Ret (1, t1)
              | Some j \<Rightarrow>
                  bind_o (location_loop os (rb_slots (root_bridges (tree t1) ! j)) i t1) (\<lambda>t2. Ret (0, t2))))"

section \<open>Discovery\<close>

fun init_lbas_loop :: "'s os \<Rightarrow> string list \<Rightarrow> 's tool \<Rightarrow> 's tool outcome" where
  "init_lbas_loop os [] t = Ret t"
| "init_lbas_loop os (d_name # ds) t =
     (if streq d_name ''.'' \<or> streq d_name ''..'' then init_lbas_loop os ds t
      else bind_o (init_lba os d_name t) (\<lambda>(lba, t1).
             bind_o (find_lba_location_info os lba t1) (\<lambda>(_, t2). init_lbas_loop os ds t2)))"

definition init_lbas :: "'s os \<Rightarrow> 's tool \<Rightarrow> (int \<times> 's tool) outcome" where
  "init_lbas os t =
     (case os_dir os (path_buf (SYSFS_CLASS_DIR @ ''/'' @ LBA_DRIVER_NAME)) (os_st t) of
        None \<Rightarrow> Ret (1, t)
      | Some ds \<Rightarrow> bind_o (init_lbas_loop os ds t) (\<lambda>t'. Ret (0, t')))"

end
