(* ===== verification/Filters.thy ===== *)
theory Filters
  imports Lbas
begin

text \<open>
  Which adapters are displayed: the comparisons of src/pcitop.c with the addresses, slots and
  numbers given on the command line, combined with "and" or "or".
\<close>

section \<open>Comparisons\<close>

text \<open>
  \<open>pcicmp\<close> ignores how many conversions succeeded; what was not converted is not initialised.
\<close>

definition pcicmp :: "'s os \<Rightarrow> 's \<Rightarrow> string \<Rightarrow> u16 \<Rightarrow> u32 \<Rightarrow> int" where
  "pcicmp os s pciaddr domain bus_id =
     (if length pciaddr = 7 then
        let v = scan_items lspci_short pciaddr; pci_busid = nth_or v 0 (os_stack os s 1); pci_domain = 0
        in if pci_domain = (ucast domain :: u32) \<and> pci_busid = bus_id then 0 else 1
      else if length pciaddr = 12 then
        let v = scan_items lspci_long pciaddr; pci_domain = nth_or v 0 (os_stack os s 0);
            pci_busid = nth_or v 1 (os_stack os s 1)
        in if pci_domain = ucast domain \<and> pci_busid = bus_id then 0 else 1
      else - 1)"

fun match_slot_loop :: "pci_tree \<Rightarrow> string \<Rightarrow> nat list \<Rightarrow> int outcome" where
  "match_slot_loop tr name [] = Ret 0"
| "match_slot_loop tr name (k # ks) =
     bind_o (or_crash (c_string (slot_name (slots tr ! k)))) (\<lambda>n.
       if strneq name (integrity_slot_str n) (SLOT_NAME_LEN - 1) then Ret 1
       else match_slot_loop tr name ks)"

text \<open>An adapter whose root bridge was not found has a null pointer here.\<close>

definition match_slot :: "lba_info \<Rightarrow> string \<Rightarrow> 's tool \<Rightarrow> int outcome" where
  "match_slot lba name t =
     (case sysfs_root_bridge lba of
        None \<Rightarrow> Crash
      | Some j \<Rightarrow> match_slot_loop (tree t) name (rb_slots (root_bridges (tree t) ! j)))"

text \<open>The conversion of an unsigned field to \<open>int\<close>.\<close>

definition int_of :: "u32 \<Rightarrow> int" where "int_of w = sint w"

definition hide :: "nat \<Rightarrow> 's tool \<Rightarrow> 's tool" where
  "hide i t = set_lba i ((host_lba_list t ! i)\<lparr>display := 0\<rparr>) t"

definition show_lba :: "nat \<Rightarrow> 's tool \<Rightarrow> 's tool" where
  "show_lba i t =
     (set_lba i ((host_lba_list t ! i)\<lparr>display := 1\<rparr>) t)
       \<lparr>options := (options t)\<lparr>num_lba_display := num_lba_display (options t) + 1\<rparr>\<rparr>"

definition given_and :: "string option \<Rightarrow> (string \<Rightarrow> bool) \<Rightarrow> bool" where
  "given_and x0 p = (case x0 of None \<Rightarrow> False | Some x \<Rightarrow> p x)"

section \<open>The two filters\<close>

definition filter_match_and :: "'s os \<Rightarrow> nat \<Rightarrow> 's tool \<Rightarrow> 's tool outcome" where
  "filter_match_and os i t =
     (let op = options t; lba = host_lba_list t ! i; pid = li_pci_id lba; ar = arch_info lba in
      if opt_match_domain op \<ge> 0 \<and> int_of (pci_domain pid) \<noteq> opt_match_domain op then Ret (hide i t)
      else if opt_match_bus op \<ge> 0 \<and> int_of (pci_busid pid) \<noteq> opt_match_bus op then Ret (hide i t)
      else if given_and (opt_match_lspci op)
                (\<lambda>a. pcicmp os (os_st t) a (ucast (pci_domain pid)) (pci_busid pid) \<noteq> 0) then Ret (hide i t)
      else if given_and (opt_match_cabinet op) (\<lambda>c. integrity_match_cabinet c (cabinet ar) \<noteq> 0)
      then Ret (hide i t)
      else if given_and (opt_match_bay op) (\<lambda>c. integrity_match_bay c (bay ar) \<noteq> 0) then Ret (hide i t)
      else if given_and (opt_match_chassis op) (\<lambda>c. integrity_match_chassis c (chassis ar) \<noteq> 0)
      then Ret (hide i t)
      else (case opt_match_slot op of
              None \<Rightarrow> Ret (show_lba i t)
            | Some n \<Rightarrow> bind_o (match_slot lba n t) (\<lambda>found.
                if found = 0 then Ret (hide i t) else Ret (show_lba i t))))"

definition filter_match_or :: "'s os \<Rightarrow> nat \<Rightarrow> 's tool \<Rightarrow> 's tool outcome" where
  "filter_match_or os i t0 =
     (let t = hide i t0; op = options t; lba = host_lba_list t ! i; pid = li_pci_id lba;
          ar = arch_info lba in
      if opt_match_domain op \<ge> 0 \<and> int_of (pci_domain pid) = opt_match_domain op then Ret (show_lba i t)
      else if opt_match_bus op \<ge> 0 \<and> int_of (pci_busid pid) = opt_match_bus op then Ret (show_lba i t)
      else if given_and (opt_match_lspci op)
                (\<lambda>a. pcicmp os (os_st t) a (ucast (pci_domain pid)) (pci_busid pid) = 0)
      then Ret (show_lba i t)
      else if given_and (opt_match_cabinet op) (\<lambda>c. integrity_match_cabinet c (cabinet ar) = 0)
      then Ret (show_lba i t)
      else if given_and (opt_match_bay op) (\<lambda>c. integrity_match_bay c (bay ar) = 0) then Ret (show_lba i t)
      else if given_and (opt_match_chassis op) (\<lambda>c. integrity_match_chassis c (chassis ar) = 0)
      then Ret (show_lba i t)
      else (case opt_match_slot op of
              None \<Rightarrow> Ret t
            | Some n \<Rightarrow> bind_o (match_slot lba n t) (\<lambda>found.
                if found \<noteq> 0 then Ret (show_lba i t) else Ret t)))"

fun filter_loop :: "'s os \<Rightarrow> nat list \<Rightarrow> 's tool \<Rightarrow> 's tool outcome" where
  "filter_loop os [] t = Ret t"
| "filter_loop os (i # is) t =
     bind_o (if opt_match_and (options t) \<noteq> 0 then filter_match_and os i t else filter_match_or os i t)
       (filter_loop os is)"

definition filter_lbas :: "'s os \<Rightarrow> 's tool \<Rightarrow> 's tool outcome" where
  "filter_lbas os t = filter_loop os [0..<length (host_lba_list t)] t"

section \<open>What the filters select\<close>

text \<open>
  The criteria of the command line, each \<open>None\<close> when it is not given and otherwise whether the
  adapter meets it.
\<close>

definition slot_hit :: "'s tool \<Rightarrow> lba_info \<Rightarrow> string \<Rightarrow> bool" where
  "slot_hit t lba name \<longleftrightarrow>
     (case sysfs_root_bridge lba of
        None \<Rightarrow> False
      | Some j \<Rightarrow>
          list_ex (\<lambda>k. strneq name (integrity_slot_str (buf_str (slot_name (slots (tree t) ! k))))
                      (SLOT_NAME_LEN - 1)) (rb_slots (root_bridges (tree t) ! j)))"

definition crit_domain :: "'s tool \<Rightarrow> lba_info \<Rightarrow> bool option" where
  "crit_domain t l =
     (if opt_match_domain (options t) \<ge> 0
      then Some (sint (pci_domain (li_pci_id l)) = opt_match_domain (options t)) else None)"

definition crit_bus :: "'s tool \<Rightarrow> lba_info \<Rightarrow> bool option" where
  "crit_bus t l =
     (if opt_match_bus (options t) \<ge> 0
      then Some (sint (pci_busid (li_pci_id l)) = opt_match_bus (options t)) else None)"

definition crit_lspci :: "'s os \<Rightarrow> 's tool \<Rightarrow> lba_info \<Rightarrow> bool option" where
  "crit_lspci os t l =
     map_option (\<lambda>a. pcicmp os (os_st t) a (ucast (pci_domain (li_pci_id l))) (pci_busid (li_pci_id l)) = 0)
       (opt_match_lspci (options t))"

definition crit_layout :: "'s tool \<Rightarrow> lba_info \<Rightarrow> bool option list" where
  "crit_layout t l =
     [map_option (\<lambda>c. atoi c = cabinet (arch_info l)) (opt_match_cabinet (options t)),
      map_option (\<lambda>c. atoi c = bay (arch_info l)) (opt_match_bay (options t)),
      map_option (\<lambda>c. atoi c = chassis (arch_info l)) (opt_match_chassis (options t))]"

definition crit_slot :: "'s tool \<Rightarrow> lba_info \<Rightarrow> bool option" where
  "crit_slot t l = map_option (slot_hit t l) (opt_match_slot (options t))"

definition criteria :: "'s os \<Rightarrow> 's tool \<Rightarrow> lba_info \<Rightarrow> bool option list" where
  "criteria os t l =
     [crit_domain t l, crit_bus t l, crit_lspci os t l] @ crit_layout t l @ [crit_slot t l]"

text \<open>With "and" no given criterion fails, with "or" some given criterion holds.\<close>

definition selected :: "'s os \<Rightarrow> 's tool \<Rightarrow> lba_info \<Rightarrow> bool" where
  "selected os t lba \<longleftrightarrow>
     (if opt_match_and (options t) \<noteq> 0 then Some False \<notin> set (criteria os t lba)
      else Some True \<in> set (criteria os t lba))"

text \<open>
  The slots of an adapter can be compared when its root bridge is known and their names have a
  terminator.
\<close>

definition located :: "'s tool \<Rightarrow> lba_info \<Rightarrow> bool" where
  "located t lba \<longleftrightarrow>
     (case sysfs_root_bridge lba of
        None \<Rightarrow> False
      | Some j \<Rightarrow> \<forall>k \<in> set (rb_slots (root_bridges (tree t) ! j)). NUL \<in> set (slot_name (slots (tree t) ! k)))"

lemma match_slot_loop_eq:
  "\<forall>k \<in> set ks. NUL \<in> set (slot_name (slots tr ! k)) \<Longrightarrow>
   match_slot_loop tr name ks =
   Ret (if list_ex (\<lambda>k. strneq name (integrity_slot_str (buf_str (slot_name (slots tr ! k))))
          (SLOT_NAME_LEN - 1)) ks then 1 else 0)"
  by (induction ks) (auto simp: c_string_def)

lemma match_slot_eq:
  "located t lba \<Longrightarrow> match_slot lba name t = Ret (if slot_hit t lba name then 1 else 0)"
  by (auto simp: match_slot_def located_def slot_hit_def match_slot_loop_eq split: option.splits)

text \<open>The conditions of the two functions, as values of the criteria.\<close>

lemma given_and_map: "given_and x p \<longleftrightarrow> map_option p x = Some True"
  by (cases x) (auto simp: given_and_def)

lemma and_conditions:
  "opt_match_domain (options t) \<ge> 0 \<and> int_of (pci_domain (li_pci_id l)) \<noteq> opt_match_domain (options t)
     \<longleftrightarrow> crit_domain t l = Some False"
  "opt_match_bus (options t) \<ge> 0 \<and> int_of (pci_busid (li_pci_id l)) \<noteq> opt_match_bus (options t)
     \<longleftrightarrow> crit_bus t l = Some False"
  "given_and (opt_match_lspci (options t)) (\<lambda>a. pcicmp os (os_st t) a (ucast (pci_domain (li_pci_id l)))
     (pci_busid (li_pci_id l)) \<noteq> 0) \<longleftrightarrow> crit_lspci os t l = Some False"
  "given_and (opt_match_cabinet (options t)) (\<lambda>c. integrity_match_cabinet c (cabinet (arch_info l)) \<noteq> 0)
     \<longleftrightarrow> crit_layout t l ! 0 = Some False"
  "given_and (opt_match_bay (options t)) (\<lambda>c. integrity_match_bay c (bay (arch_info l)) \<noteq> 0)
     \<longleftrightarrow> crit_layout t l ! 1 = Some False"
  "given_and (opt_match_chassis (options t)) (\<lambda>c. integrity_match_chassis c (chassis (arch_info l)) \<noteq> 0)
     \<longleftrightarrow> crit_layout t l ! 2 = Some False"
  by (auto simp: given_and_def int_of_def crit_domain_def crit_bus_def crit_lspci_def crit_layout_def
      integrity_match_cabinet_def integrity_match_bay_def integrity_match_chassis_def split: option.splits)

lemma or_conditions:
  "opt_match_domain (options t) \<ge> 0 \<and> int_of (pci_domain (li_pci_id l)) = opt_match_domain (options t)
     \<longleftrightarrow> crit_domain t l = Some True"
  "opt_match_bus (options t) \<ge> 0 \<and> int_of (pci_busid (li_pci_id l)) = opt_match_bus (options t)
     \<longleftrightarrow> crit_bus t l = Some True"
  "given_and (opt_match_lspci (options t)) (\<lambda>a. pcicmp os (os_st t) a (ucast (pci_domain (li_pci_id l)))
     (pci_busid (li_pci_id l)) = 0) \<longleftrightarrow> crit_lspci os t l = Some True"
  "given_and (opt_match_cabinet (options t)) (\<lambda>c. integrity_match_cabinet c (cabinet (arch_info l)) = 0)
     \<longleftrightarrow> crit_layout t l ! 0 = Some True"
  "given_and (opt_match_bay (options t)) (\<lambda>c. integrity_match_bay c (bay (arch_info l)) = 0)
     \<longleftrightarrow> crit_layout t l ! 1 = Some True"
  "given_and (opt_match_chassis (options t)) (\<lambda>c. integrity_match_chassis c (chassis (arch_info l)) = 0)
     \<longleftrightarrow> crit_layout t l ! 2 = Some True"
  by (auto simp: given_and_def int_of_def crit_domain_def crit_bus_def crit_lspci_def crit_layout_def
      integrity_match_cabinet_def integrity_match_bay_def integrity_match_chassis_def split: option.splits)

lemma slot_condition:
  assumes "located t l"
  shows "(case opt_match_slot (options t) of
            None \<Rightarrow> a | Some n \<Rightarrow> bind_o (match_slot l n t) (\<lambda>found. if found = 0 then b else a))
      = (if crit_slot t l = Some False then b else a)"
    and "(case opt_match_slot (options t) of
            None \<Rightarrow> a | Some n \<Rightarrow> bind_o (match_slot l n t) (\<lambda>found. if found \<noteq> 0 then b else a))
      = (if crit_slot t l = Some True then b else a)"
  by (simp_all add: match_slot_eq [OF assms] crit_slot_def split: option.split)

lemma layout_set: "set (crit_layout t l) = {crit_layout t l ! 0, crit_layout t l ! 1, crit_layout t l ! 2}"
  by (simp add: crit_layout_def)

lemma in_criteria:
  "v \<in> set (criteria os t l) \<longleftrightarrow>
     crit_domain t l = v \<or> crit_bus t l = v \<or> crit_lspci os t l = v \<or> crit_layout t l ! 0 = v \<or>
     crit_layout t l ! 1 = v \<or> crit_layout t l ! 2 = v \<or> crit_slot t l = v"
  by (auto simp: criteria_def layout_set)

definition mark :: "bool \<Rightarrow> lba_info \<Rightarrow> lba_info" where
  "mark b l = l\<lparr>display := if b then 1 else 0\<rparr>"

definition count_display :: "nat \<Rightarrow> pcitop_options \<Rightarrow> pcitop_options" where
  "count_display n op = op\<lparr>num_lba_display := num_lba_display op + word_of_nat n\<rparr>"

text \<open>One adapter's turn.\<close>

definition filter_step :: "'s os \<Rightarrow> nat \<Rightarrow> 's tool \<Rightarrow> 's tool" where
  "filter_step os i t =
     (let l = host_lba_list t ! i; b = selected os t l
      in t\<lparr>host_lba_list := (host_lba_list t)[i := mark b l],
           options := count_display (if b then 1 else 0) (options t)\<rparr>)"

lemma filter_step_eq:
  "filter_step os i t =
     (if selected os t (host_lba_list t ! i) then show_lba i t else hide i t)"
  by (simp add: filter_step_def show_lba_def hide_def set_lba_def mark_def count_display_def Let_def)

lemma filter_match_and_eq:
  assumes "located t (host_lba_list t ! i)" "opt_match_and (options t) \<noteq> 0"
  shows "filter_match_and os i t = Ret (filter_step os i t)"
  unfolding filter_match_and_def Let_def and_conditions slot_condition [OF assms(1)]
    filter_step_eq selected_def in_criteria using assms(2) by simp

text \<open>The comparisons do not look at the mark, nor at the number of displayed adapters.\<close>

lemma criteria_cong:
  assumes "options t' = count_display n (options t)" "tree t' = tree t" "os_st t' = os_st t"
  shows "criteria os t' (l\<lparr>display := d\<rparr>) = criteria os t l"
    and "selected os t' (l\<lparr>display := d\<rparr>) = selected os t l"
    and "located t' (l\<lparr>display := d\<rparr>) = located t l"
proof -
  have "slot_hit t' (l\<lparr>display := d\<rparr>) = slot_hit t l"
    unfolding fun_eq_iff slot_hit_def assms(2) by simp
  then show c: "criteria os t' (l\<lparr>display := d\<rparr>) = criteria os t l"
    using assms by (simp add: criteria_def crit_domain_def crit_bus_def crit_lspci_def crit_layout_def
        crit_slot_def count_display_def)
  then show "selected os t' (l\<lparr>display := d\<rparr>) = selected os t l"
    using assms by (simp add: selected_def count_display_def)
  show "located t' (l\<lparr>display := d\<rparr>) = located t l"
    unfolding located_def assms(2) by simp
qed

lemma criteria_cong_same:
  assumes "options t' = count_display n (options t)" "tree t' = tree t" "os_st t' = os_st t"
  shows "selected os t' l = selected os t l" "located t' l = located t l"
  using criteria_cong(2,3) [OF assms, where l = l and d = "display l"] by simp_all

lemma criteria_cong_mark:
  assumes "options t' = count_display n (options t)" "tree t' = tree t" "os_st t' = os_st t"
  shows "criteria os t' (mark b l) = criteria os t l" "selected os t' (mark b l) = selected os t l"
    "located t' (mark b l) = located t l"
  unfolding mark_def by (rule criteria_cong [OF assms])+

lemma filter_match_or_eq:
  assumes "located t (host_lba_list t ! i)" "opt_match_and (options t) = 0"
    and "i < length (host_lba_list t)"
  shows "filter_match_or os i t = Ret (filter_step os i t)"
proof -
  define t0 l where "t0 = hide i t" and "l = host_lba_list t ! i"
  have o: "options t0 = count_display 0 (options t)" "tree t0 = tree t" "os_st t0 = os_st t"
    by (simp_all add: t0_def hide_def set_lba_def count_display_def)
  have l0: "host_lba_list t0 ! i = mark False l"
    using assms(3) by (simp add: t0_def hide_def set_lba_def mark_def l_def)
  have loc: "located t0 (mark False l)"
    using assms(1) criteria_cong_mark(3) [OF o] by (simp add: l_def)
  have sh: "show_lba i t0 = show_lba i t"
    using assms(3) by (simp add: t0_def show_lba_def hide_def set_lba_def)
  have "filter_match_or os i t =
      Ret (if Some True \<in> set (criteria os t0 (mark False l)) then show_lba i t0 else t0)"
    unfolding filter_match_or_def Let_def t0_def [symmetric] l0 or_conditions slot_condition(2) [OF loc]
      in_criteria by simp
  then show ?thesis
    unfolding criteria_cong_mark(1) [OF o] sh filter_step_eq selected_def l_def
    using assms(2) by (simp add: t0_def)
qed

section \<open>All adapters\<close>

lemma filter_loop_eq:
  assumes "i \<le> length (host_lba_list t)" "\<forall>l \<in> set (host_lba_list t). located t l"
  shows "filter_loop os [i..<length (host_lba_list t)] t =
    Ret (t\<lparr>host_lba_list := take i (host_lba_list t) @
             map (\<lambda>l. mark (selected os t l) l) (drop i (host_lba_list t)),
           options := count_display (length (filter (selected os t) (drop i (host_lba_list t)))) (options t)\<rparr>)"
  using assms
proof (induction "length (host_lba_list t) - i" arbitrary: i t)
  case 0
  then show ?case by (simp add: count_display_def)
next
  case (Suc n)
  define L l b t1 where "L = host_lba_list t" and "l = L ! i" and "b = selected os t l"
    and "t1 = filter_step os i t"
  have i: "i < length L" using Suc.hyps(2) by (simp add: L_def)
  have t1: "t1 = t\<lparr>host_lba_list := L[i := mark b l], options := count_display (if b then 1 else 0) (options t)\<rparr>"
    by (simp add: t1_def filter_step_def L_def l_def b_def Let_def)
  have o: "options t1 = count_display (if b then 1 else 0) (options t)" "tree t1 = tree t" "os_st t1 = os_st t"
    by (simp_all add: t1)
  have "located t l" using Suc.prems(2) i by (simp add: l_def L_def)
  then have step: "(if opt_match_and (options t) \<noteq> 0 then filter_match_and os i t else filter_match_or os i t) = Ret t1"
    using filter_match_and_eq [of t i os] filter_match_or_eq [of t i os] i by (simp add: t1_def l_def L_def)
  have loc: "\<forall>k \<in> set (host_lba_list t1). located t1 k"
  proof
    fix k assume "k \<in> set (host_lba_list t1)"
    then have "k = mark b l \<or> k \<in> set L"
      using set_update_subset_insert [of L i "mark b l"] by (auto simp: t1)
    then show "located t1 k"
      using Suc.prems(2) \<open>located t l\<close> criteria_cong_mark(3) [OF o] criteria_cong_same(2) [OF o]
      by (auto simp: L_def)
  qed
  have len: "length (host_lba_list t1) = length L" by (simp add: t1)
  have sel: "selected os t1 = selected os t"
    using criteria_cong_same(1) [OF o] by (simp add: fun_eq_iff)
  have "filter_loop os [Suc i..<length (host_lba_list t1)] t1 =
    Ret (t1\<lparr>host_lba_list := take (Suc i) (host_lba_list t1) @
             map (\<lambda>l. mark (selected os t1 l) l) (drop (Suc i) (host_lba_list t1)),
           options := count_display (length (filter (selected os t1) (drop (Suc i) (host_lba_list t1)))) (options t1)\<rparr>)"
    using Suc.hyps(2) i loc by (intro Suc.hyps(1)) (simp_all add: len L_def [symmetric])
  moreover have "[i..<length L] = i # [Suc i..<length L]"
    using i by (rule upt_conv_Cons)
  moreover have "take (Suc i) (host_lba_list t1) = take i L @ [mark b l]"
    "drop (Suc i) (host_lba_list t1) = drop (Suc i) L" "drop i L = l # drop (Suc i) L"
    using i by (simp_all add: t1 take_Suc_conv_app_nth l_def Cons_nth_drop_Suc)
  ultimately show ?case
    unfolding L_def [symmetric] sel len using step
    by (simp add: t1 b_def count_display_def add.commute add.left_commute)
qed

lemma filter_lbas_eq:
  assumes "\<forall>l \<in> set (host_lba_list t). located t l"
  shows "filter_lbas os t =
    Ret (t\<lparr>host_lba_list := map (\<lambda>l. mark (selected os t l) l) (host_lba_list t),
           options := count_display (length (filter (selected os t) (host_lba_list t))) (options t)\<rparr>)"
  using filter_loop_eq [of 0 t os] assms by (simp add: filter_lbas_def)

end
