(* ===== verification/Display.thy ===== *)
theory Display
  imports Filters
begin

text \<open>
  What the tool prints about the adapters, in src/pcitop.c: the information listing and the
  banner above the measurements. The standard output is a string of the state.

  The banner is built in a block of memory of a computed size. The model builds the text and
  compares its length with that size: a longer text is written past the end of the block.
\<close>

section \<open>Output\<close>

definition emit :: "string \<Rightarrow> 's tool \<Rightarrow> 's tool" where
  "emit s t = t\<lparr>stdout := stdout t @ s\<rparr>"

text \<open>\<open>%s\<close> on a pointer that may be null.\<close>

definition str_arg :: "string option \<Rightarrow> string" where
  "str_arg s = (case s of Some x \<Rightarrow> x | None \<Rightarrow> ''(null)'')"

definition alt_hex :: "nat \<Rightarrow> string" where
  "alt_hex n = (if n = 0 then ''0'' else ''0x'' @ show_base 16 n)"

text \<open>The slots of an adapter's root bridge; a null bridge is an invalid access.\<close>

definition bridge_slots :: "lba_info \<Rightarrow> 's tool \<Rightarrow> nat list outcome" where
  "bridge_slots lba t =
     (case sysfs_root_bridge lba of
        None \<Rightarrow> Crash
      | Some j \<Rightarrow> Ret (rb_slots (root_bridges (tree t) ! j)))"

text \<open>The slot numbers, separated by \<open>sep\<close>: the loops of the listing and of the banner.\<close>

fun slots_text :: "string \<Rightarrow> pci_tree \<Rightarrow> nat list \<Rightarrow> string outcome" where
  "slots_text sep tr [] = Ret []"
| "slots_text sep tr (k # ks) =
     bind_o (or_crash (c_string (slot_name (slots tr ! k)))) (\<lambda>n.
     bind_o (slots_text sep tr ks) (\<lambda>r.
       Ret (integrity_slot_str n @ (if ks = [] then [] else sep) @ r)))"

section \<open>The information listing\<close>

definition root_info_line :: "lba_info \<Rightarrow> 's tool \<Rightarrow> string outcome" where
  "root_info_line lba t =
     (let si = sys_info t;
          start = pad_str (- 14) (li_name lba) @ '' '' @ str_arg (bus_type lba) @ ''/'' @
                  str_arg (li_bus_speed lba) @ '' '';
          ropes = ''ropes='' @ show_int (int_of (li_ropes lba)) @ '' '';
          cab = (if num_cabinets si > 1
                 then ''cabinet '' @ integrity_cabinet_to_str (cabinet (arch_info lba)) @ '' '' else []);
          bays = (if num_bays si > 1
                  then ''bay '' @ integrity_bay_to_str (bay (arch_info lba)) @ '' '' else []);
          chas = (if num_chassis si > 1
                  then ''chassis '' @ integrity_chassis_to_str (chassis (arch_info lba)) @ '' '' else [])
      in bind_o (if opt_verbose (options t) \<noteq> 0
                 then bind_o (or_crash (c_string (li_revision lba))) (\<lambda>rev.
                        Ret (''lba id = '' @ alt_hex (unat (li_id lba)) @ '' rev='' @ rev @ '' ''))
                 else Ret []) (\<lambda>verb.
         bind_o (bridge_slots lba t) (\<lambda>ks.
         bind_o (if ks = [] then Ret [] else bind_o (slots_text '','' (tree t) ks) (\<lambda>x. Ret (''slots '' @ x)))
           (\<lambda>sl. Ret (start @ verb @ ropes @ cab @ bays @ chas @ sl @ [newline])))))"

fun root_info_loop :: "lba_info list \<Rightarrow> 's tool \<Rightarrow> 's tool outcome" where
  "root_info_loop [] t = Ret t"
| "root_info_loop (l # ls) t =
     (if display l \<noteq> 0 then bind_o (root_info_line l t) (\<lambda>x. root_info_loop ls (emit x t))
      else root_info_loop ls t)"

definition show_all_root_info :: "'s tool \<Rightarrow> 's tool outcome" where
  "show_all_root_info t = root_info_loop (host_lba_list t) t"

section \<open>The banner\<close>

definition COLUMN_SEP_WIDTH :: int where "COLUMN_SEP_WIDTH = 2"
definition COLUMN_HEADER_WIDTH :: int where "COLUMN_HEADER_WIDTH = 6"
definition COLUMN_DATA_WIDTH :: int where "COLUMN_DATA_WIDTH = 16"
definition NUM_BANNER_ROWS :: u32 where "NUM_BANNER_ROWS = 7"

text \<open>\<open>LINE_WIDTH\<close> on an \<open>unsigned int\<close> is computed modulo \<open>2 ^ 32\<close>.\<close>

definition LINE_WIDTH :: "u32 \<Rightarrow> u32" where
  "LINE_WIDTH lbas =
     word_of_int COLUMN_HEADER_WIDTH + word_of_int COLUMN_SEP_WIDTH +
     lbas * word_of_int COLUMN_DATA_WIDTH + (lbas - 1) * word_of_int COLUMN_SEP_WIDTH"

definition row_header :: "string \<Rightarrow> string" where
  "row_header s = pad_str (- (COLUMN_HEADER_WIDTH + COLUMN_SEP_WIDTH)) s"

text \<open>
  A row: the header and a column for each displayed adapter. \<open>list_is_last\<close> asks for the last
  node of the whole list, displayed or not.
\<close>

fun row_columns :: "(lba_info \<Rightarrow> bool \<Rightarrow> string outcome) \<Rightarrow> lba_info list \<Rightarrow> string outcome" where
  "row_columns f [] = Ret []"
| "row_columns f (l # ls) =
     bind_o (if display l \<noteq> 0 then f l (ls = []) else Ret []) (\<lambda>a.
     bind_o (row_columns f ls) (\<lambda>b. Ret (a @ b)))"

definition text_column :: "(lba_info \<Rightarrow> string) \<Rightarrow> lba_info \<Rightarrow> bool \<Rightarrow> string outcome" where
  "text_column f l is_last =
     Ret (pad_str (- (COLUMN_DATA_WIDTH + (if is_last then 0 else COLUMN_SEP_WIDTH))) (f l))"

definition sep_column :: "bool \<Rightarrow> string" where
  "sep_column is_last = (if is_last then [] else pad_str COLUMN_SEP_WIDTH '' '')"

definition slots_column :: "'s tool \<Rightarrow> lba_info \<Rightarrow> bool \<Rightarrow> string outcome" where
  "slots_column t l is_last =
     bind_o (bridge_slots l t) (\<lambda>ks.
     bind_o (if ks = [] then Ret (pad_str (- COLUMN_DATA_WIDTH) ''n/a'')
             else bind_o (slots_text '', '' (tree t) ks) (\<lambda>x.
                    Ret (x @ pad_str (COLUMN_DATA_WIDTH - int (length x)) '' ''))) (\<lambda>x.
       Ret (x @ sep_column is_last)))"

definition ropes_column :: "lba_info \<Rightarrow> bool \<Rightarrow> string outcome" where
  "ropes_column l is_last =
     Ret (pad_str (- COLUMN_DATA_WIDTH) (show_int (int_of (li_ropes l))) @ sep_column is_last)"

definition banner_text :: "u32 \<Rightarrow> 's tool \<Rightarrow> string outcome" where
  "banner_text num_lbas t =
     (let ls = host_lba_list t; dashes = replicate (unat (LINE_WIDTH num_lbas)) (CHR ''-'')
      in bind_o (row_columns (text_column li_name) ls) (\<lambda>names.
         bind_o (row_columns (text_column (\<lambda>l. str_arg (bus_type l))) ls) (\<lambda>types.
         bind_o (row_columns (text_column (\<lambda>l. str_arg (li_bus_speed l))) ls) (\<lambda>speeds.
         bind_o (row_columns (slots_column t) ls) (\<lambda>slts.
         bind_o (row_columns ropes_column ls) (\<lambda>rops.
           Ret (dashes @ [newline] @
                row_header ''bridge'' @ names @ [newline] @
                row_header ''type'' @ types @ [newline] @
                row_header ''speed'' @ speeds @ [newline] @
                row_header ''slots'' @ slts @ [newline] @
                row_header ''ropes'' @ rops @ [newline] @
                dashes)))))))"

definition banner_size :: "u32 \<Rightarrow> nat" where
  "banner_size num_lbas = unat ((LINE_WIDTH num_lbas + 1) * NUM_BANNER_ROWS + 1)"

text \<open>
  The whole block after \<open>build_banner\<close>: the text, and behind it what the block held before, since
  no terminator is written. \<open>None\<close> is the null result of a failed allocation.
\<close>

definition build_banner :: "'s os \<Rightarrow> u32 \<Rightarrow> 's tool \<Rightarrow> (char list option \<times> 's tool) outcome" where
  "build_banner os num_lbas t =
     (let (ok, s) = os_malloc os (banner_size num_lbas) (os_st t); t1 = t\<lparr>os_st := s\<rparr>
      in if \<not> ok then Ret (None, t1)
         else bind_o (banner_text num_lbas t1) (\<lambda>x.
           if length x > banner_size num_lbas then Crash
           else Ret (Some (x @ drop (length x) (take (banner_size num_lbas)
                       (os_fresh os (banner_size num_lbas) s @ zeroed (banner_size num_lbas)))), t1)))"

text \<open>\<open>puts\<close> prints up to the terminator, and needs one.\<close>

definition puts :: "char list \<Rightarrow> 's tool \<Rightarrow> 's tool outcome" where
  "puts b t = bind_o (or_crash (c_string b)) (\<lambda>x. Ret (emit (x @ [newline]) t))"

section \<open>Widths\<close>

definition shown :: "lba_info list \<Rightarrow> nat" where
  "shown ls = length (filter (\<lambda>l. display l \<noteq> 0) ls)"

definition last_shown :: "lba_info list \<Rightarrow> bool" where
  "last_shown ls \<longleftrightarrow> ls \<noteq> [] \<and> display (last ls) \<noteq> 0"

text \<open>
  A row whose columns are 16 characters wide, and two more when the adapter is not the last of the
  list: two characters more than the line width when the last adapter is not displayed.
\<close>

lemma row_width:
  assumes "\<forall>l \<in> set ls. display l \<noteq> 0 \<longrightarrow> (\<forall>b. \<exists>x. f l b = Ret x \<and> length x = 16 + (if b then 0 else 2))"
  shows "\<exists>x. row_columns f ls = Ret x \<and> length x + (if last_shown ls then 2 else 0) = 18 * shown ls"
  using assms
proof (induction ls)
  case Nil
  show ?case by (simp add: last_shown_def shown_def)
next
  case (Cons l ls)
  obtain x where x: "row_columns f ls = Ret x" "length x + (if last_shown ls then 2 else 0) = 18 * shown ls"
    using Cons by auto
  have s: "last_shown (l # ls) = (if ls = [] then display l \<noteq> 0 else last_shown ls)"
    "shown (l # ls) = (if display l \<noteq> 0 then 1 else 0) + shown ls"
    by (auto simp: last_shown_def shown_def)
  show ?case
  proof (cases "display l = 0")
    case True
    with x s show ?thesis by (auto simp: shown_def last_shown_def)
  next
    case False
    with Cons.prems obtain y where "f l (ls = []) = Ret y" "length y = 16 + (if ls = [] then 0 else 2)"
      by (metis list.set_intros(1))
    with False x s show ?thesis by (auto simp: shown_def last_shown_def)
  qed
qed

lemma unat_u32: "k < 2 ^ 32 \<Longrightarrow> unat (word_of_nat k :: u32) = k"
  by (simp add: unsigned_of_nat take_bit_nat_def)

lemma LINE_WIDTH_unat:
  assumes "0 < n" "n < 2 ^ 20"
  shows "unat (LINE_WIDTH (word_of_nat n)) = 18 * n + 6"
proof -
  have "LINE_WIDTH (word_of_nat n) = word_of_nat (18 * n + 6)"
    by (simp add: LINE_WIDTH_def COLUMN_HEADER_WIDTH_def COLUMN_SEP_WIDTH_def COLUMN_DATA_WIDTH_def
        algebra_simps)
  moreover have "18 * n + 6 < 2 ^ 32" using assms(2) by simp
  ultimately show ?thesis by (simp only: unat_u32)
qed

lemma banner_size_nat:
  assumes "0 < n" "n < 2 ^ 20"
  shows "banner_size (word_of_nat n) = 7 * (18 * n + 6) + 8"
proof -
  have "(LINE_WIDTH (word_of_nat n) + 1) * NUM_BANNER_ROWS + 1 = word_of_nat (7 * (18 * n + 6) + 8)"
    by (simp add: LINE_WIDTH_def COLUMN_HEADER_WIDTH_def COLUMN_SEP_WIDTH_def COLUMN_DATA_WIDTH_def
        NUM_BANNER_ROWS_def algebra_simps)
  moreover have "7 * (18 * n + 6) + 8 < (2 :: nat) ^ 32" using assms(2) by simp
  ultimately show ?thesis unfolding banner_size_def by (simp only: unat_u32)
qed

lemma row_header_length: "length s \<le> 8 \<Longrightarrow> length (row_header s) = 8"
  by (simp add: row_header_def length_pad_str COLUMN_HEADER_WIDTH_def COLUMN_SEP_WIDTH_def)

lemma text_column_width:
  "length (f l) \<le> 16 \<Longrightarrow> \<exists>x. text_column f l b = Ret x \<and> length x = 16 + (if b then 0 else 2)"
  by (simp add: text_column_def length_pad_str COLUMN_DATA_WIDTH_def COLUMN_SEP_WIDTH_def)

lemma sep_column_length: "length (sep_column b) = (if b then 0 else 2)"
  by (simp add: sep_column_def length_pad_str COLUMN_SEP_WIDTH_def)

lemma length_show_int32: "length (show_int (sint (w :: u32))) \<le> 11"
proof -
  have b: "sint w < 2 ^ 31" "- (2 ^ 31) \<le> sint w"
    using sint_lt [of w] sint_ge [of w] by simp_all
  have "length (show_nat k) \<le> 10" if "k \<le> 2 ^ 31" for k
    using length_show_base_le [of 10 k 10] that by (simp add: show_nat_def)
  moreover have "nat (sint w) \<le> 2 ^ 31" using b by simp
  moreover have "nat (- sint w) \<le> 2 ^ 31" using b by simp
  ultimately have "length (show_nat (nat (sint w))) \<le> 10" "length (show_nat (nat (- sint w))) \<le> 10"
    by blast+
  then show ?thesis by (simp add: show_int_def)
qed

lemma ropes_column_width:
  "\<exists>x. ropes_column l b = Ret x \<and> length x = 16 + (if b then 0 else 2)"
  using length_show_int32 [of "li_ropes l"]
  by (simp add: ropes_column_def length_pad_str sep_column_length COLUMN_DATA_WIDTH_def int_of_def)

lemma text_row_width:
  assumes "\<And>l. l \<in> set ls \<Longrightarrow> display l \<noteq> 0 \<Longrightarrow> length (f l) \<le> 16"
  shows "\<exists>x. row_columns (text_column f) ls = Ret x \<and> length x + (if last_shown ls then 2 else 0) = 18 * shown ls"
proof (rule row_width, intro ballI impI allI)
  fix l b assume "l \<in> set ls" "display l \<noteq> 0"
  then show "\<exists>x. text_column f l b = Ret x \<and> length x = 16 + (if b then 0 else 2)"
    by (intro text_column_width assms)
qed

text \<open>An adapter whose texts fit its column; the slot list needs a blank after it.\<close>

definition fits :: "'s tool \<Rightarrow> lba_info \<Rightarrow> bool" where
  "fits t l \<longleftrightarrow>
     length (li_name l) \<le> 16 \<and> length (str_arg (bus_type l)) \<le> 16 \<and>
     length (str_arg (li_bus_speed l)) \<le> 16 \<and>
     (\<exists>ks x. bridge_slots l t = Ret ks \<and> slots_text '', '' (tree t) ks = Ret x \<and> length x < 16)"

lemma slots_column_width:
  assumes "fits t l"
  shows "\<exists>x. slots_column t l b = Ret x \<and> length x = 16 + (if b then 0 else 2)"
proof -
  obtain ks x where "bridge_slots l t = Ret ks" "slots_text '', '' (tree t) ks = Ret x" "length x < 16"
    using assms by (auto simp: fits_def)
  moreover have "length x + nat (16 - int (length x)) = 16" using \<open>length x < 16\<close> by simp
  ultimately show ?thesis
    by (simp add: slots_column_def length_pad_str sep_column_length COLUMN_DATA_WIDTH_def)
qed

lemma banner_length:
  assumes "\<forall>l \<in> set (host_lba_list t). display l \<noteq> 0 \<longrightarrow> fits t l"
    and "n = shown (host_lba_list t)" "0 < n" "n < 2 ^ 20"
  shows "\<exists>x. banner_text (word_of_nat n) t = Ret x \<and>
    length x = 7 * (18 * n + 6) + (if last_shown (host_lba_list t) then 6 else 16)"
proof -
  define ls where "ls = host_lba_list t"
  have fit: "fits t l" if "l \<in> set ls" "display l \<noteq> 0" for l
    using assms(1) that by (simp add: ls_def)
  have n: "n = shown ls" using assms(2) by (simp add: ls_def)
  obtain a where a: "row_columns (text_column li_name) ls = Ret a"
      "length a + (if last_shown ls then 2 else 0) = 18 * n"
    unfolding n using text_row_width [of ls li_name] fit by (auto simp: fits_def)
  obtain b where b: "row_columns (text_column (\<lambda>l. str_arg (bus_type l))) ls = Ret b"
      "length b + (if last_shown ls then 2 else 0) = 18 * n"
    unfolding n using text_row_width [of ls "\<lambda>l. str_arg (bus_type l)"] fit by (auto simp: fits_def)
  obtain c where c: "row_columns (text_column (\<lambda>l. str_arg (li_bus_speed l))) ls = Ret c"
      "length c + (if last_shown ls then 2 else 0) = 18 * n"
    unfolding n using text_row_width [of ls "\<lambda>l. str_arg (li_bus_speed l)"] fit by (auto simp: fits_def)
  obtain d where d: "row_columns (slots_column t) ls = Ret d"
      "length d + (if last_shown ls then 2 else 0) = 18 * n"
    unfolding n using row_width [of ls "slots_column t"] fit slots_column_width by blast
  obtain e where e: "row_columns ropes_column ls = Ret e"
      "length e + (if last_shown ls then 2 else 0) = 18 * n"
    unfolding n using row_width [of ls ropes_column] ropes_column_width by blast
  have "(if last_shown ls then (2::nat) else 0) \<le> 18 * n" using assms(3) by simp
  with a b c d e show ?thesis
    using assms(3,4)
    by (auto simp: banner_text_def ls_def [symmetric] row_header_length LINE_WIDTH_unat Let_def)
qed

text \<open>The banner does not depend on the state of the operating system.\<close>

lemma banner_text_st: "banner_text k (t\<lparr>os_st := s\<rparr>) = banner_text k t"
proof -
  have tr: "tree (t\<lparr>os_st := s\<rparr>) = tree t" by simp
  have "slots_column (t\<lparr>os_st := s\<rparr>) = slots_column t"
    unfolding fun_eq_iff slots_column_def bridge_slots_def tr by (intro allI refl)
  then show ?thesis unfolding banner_text_def by simp
qed

lemma build_banner_fits:
  assumes "\<forall>l \<in> set (host_lba_list t). display l \<noteq> 0 \<longrightarrow> fits t l"
    and "n = shown (host_lba_list t)" "0 < n" "n < 2 ^ 20" "last_shown (host_lba_list t)"
    and "os_malloc os (banner_size (word_of_nat n)) (os_st t) = (True, s)"
  shows "\<exists>x. banner_text (word_of_nat n) t = Ret x \<and>
    length x = 7 * unat (LINE_WIDTH (word_of_nat n)) + 6 \<and>
    length x + 2 = banner_size (word_of_nat n) \<and>
    (\<exists>y. build_banner os (word_of_nat n) t = Ret (Some (x @ y), t\<lparr>os_st := s\<rparr>) \<and> length y = 2)"
proof -
  have t: "banner_text k (t\<lparr>os_st := s\<rparr>) = banner_text k t" for k
    by (rule banner_text_st)
  define sz where "sz = banner_size (word_of_nat n)"
  obtain x where x: "banner_text (word_of_nat n) t = Ret x" "length x = 7 * (18 * n + 6) + 6"
    using banner_length [OF assms(1-4)] assms(5) by auto
  then have l: "length x + 2 = sz"
    using assms(3,4) by (simp add: sz_def banner_size_nat)
  define y where "y = drop (length x) (take sz (os_fresh os sz s @ zeroed sz))"
  have "length (take sz (os_fresh os sz s @ zeroed sz)) = sz"
    by (simp add: zeroed_def)
  with l have "length y = 2" unfolding y_def length_drop by simp
  moreover have "build_banner os (word_of_nat n) t = Ret (Some (x @ y), t\<lparr>os_st := s\<rparr>)"
    using l assms(6) by (simp add: build_banner_def t x(1) sz_def [symmetric] y_def)
  ultimately show ?thesis
    using x l assms(3,4) by (simp add: sz_def LINE_WIDTH_unat)
qed

lemma build_banner_overflows:
  assumes "\<forall>l \<in> set (host_lba_list t). display l \<noteq> 0 \<longrightarrow> fits t l"
    and "n = shown (host_lba_list t)" "0 < n" "n < 2 ^ 20" "\<not> last_shown (host_lba_list t)"
    and "os_malloc os (banner_size (word_of_nat n)) (os_st t) = (True, s)"
  shows "(\<exists>x. banner_text (word_of_nat n) t = Ret x \<and> length x = banner_size (word_of_nat n) + 8) \<and>
    build_banner os (word_of_nat n) t = Crash"
proof -
  have t: "banner_text k (t\<lparr>os_st := s\<rparr>) = banner_text k t" for k
    by (rule banner_text_st)
  obtain x where x: "banner_text (word_of_nat n) t = Ret x" "length x = 7 * (18 * n + 6) + 16"
    using banner_length [OF assms(1-4)] assms(5) by auto
  then show ?thesis
    using assms(3,4,6) by (simp add: build_banner_def t banner_size_nat)
qed

section \<open>The properties\<close>

text \<open>
  C15. When the texts of the displayed adapters fit their columns and the last adapter of the
  list is displayed, the banner fits the block allocated for it: seven rows of the same width,
  the line breaks, and two bytes left over (which are not initialised).
\<close>

theorem banner_fits_block:
  assumes "\<forall>l \<in> set (host_lba_list t). display l \<noteq> 0 \<longrightarrow> fits t l"
    and "n = shown (host_lba_list t)" "0 < n" "n < 2 ^ 20" "last_shown (host_lba_list t)"
    and "os_malloc os (banner_size (word_of_nat n)) (os_st t) = (True, s)"
  shows "\<exists>x. banner_text (word_of_nat n) t = Ret x \<and>
    length x = 7 * unat (LINE_WIDTH (word_of_nat n)) + 6 \<and>
    length x + 2 = banner_size (word_of_nat n) \<and>
    (\<exists>y. build_banner os (word_of_nat n) t = Ret (Some (x @ y), t\<lparr>os_st := s\<rparr>) \<and> length y = 2)"
  using assms by (rule build_banner_fits)

text \<open>
  C16. When the last adapter of the list is filtered out while others are displayed, every row
  between the rules is two characters longer than a rule, because the separator is left out
  for the last adapter of the list and not for the last one displayed. The banner is then eight
  characters longer than its block: \<open>build_banner\<close> writes past the end of it.
\<close>

theorem banner_overflows_block:
  assumes "\<forall>l \<in> set (host_lba_list t). display l \<noteq> 0 \<longrightarrow> fits t l"
    and "n = shown (host_lba_list t)" "0 < n" "n < 2 ^ 20" "\<not> last_shown (host_lba_list t)"
    and "os_malloc os (banner_size (word_of_nat n)) (os_st t) = (True, s)"
  shows "(\<exists>x. banner_text (word_of_nat n) t = Ret x \<and> length x = banner_size (word_of_nat n) + 8) \<and>
    build_banner os (word_of_nat n) t = Crash"
  using assms by (rule build_banner_overflows)

section \<open>A tool with two adapters\<close>

definition demo_lba_info :: "string \<Rightarrow> u32 \<Rightarrow> lba_info" where
  "demo_lba_info name d =
     zero_lba\<lparr>li_name := name, sysfs_root_bridge := Some 0, bus_type := Some ''PCIe'',
       li_bus_speed := Some ''x8'', li_ropes := 4, in_use := 1, display := d,
       li_pci_id := \<lparr>pci_domain = 0, pci_busid = 0x10, pci_addr = 0, pci_func = 0\<rparr>,
       arch_info := \<lparr>cabinet = 1, bay = 3, chassis = 2, lba_num_slots = 2\<rparr>\<rparr>"

definition demo_tool :: "u32 \<Rightarrow> u32 \<Rightarrow> nat tool" where
  "demo_tool d1 d2 =
     \<lparr>os_st = 10, prg_name = [NUL], read_buf = False,
      options =
        \<lparr>opt_verbose = 0, opt_debug = 0, opt_show_info = 0, opt_match_bus = - 1, opt_match_domain = - 1,
         opt_match_and = 1, opt_match_or = 0, opt_match_cabinet = None, opt_match_bay = None,
         opt_match_chassis = None, opt_match_slot = None, opt_match_lspci = None, num_lba = 2,
         num_lba_display = 0, nsamples = 3, timeout = 1\<rparr>,
      time_to_quit = 0,
      host_lba_list = [demo_lba_info ''0000:10:00.0'' d1, demo_lba_info ''0000:20:00.0'' d2],
      sys_info = snd (integrity_init_sys_info undefined), tree = demo_tree, collect_buf = False,
      stdout = []\<rparr>"

lemma demo_fits:
  assumes "l \<in> set (host_lba_list (demo_tool d1 d2))"
  shows "fits (demo_tool d1 d2) l"
proof -
  have "slots_text '', '' demo_tree [0, 1] = Ret ''7, 8''" by code_simp
  with assms show ?thesis
    by (auto simp: fits_def demo_tool_def demo_lba_info_def bridge_slots_def demo_tree_def str_arg_def)
qed

theorem banner_fits_block_witness:
  "\<exists>x. banner_text 2 (demo_tool 1 1) = Ret x \<and> length x = 300"
proof -
  have "\<exists>x. banner_text (word_of_nat 2) (demo_tool 1 1) = Ret x \<and>
      length x = 7 * unat (LINE_WIDTH (word_of_nat 2)) + 6"
    using banner_fits_block [of "demo_tool 1 1" 2 demo_os 9] demo_fits [of _ 1 1]
    by (auto simp: shown_def last_shown_def demo_tool_def demo_lba_info_def demo_os_def)
  then show ?thesis using LINE_WIDTH_unat [of 2] by simp
qed

theorem banner_overflows_block_witness:
  "build_banner demo_os 1 (demo_tool 1 0) = Crash"
  using banner_overflows_block [of "demo_tool 1 0" 1 demo_os 9] demo_fits [of _ 1 0]
  by (auto simp: shown_def last_shown_def demo_tool_def demo_lba_info_def demo_os_def)

end
