(* ===== verification/Doubles.thy ===== *)
theory Doubles
  imports CStr Complex_Main
begin

text \<open>
  The double precision arithmetic of the utilization percentages, and the conversion \<open>%06.2f\<close>.
  All values are non-negative: counts converted from \<open>unsigned long\<close>, products with 100.0, and
  quotients. They stay far below the largest double and a nonzero value is never subnormal, so a
  double is a rational number, or one of the two results a division by zero has; arithmetic rounds
  the exact result to 53 significant bits, ties to even.
\<close>

section \<open>Rounding\<close>

definition round_even :: "rat \<Rightarrow> int" where
  "round_even q =
     (let f = \<lfloor>q\<rfloor>; r = q - of_int f
      in if r < 1 / 2 then f else if r > 1 / 2 then f + 1 else if even f then f else f + 1)"

fun ilog2 :: "nat \<Rightarrow> nat" where
  "ilog2 n = (if n < 2 then 0 else Suc (ilog2 (n div 2)))"

declare ilog2.simps [simp del]

text \<open>\<open>scale e\<close> is \<open>2 ^ e\<close>, for a negative \<open>e\<close> too.\<close>

definition scale :: "int \<Rightarrow> rat" where
  "scale e = (if 0 \<le> e then 2 ^ nat e else 1 / 2 ^ nat (- e))"

text \<open>
  The exponent of the last place of a positive number: the one that leaves 53 bits before the
  binary point. The estimate from the lengths of numerator and denominator is one too large at
  most.
\<close>

definition ulp_exp :: "rat \<Rightarrow> int" where
  "ulp_exp q =
     (let (n, d) = quotient_of q;
          e = int (ilog2 (nat n)) - int (ilog2 (nat d)) - 52
      in if q < 2 ^ 52 * scale e then e - 1 else e)"

definition round_double :: "rat \<Rightarrow> rat" where
  "round_double q = (if q = 0 then 0 else let u = scale (ulp_exp q) in of_int (round_even (q / u)) * u)"

section \<open>Arithmetic\<close>

datatype dbl = Fin rat | Inf | NaN

definition dbl_of_u64 :: "u64 \<Rightarrow> dbl" where
  "dbl_of_u64 w = Fin (round_double (of_nat (unat w)))"

fun dbl_mult :: "dbl \<Rightarrow> dbl \<Rightarrow> dbl" where
  "dbl_mult (Fin a) (Fin b) = Fin (round_double (a * b))"
| "dbl_mult _ _ = NaN"

fun dbl_div :: "dbl \<Rightarrow> dbl \<Rightarrow> dbl" where
  "dbl_div (Fin a) (Fin b) = (if b = 0 then if a = 0 then NaN else Inf else Fin (round_double (a / b)))"
| "dbl_div _ _ = NaN"

section \<open>Printing\<close>

text \<open>
  \<open>%06.2f\<close>: the value in hundredths, rounded to even, at least two decimals and six characters, padded
  with zeros; the special values are padded with spaces.
\<close>

definition show_f2 :: "dbl \<Rightarrow> string" where
  "show_f2 x =
     (case x of
        Fin q \<Rightarrow>
          (let h = nat (round_even (q * 100)); w = show_nat (h div 100); f = show_nat (h mod 100);
               s = w @ ''.'' @ replicate (2 - length f) (CHR ''0'') @ f
           in replicate (6 - length s) (CHR ''0'') @ s)
      | Inf \<Rightarrow> ''   inf''
      | NaN \<Rightarrow> ''   nan'')"

definition util_ratio :: "u64 \<Rightarrow> u64 \<Rightarrow> dbl" where
  "util_ratio c t = dbl_div (dbl_mult (dbl_of_u64 c) (Fin 100)) (dbl_of_u64 t)"

section \<open>The error of the arithmetic\<close>

lemma round_even_error: "\<bar>of_int (round_even q) - q\<bar> \<le> 1 / 2"
proof -
  define r :: rat where "r = q - of_int \<lfloor>q\<rfloor>"
  have r: "0 \<le> r" "r < 1" and q: "q = of_int \<lfloor>q\<rfloor> + r" unfolding r_def by linarith+
  have "round_even q = (if r < 1 / 2 \<or> \<not> r > 1 / 2 \<and> even \<lfloor>q\<rfloor> then \<lfloor>q\<rfloor> else \<lfloor>q\<rfloor> + 1)"
    by (simp add: round_even_def Let_def r_def)
  then have "of_int (round_even q) - q = - r \<and> r \<le> 1 / 2 \<or> of_int (round_even q) - q = 1 - r \<and> 1 / 2 \<le> r"
    using q by (auto split: if_splits)
  then show ?thesis using r by auto
qed

lemma round_even_of_int [simp]: "round_even (of_int z) = z"
  by (simp add: round_even_def)

lemma ilog2_bounds: "0 < n \<Longrightarrow> 2 ^ ilog2 n \<le> n \<and> n < 2 ^ Suc (ilog2 n)"
proof (induction n rule: ilog2.induct)
  case (1 n)
  show ?case
  proof (cases "n < 2")
    case True
    then have "n = 1" using 1(2) by simp
    then show ?thesis by (simp add: ilog2.simps)
  next
    case False
    then have "2 ^ ilog2 (n div 2) \<le> n div 2 \<and> n div 2 < 2 ^ Suc (ilog2 (n div 2))"
      using 1(1) by simp
    then show ?thesis using False by (subst (1 2) ilog2.simps) auto
  qed
qed

lemma scale_pos [simp]: "0 < scale e"
  by (simp add: scale_def)

lemma scale_powi: "scale e = 2 powi e"
  unfolding scale_def power_int_def by (simp only: divide_inverse power_inverse mult_1)

lemma scale_add: "scale (a + b) = scale a * scale b"
  by (simp add: scale_powi power_int_add)

lemma scale_of_nat [simp]: "scale (int n) = 2 ^ n"
  by (simp add: scale_powi)

text \<open>A positive number has at least 53 bits before the last place.\<close>

lemma ulp_exp_le:
  assumes "0 < q"
  shows "2 ^ 52 * scale (ulp_exp q) \<le> q"
proof -
  obtain n d where q: "quotient_of q = (n, d)" by (cases "quotient_of q")
  have d: "0 < d" and eq: "q = of_int n / of_int d"
    using quotient_of_denom_pos [OF q] quotient_of_div [OF q] by simp_all
  then have n: "0 < n" using assms by (simp add: zero_less_divide_iff)
  define a b e where "a = ilog2 (nat n)" and "b = ilog2 (nat d)" and "e = int a - int b - 52"
  have 1: "2 ^ a \<le> nat n" "nat d \<le> 2 ^ Suc b"
    using ilog2_bounds [of "nat n"] ilog2_bounds [of "nat d"] n d unfolding a_def b_def by linarith+
  have "(of_nat (2 ^ a) :: rat) \<le> of_nat (nat n)" using 1(1) by (rule of_nat_mono)
  then have na: "(2::rat) ^ a \<le> of_int n" using n by simp
  have "(of_nat (nat d) :: rat) \<le> of_nat (2 ^ Suc b)" using 1(2) by (rule of_nat_mono)
  then have db: "(of_int d :: rat) \<le> 2 ^ Suc b" using d by simp
  have "scale (int a) = scale (int 52 + (e - 1)) * scale (int (Suc b))"
    by (simp only: scale_add [symmetric], simp add: e_def)
  also have "scale (int 52 + (e - 1)) = 2 ^ 52 * scale (e - 1)"
    by (simp only: scale_add scale_of_nat)
  finally have "2 ^ 52 * scale (e - 1) = (2::rat) ^ a / 2 ^ Suc b"
    unfolding scale_of_nat by (simp only: nonzero_eq_divide_eq power_not_zero zero_neq_numeral [symmetric] not_False_eq_True)
  also have "\<dots> \<le> of_int n / of_int d"
    using na db d n by (intro frac_le) simp_all
  finally have "2 ^ 52 * scale (e - 1) \<le> q" by (simp add: eq)
  then show ?thesis by (simp add: ulp_exp_def q a_def [symmetric] b_def [symmetric] e_def [symmetric])
qed

text \<open>Rounding changes a number by at most one part in \<open>2 ^ 53\<close>.\<close>

lemma round_double_error:
  assumes "0 \<le> q"
  shows "\<bar>round_double q - q\<bar> \<le> q / 2 ^ 53"
proof (cases "q = 0")
  case False
  define u where "u = scale (ulp_exp q)"
  have u: "0 < u" "2 ^ 52 * u \<le> q" using ulp_exp_le [of q] assms False by (simp_all add: u_def)
  have "round_double q - q = (of_int (round_even (q / u)) - q / u) * u"
    using False u(1) by (simp add: round_double_def u_def [symmetric] Let_def algebra_simps)
  then have "\<bar>round_double q - q\<bar> \<le> 1 / 2 * u"
    using mult_right_mono [OF round_even_error [of "q / u"], of u] u(1) by (simp add: abs_mult)
  also have "\<dots> \<le> q / 2 ^ 53" using u(2) by (simp add: field_simps)
  finally show ?thesis .
qed (simp add: round_double_def)

text \<open>Integers of at most 53 bits are not changed.\<close>

lemma round_double_of_nat:
  assumes "n < 2 ^ 53"
  shows "round_double (of_nat n) = of_nat n"
proof (cases "n = 0")
  case False
  have q: "quotient_of (of_nat n) = (int n, 1)"
    using quotient_of_int [of "int n"] by (simp add: of_int_of_nat_eq)
  have "2 ^ ilog2 n < (2::nat) ^ 53" using ilog2_bounds [of n] False assms by linarith
  then have "ilog2 n < 53" by (rule power_less_imp_less_exp [rotated]) simp
  then have l: "ilog2 n \<le> 52" by simp
  have "ilog2 1 = 0" by (simp add: ilog2.simps)
  then have "ulp_exp (of_nat n) \<le> 0" using l by (simp add: ulp_exp_def q Let_def)
  then obtain k where "ulp_exp (of_nat n) = - int k" by (metis nonpos_int_cases)
  then have u: "scale (ulp_exp (of_nat n)) = 1 / 2 ^ k" by (cases "k = 0") (simp_all add: scale_def)
  have "of_nat n / (1 / 2 ^ k) = (of_int (int n * 2 ^ k) :: rat)" by simp
  then have "round_even (of_nat n / scale (ulp_exp (of_nat n))) = int n * 2 ^ k"
    unfolding u by (simp only: round_even_of_int)
  then show ?thesis using False by (simp add: round_double_def u Let_def)
qed (simp add: round_double_def)

text \<open>The ratio of two counts of at most 53 bits, in percent.\<close>

lemma ratio_error:
  fixes a b :: nat
  assumes "0 < b"
  defines "x \<equiv> 100 * of_nat a / (of_nat b :: rat)"
  shows "\<bar>round_double (round_double (of_nat a * 100) / of_nat b) - x\<bar> \<le> x / 2 ^ 51"
proof -
  define p where "p = round_double (of_nat a * 100)"
  define y where "y = p / of_nat b"
  have b: "(0::rat) < of_nat b" using assms(1) by simp
  have x0: "0 \<le> x" by (simp add: x_def)
  have p: "\<bar>p - of_nat a * 100\<bar> \<le> of_nat a * 100 / 2 ^ 53"
    unfolding p_def by (rule round_double_error) simp
  have "y - x = (p - of_nat a * 100) / of_nat b"
    by (simp add: y_def x_def diff_divide_distrib mult.commute)
  then have "\<bar>y - x\<bar> = \<bar>p - of_nat a * 100\<bar> / of_nat b" by simp
  also have "\<dots> \<le> of_nat a * 100 / 2 ^ 53 / of_nat b"
    using p b by (intro divide_right_mono) simp_all
  also have "\<dots> = x / 2 ^ 53" by (simp add: x_def)
  finally have 1: "\<bar>y - x\<bar> \<le> x / 2 ^ 53" .
  then have d: "y - x \<le> x / 2 ^ 53" "x - y \<le> x / 2 ^ 53" by linarith+
  with x0 have y: "0 \<le> y" "y \<le> 2 * x" by (simp_all add: field_simps)
  have "\<bar>round_double y - y\<bar> \<le> y / 2 ^ 53" using y(1) by (rule round_double_error)
  then have "\<bar>round_double y - y\<bar> \<le> 2 * x / 2 ^ 53" using y(2) by simp
  with d x0 show ?thesis unfolding y_def [symmetric] p_def [symmetric] abs_le_iff
    by (simp add: field_simps)
qed

lemma util_ratio_error:
  fixes c t :: u64
  assumes "unat c < 2 ^ 53" "unat t < 2 ^ 53" "0 < unat t"
  defines "x \<equiv> 100 * of_nat (unat c) / (of_nat (unat t) :: rat)"
  shows "\<exists>q. util_ratio c t = Fin q \<and> \<bar>q - x\<bar> \<le> x / 2 ^ 51"
proof (intro exI conjI)
  have "(of_nat (unat t) :: rat) \<noteq> 0" using assms(3) by (simp only: of_nat_eq_0_iff)
  then show "util_ratio c t = Fin (round_double (round_double (of_nat (unat c) * 100) / of_nat (unat t)))"
    unfolding util_ratio_def dbl_of_u64_def round_double_of_nat [OF assms(1)]
      round_double_of_nat [OF assms(2)] dbl_mult.simps dbl_div.simps by (simp only: if_False)
  show "\<bar>round_double (round_double (of_nat (unat c) * 100) / of_nat (unat t)) - x\<bar> \<le> x / 2 ^ 51"
    unfolding x_def using assms(3) by (rule ratio_error)
qed

text \<open>The printed text of a percentage.\<close>

lemma length_show_nat_le: "n < 10 ^ k \<Longrightarrow> 0 < k \<Longrightarrow> length (show_nat n) \<le> k"
  using length_show_base_le [of 10 n k] by (simp add: show_nat_def)

lemma round_even_le_int:
  assumes "q \<le> of_int k + 1 / 4"
  shows "round_even q \<le> k"
proof -
  have "of_int (round_even q) \<le> q + 1 / 2"
    using abs_ge_self [of "of_int (round_even q) - q"] round_even_error [of q] by linarith
  then have "of_int (round_even q) < (of_int (k + 1) :: rat)" using assms by simp
  then show ?thesis by (simp only: of_int_less_iff)
qed

lemma round_even_nonneg: "0 \<le> q \<Longrightarrow> 0 \<le> round_even q"
  by (simp add: round_even_def Let_def)

lemma show_f2_text:
  assumes "round_even (q * 100) = int h" "h \<le> 10000"
  shows "\<exists>w f. show_f2 (Fin q) = w @ ''.'' @ f \<and> length w = 3 \<and> length f = 2 \<and>
    w = replicate (3 - length (show_nat (h div 100))) (CHR ''0'') @ show_nat (h div 100) \<and>
    f = replicate (2 - length (show_nat (h mod 100))) (CHR ''0'') @ show_nat (h mod 100)"
proof -
  have w: "length (show_nat (h div 100)) \<le> 3" "length (show_nat (h mod 100)) \<le> 2"
    using assms(2) by (intro length_show_nat_le; simp)+
  then have "6 - (length (show_nat (h div 100)) + 3) = 3 - length (show_nat (h div 100))" by simp
  with w assms(1) show ?thesis by (simp add: show_f2_def Let_def)
qed

lemma util_ratio_hundredths:
  assumes "unat t < 2 ^ 53" "0 < unat t" "unat c \<le> unat t"
  shows "\<exists>h q. util_ratio c t = Fin q \<and> round_even (q * 100) = int h \<and> h \<le> 10000 \<and>
    \<bar>of_nat h - 10000 * of_nat (unat c) / (of_nat (unat t) :: rat)\<bar> \<le> 51 / 100"
proof -
  define x where "x = 100 * of_nat (unat c) / (of_nat (unat t) :: rat)"
  have le: "(of_nat (unat c) :: rat) \<le> of_nat (unat t)" "(0::rat) \<le> of_nat (unat c)" "(0::rat) < of_nat (unat t)"
    using assms(2,3) by (simp_all only: of_nat_le_iff of_nat_0_less_iff of_nat_0_le_iff)
  then have x: "x \<le> 100" "0 \<le> x" by (simp_all only: x_def pos_divide_le_eq, simp_all)
  obtain q where q: "util_ratio c t = Fin q" "\<bar>q - x\<bar> \<le> x / 2 ^ 51"
    using util_ratio_error [of c t] assms by (auto simp: x_def)
  from q(2) have "q - x \<le> x / 2 ^ 51" "x - q \<le> x / 2 ^ 51" by linarith+
  with x have d: "q - x \<le> 1 / 10000" "x - q \<le> 1 / 10000" "0 \<le> q" by (simp_all add: field_simps)
  have "0 \<le> round_even (q * 100)" using d(3) by (intro round_even_nonneg) simp
  then obtain h where h: "round_even (q * 100) = int h" by (metis nonneg_int_cases)
  have "round_even (q * 100) \<le> 10000" using d x by (intro round_even_le_int) simp
  with h have h1: "h \<le> 10000" by simp
  have "\<bar>of_nat h - q * 100\<bar> \<le> 1 / 2" using round_even_error [of "q * 100"] h by simp
  then have "\<bar>of_nat h - 100 * x\<bar> \<le> 51 / 100" using d by linarith
  moreover have "100 * x = 10000 * of_nat (unat c) / of_nat (unat t)" by (simp add: x_def)
  ultimately show ?thesis using h h1 q(1) by metis
qed

text \<open>
  C18. A percentage is printed right: for counts of at most 53 bits (the chips' have 48), the busy
  count not above a nonzero time base, \<open>%06.2f\<close> prints three digits, a point and two
  digits, which are a number of hundredths within 0.51 of the exact ratio, at most 100 percent.
\<close>

theorem percentage_text:
  assumes "unat t < 2 ^ 53" "0 < unat t" "unat c \<le> unat t"
  shows "\<exists>h w f. h \<le> 10000 \<and>
    \<bar>of_nat h - 10000 * of_nat (unat c) / (of_nat (unat t) :: rat)\<bar> \<le> 51 / 100 \<and>
    show_f2 (util_ratio c t) = w @ ''.'' @ f \<and> length w = 3 \<and> length f = 2 \<and>
    w = replicate (3 - length (show_nat (h div 100))) (CHR ''0'') @ show_nat (h div 100) \<and>
    f = replicate (2 - length (show_nat (h mod 100))) (CHR ''0'') @ show_nat (h mod 100)"
  using util_ratio_hundredths [OF assms] show_f2_text by metis

text \<open>One third.\<close>

theorem percentage_text_witness:
  "\<exists>h w f. h \<le> 10000 \<and> \<bar>of_nat h - 10000 * 1 / (3 :: rat)\<bar> \<le> 51 / 100 \<and>
    show_f2 (util_ratio 1 3) = w @ ''.'' @ f \<and> length w = 3 \<and> length f = 2"
  using percentage_text [of 3 1] by fastforce

text \<open>Such a text has six characters, and so have those of no time and of no counts at all.\<close>

lemma length_percentage:
  assumes "unat t < 2 ^ 53" "unat c \<le> unat t"
  shows "length (show_f2 (util_ratio c t)) = 6"
proof (cases "t = 0")
  case True
  then have "c = 0" using assms(2) by (simp add: unat_eq_0)
  then show ?thesis using True
    by (simp add: util_ratio_def dbl_of_u64_def round_double_def show_f2_def)
next
  case False
  then have "0 < unat t" by (simp add: unat_gt_0)
  with assms obtain h q where "util_ratio c t = Fin q" "round_even (q * 100) = int h" "h \<le> 10000"
    using util_ratio_hundredths [of t c] by blast
  then show ?thesis using show_f2_text [of q h] by auto
qed

lemma length_show_f2_0 [simp]: "length (show_f2 (Fin 0)) = 6"
  using show_f2_text [of 0 0] round_even_of_int [of 0] by auto

end
