(* ===== verification/Measure.thy ===== *)
theory Measure
  imports Display Doubles
begin

text \<open>
  The measurement, \<open>measure_utilization\<close> of src/pcitop.c: program the counters of the displayed
  adapters, then sample them a number of times, printing a row of percentages for each sample
  and the averages at the end.

  The handler of SIGINT sets \<open>time_to_quit\<close>, which is read before each sample only. The signal is blocked from the end of
  each sleep to the next; one that arrives then is handled before the sleep, with the same effect as in
  it, and \<open>os_sleep\<close> tells whether either happened. Before the first sample the signal is not blocked
  (\<open>os_early_sigint\<close>). The number of samples is an unsigned count
  the loop decrements, so the recursion is on it.
\<close>

section \<open>Operations on the displayed adapters\<close>

definition sigint_handler :: "'s tool \<Rightarrow> 's tool" where
  "sigint_handler t = t\<lparr>time_to_quit := 1\<rparr>"

fun each_displayed :: "(nat \<Rightarrow> 's tool \<Rightarrow> int \<times> 's tool) \<Rightarrow> nat list \<Rightarrow> 's tool \<Rightarrow> 's tool" where
  "each_displayed f [] t = t"
| "each_displayed f (i # is) t =
     each_displayed f is (if display (host_lba_list t ! i) \<noteq> 0 then snd (f i t) else t)"

fun collect_displayed :: "'s os \<Rightarrow> nat list \<Rightarrow> 's tool \<Rightarrow> 's tool outcome" where
  "collect_displayed os [] t = Ret t"
| "collect_displayed os (i # is) t =
     (if display (host_lba_list t ! i) \<noteq> 0
      then bind_o (hplba_collect os i t) (\<lambda>(_, t1). collect_displayed os is t1)
      else collect_displayed os is t)"

definition all_lbas :: "'s tool \<Rightarrow> nat list" where
  "all_lbas t = [0..<length (host_lba_list t)]"

section \<open>A row of percentages\<close>

definition UTIL_ROWS :: u32 where "UTIL_ROWS = 24 - 7 - 1"

definition util_column :: "dbl \<Rightarrow> bool \<Rightarrow> string" where
  "util_column util is_last =
     show_f2 util @ ''%'' @
     pad_str (COLUMN_DATA_WIDTH + (if is_last then 0 else COLUMN_SEP_WIDTH) - 7) '' ''"

text \<open>The counts of a sample are the differences to those of the sample before, modulo \<open>2 ^ 64\<close>.\<close>

definition sample_util :: "lba_info \<Rightarrow> dbl" where
  "sample_util l =
     (if in_use l \<noteq> 0 then util_ratio (counter l - prev_counter l) (timer l - prev_timer l) else Fin 0)"

definition average_util :: "lba_info \<Rightarrow> dbl" where
  "average_util l = (if in_use l \<noteq> 0 then util_ratio (counter l) (timer l) else Fin 0)"

definition remember_counts :: "lba_info \<Rightarrow> lba_info" where
  "remember_counts l = l\<lparr>prev_timer := timer l, prev_counter := counter l\<rparr>"

fun sample_columns :: "lba_info list \<Rightarrow> string \<times> lba_info list" where
  "sample_columns [] = ([], [])"
| "sample_columns (l # ls) =
     (let (x, ls') = sample_columns ls
      in if display l \<noteq> 0 then (util_column (sample_util l) (ls = []) @ x, remember_counts l # ls')
         else (x, l # ls'))"

fun average_columns :: "lba_info list \<Rightarrow> string" where
  "average_columns [] = []"
| "average_columns (l # ls) =
     (if display l \<noteq> 0 then util_column (average_util l) (ls = []) else []) @ average_columns ls"

text \<open>
  The row is written into the block \<open>line_results\<close> with a terminator, and printed from there.
\<close>

definition line_size :: "u32 \<Rightarrow> nat" where
  "line_size num_lbas = unat (LINE_WIDTH num_lbas + 1)"

definition print_line :: "nat \<Rightarrow> string \<Rightarrow> 's tool \<Rightarrow> 's tool outcome" where
  "print_line sz columns t =
     (let x = row_header '' '' @ columns
      in if length x + 1 > sz then Crash else Ret (emit (x @ [newline]) t))"

section \<open>The sampling loop\<close>

definition sample :: "'s os \<Rightarrow> char list \<Rightarrow> nat \<Rightarrow> u32 \<Rightarrow> 's tool \<Rightarrow> (u32 \<times> 's tool) outcome" where
  "sample os banner sz num_lines t =
     (let t1 = each_displayed (hplba_start os) (all_lbas t) t;
          (sig, s) = os_sleep os (timeout (options t1)) (os_st t1);
          t2 = t1\<lparr>os_st := s\<rparr>;
          t3 = (if sig then sigint_handler t2 else t2);
          t4 = each_displayed (hplba_stop os) (all_lbas t3) t3
      in bind_o (collect_displayed os (all_lbas t4) t4) (\<lambda>t5.
         bind_o (if num_lines = UTIL_ROWS then bind_o (puts banner t5) (\<lambda>t6. Ret (0, t6))
                 else Ret (num_lines, t5)) (\<lambda>(n, t6).
           let (x, ls) = sample_columns (host_lba_list t6)
           in bind_o (print_line sz x (t6\<lparr>host_lba_list := ls\<rparr>)) (\<lambda>t7. Ret (n + 1, t7)))))"

text \<open>The number of samples left when the loop ends: 0 unless it was interrupted.\<close>

fun sample_loop :: "'s os \<Rightarrow> char list \<Rightarrow> nat \<Rightarrow> nat \<Rightarrow> u32 \<Rightarrow> 's tool \<Rightarrow> (nat \<times> 's tool) outcome" where
  "sample_loop os banner sz 0 num_lines t = Ret (0, t)"
| "sample_loop os banner sz (Suc k) num_lines t =
     (if time_to_quit t \<noteq> 0 then Ret (Suc k, t)
      else bind_o (sample os banner sz num_lines t) (\<lambda>(n, t1). sample_loop os banner sz k n t1))"

definition interrupted_text :: "u64 \<Rightarrow> string" where
  "interrupted_text n =
     ''interrupted after '' @ show_nat (unat n) @ '' samples -- printing average results...'' @ [newline]"

definition measure_utilization :: "'s os \<Rightarrow> 's tool \<Rightarrow> 's tool outcome" where
  "measure_utilization os t =
     (let num_lbas = (ucast (num_lba_display (options t)) :: u32)
      in bind_o (build_banner os num_lbas t) (\<lambda>(b, t1).
           case b of
             None \<Rightarrow> Exit 1
           | Some banner \<Rightarrow>
               (let (ok, s) = os_malloc os (line_size num_lbas) (os_st t1); t2 = t1\<lparr>os_st := s\<rparr>
                in if \<not> ok then Exit 1
                   else let t3 = each_displayed (hplba_op_init os) (all_lbas t2) t2;
                            t4 = each_displayed (hplba_reset os) (all_lbas t3) t3;
                            t5 = (if os_early_sigint os then sigint_handler t4 else t4)
                        in bind_o (sample_loop os banner (line_size num_lbas)
                                     (unat (nsamples (options t5))) UTIL_ROWS t5) (\<lambda>(k, t6).
                           let t7 = (if k \<noteq> 0
                                     then emit (interrupted_text (nsamples (options t6) - word_of_nat k)) t6
                                     else t6)
                           in bind_o (puts banner t7) (\<lambda>t8.
                                print_line (line_size num_lbas) (average_columns (host_lba_list t8)) t8)))))"

end
