(* ===== verification/Pcitop.thy ===== *)
theory Pcitop
  imports Measure
begin

text \<open>
  The program pcitop, src/pcitop.c: the search for a network interface, the command line, and
  \<open>main\<close>. What \<open>getopt_long\<close> returns, one item after the other, is a parameter.
\<close>

section \<open>The adapter of a network interface\<close>

text \<open>
  The buffers are those of the code: eight bytes for the interface's name, filled by an unbounded
  \<open>%s\<close>, and thirteen for the address.
\<close>

fun find_interface_entries :: "string list \<Rightarrow> string \<Rightarrow> int outcome" where
  "find_interface_entries [] ifname = Ret 0"
| "find_interface_entries (d_name # ds) ifname =
     (case scan_lits ''net:'' d_name of
        None \<Rightarrow> find_interface_entries ds ifname
      | Some r \<Rightarrow>
          (let netname = takeWhile (\<lambda>c. \<not> is_space c) (skip_space r)
           in if netname = [] then find_interface_entries ds ifname
              else if length netname + 1 > 8 then Crash
              else if streq netname ifname then Ret 1
              else find_interface_entries ds ifname))"

definition find_interface_in_dir :: "'s os \<Rightarrow> string \<Rightarrow> string \<Rightarrow> 's tool \<Rightarrow> int outcome" where
  "find_interface_in_dir os dirname ifname t =
     (case os_dir os dirname (os_st t) of
        None \<Rightarrow> Ret 0
      | Some ds \<Rightarrow> find_interface_entries ds ifname)"

text \<open>The format \<open>pci%d:%x\<close>, when both are converted.\<close>

definition scan_pci_dir :: "string \<Rightarrow> (int \<times> u32) option" where
  "scan_pci_dir s =
     Option.bind (scan_lits ''pci'' s) (\<lambda>r.
     Option.bind (scan_d r) (\<lambda>(domain, r1).
     Option.bind (scan_lit (CHR '':'') r1) (\<lambda>r2.
     Option.bind (scan_x r2) (\<lambda>(bus, _). Some (domain, bus)))))"

fun pci_dir_loop :: "'s os \<Rightarrow> string list \<Rightarrow> string \<Rightarrow> string \<Rightarrow> 's tool \<Rightarrow> int outcome" where
  "pci_dir_loop os [] dirname ifname t = Ret 0"
| "pci_dir_loop os (d # ds) dirname ifname t =
     bind_o (find_interface_in_dir os (take (PATH_MAX - 2) (dirname @ ''/'' @ d)) ifname t)
       (\<lambda>found. if found \<noteq> 0 then Ret 1 else pci_dir_loop os ds dirname ifname t)"

fun devices_loop :: "'s os \<Rightarrow> string list \<Rightarrow> string \<Rightarrow> 's tool \<Rightarrow> (int \<times> string) outcome" where
  "devices_loop os [] ifname t = Ret (- 1, [])"
| "devices_loop os (d # ds) ifname t =
     (case scan_pci_dir d of
        None \<Rightarrow> devices_loop os ds ifname t
      | Some (domain, bus) \<Rightarrow>
          (let dirname = take (PATH_MAX - 2) (''/sys/devices'' @ ''/'' @ d)
           in case os_dir os dirname (os_st t) of
                None \<Rightarrow> devices_loop os ds ifname t
              | Some es \<Rightarrow>
                  bind_o (pci_dir_loop os es dirname ifname t) (\<lambda>found.
                    if found \<noteq> 0 then
                      (let lspci = show_hex0 4 (unat (word_of_int domain :: u32)) @ '':'' @
                                   show_hex0 2 (unat bus) @ '':'' @ show_hex0 2 0 @ '','' @ show_hex0 1 0
                       in if length lspci + 1 > 13 then Crash else Ret (1, lspci))
                    else devices_loop os ds ifname t)))"

definition find_interface :: "'s os \<Rightarrow> string \<Rightarrow> 's tool \<Rightarrow> (int \<times> string) outcome" where
  "find_interface os ifname t =
     (case os_dir os ''/sys/devices'' (os_st t) of
        None \<Rightarrow> Ret (- 1, [])
      | Some ds \<Rightarrow> devices_loop os ds ifname t)"

section \<open>The command line\<close>

text \<open>
  \<open>strtol(s, NULL, 0)\<close>: hexadecimal after \<open>0x\<close> and a digit, octal after a zero, decimal otherwise.
\<close>

definition strtol0 :: "string \<Rightarrow> int" where
  "strtol0 s =
     (let (neg, u) = read_sign (skip_space s);
          n = (case u of
                 c # d # r \<Rightarrow>
                   (if c = CHR ''0'' \<and> (d = CHR ''x'' \<or> d = CHR ''X'') \<and> \<not> no_digit 16 r
                    then fst (read_base 16 0 r)
                    else if c = CHR ''0'' then fst (read_base 8 0 u) else fst (read_base 10 0 u))
               | _ \<Rightarrow> fst (read_base 10 0 u))
      in clamp_long neg n)"

definition strtoul10 :: "string \<Rightarrow> u64" where
  "strtoul10 s = (case scan_lu s of Some (n, _) \<Rightarrow> n | None \<Rightarrow> 0)"

text \<open>
  A result of \<open>getopt_long\<close>: a long option that sets a flag by itself (the result is 0), or a
  code with the option's argument.
\<close>

datatype opt_item = Flag_verbose | Flag_debug | Opt_char char string | Opt_code nat string

definition strdup :: "'s os \<Rightarrow> string \<Rightarrow> 's tool \<Rightarrow> string option \<times> 's tool" where
  "strdup os x t =
     (let (ok, s) = os_malloc os (length x + 1) (os_st t)
      in (if ok then Some x else None, t\<lparr>os_st := s\<rparr>))"

definition set_options :: "(pcitop_options \<Rightarrow> pcitop_options) \<Rightarrow> 's tool \<Rightarrow> 's tool" where
  "set_options f t = t\<lparr>options := f (options t)\<rparr>"

definition usage_lines :: "(string \<times> nat \<times> string) list" where
  "usage_lines =
     [(''-h, -?, --help'', 2, ''this help message''),
      (''-a'', 3, ''logically 'and' the display filters''),
      (''-A chassis'', 2, ''display buses in chAssis''),
      (''-B bay'', 3, ''display buses in Bay''),
      (''-b bus'', 3, ''display buses matching bus''),
      (''-C cabinet'', 2, ''display buses in Cabinet''),
      (''-D domain'', 2, ''display buses in PCI Domain''),
      (''-o'', 3, ''logically 'or' the display filters''),
      (''-P lspci '', 2, ''display bus matching 'lspci-esque' pci address''),
      (''-S slot'', 3, ''display buses matching slot number''),
      (''-v,--verbose'', 2, ''verbose mode''),
      (''-V,--version'', 2, ''print version''),
      (''-i,--info'', 2, ''print bus information only''),
      (''-t,--timeout'', 2, ''set print interval in seconds [default 1s]''),
      (''-c num'', 3, ''number of samples [default 60]'')]"

definition usage :: "'s tool \<Rightarrow> 's tool outcome" where
  "usage t =
     bind_o (or_crash (program_name t)) (\<lambda>prog.
       Ret (emit (''usage: '' @ prog @ '' [OPTIONS]'' @ [newline] @
         concat (map (\<lambda>(o1, n, x). o1 @ replicate n (CHR 0x09) @ x @ [newline]) usage_lines)) t))"

text \<open>
  The options \<open>main\<close> starts from (the rest of the static structure is zero), and the effect of one
  result of \<open>getopt_long\<close>. \<open>--help\<close> and \<open>--version\<close> end the process.
\<close>

definition init_options :: "pcitop_options \<Rightarrow> pcitop_options" where
  "init_options op =
     op\<lparr>num_lba := 0, num_lba_display := 0, opt_match_bus := - 1, opt_match_domain := - 1,
        opt_match_and := 1, opt_match_or := 0, opt_match_cabinet := None, opt_match_bay := None,
        opt_match_chassis := None, opt_match_slot := None\<rparr>"

definition take_option :: "'s os \<Rightarrow> opt_item \<Rightarrow> 's tool \<Rightarrow> 's tool outcome" where
  "take_option os c t =
     (case c of
        Flag_verbose \<Rightarrow> Ret (set_options (opt_verbose_update (\<lambda>_. 1)) t)
      | Flag_debug \<Rightarrow> Ret (set_options (opt_debug_update (\<lambda>_. 1)) t)
      | Opt_code n optarg \<Rightarrow>
          (if n = 1 then bind_o (usage t) (\<lambda>_. Exit 0)
           else if n = 2 then Exit 0
           else if n = 3 then Ret (set_options (timeout_update (\<lambda>_. atoi optarg)) t)
           else if n = 4 then Ret (set_options (opt_show_info_update (\<lambda>_. 1)) t)
           else Exit 1)
      | Opt_char ch optarg \<Rightarrow>
          (if ch = CHR ''A'' then let (x, t1) = strdup os optarg t
             in Ret (set_options (opt_match_chassis_update (\<lambda>_. x)) t1)
           else if ch = CHR ''a''
           then Ret (set_options (\<lambda>op. op\<lparr>opt_match_and := 1, opt_match_or := 0\<rparr>) t)
           else if ch = CHR ''v'' then Ret (set_options (opt_verbose_update (\<lambda>_. 1)) t)
           else if ch = CHR ''B'' then let (x, t1) = strdup os optarg t
             in Ret (set_options (opt_match_bay_update (\<lambda>_. x)) t1)
           else if ch = CHR ''b''
           then Ret (set_options (opt_match_bus_update (\<lambda>_. to_int (strtol0 optarg))) t)
           else if ch = CHR ''C'' then let (x, t1) = strdup os optarg t
             in Ret (set_options (opt_match_cabinet_update (\<lambda>_. x)) t1)
           else if ch = CHR ''c'' then Ret (set_options (nsamples_update (\<lambda>_. strtoul10 optarg)) t)
           else if ch = CHR ''D''
           then Ret (set_options (opt_match_domain_update (\<lambda>_. to_int (strtol0 optarg))) t)
           else if ch = CHR ''d'' then Ret (set_options (opt_debug_update (\<lambda>_. 1)) t)
           else if ch = CHR ''I'' then bind_o (find_interface os optarg t) (\<lambda>(r, my_lspci).
             if r = 1 then let (x, t1) = strdup os my_lspci t
                           in Ret (set_options (opt_match_lspci_update (\<lambda>_. x)) t1)
             else Ret t)
           else if ch = CHR ''o''
           then Ret (set_options (\<lambda>op. op\<lparr>opt_match_or := 1, opt_match_and := 0\<rparr>) t)
           else if ch = CHR ''P'' then let (x, t1) = strdup os optarg t
             in Ret (set_options (opt_match_lspci_update (\<lambda>_. x)) t1)
           else if ch = CHR ''S'' then let (x, t1) = strdup os optarg t
             in Ret (set_options (opt_match_slot_update (\<lambda>_. x)) t1)
           else if ch = CHR ''h'' \<or> ch = CHR ''?'' then bind_o (usage t) (\<lambda>_. Exit 0)
           else if ch = CHR ''t'' then Ret (set_options (timeout_update (\<lambda>_. atoi optarg)) t)
           else if ch = CHR ''i'' then Ret (set_options (opt_show_info_update (\<lambda>_. 1)) t)
           else if ch = CHR ''V'' then Exit 0
           else Exit 1))"

fun take_options :: "'s os \<Rightarrow> opt_item list \<Rightarrow> 's tool \<Rightarrow> 's tool outcome" where
  "take_options os [] t = Ret t"
| "take_options os (c # cs) t = bind_o (take_option os c t) (take_options os cs)"

section \<open>The main program\<close>

definition junk_address :: "'s os \<Rightarrow> 's \<Rightarrow> char list" where
  "junk_address os s =
     take SLOT_ADDRESS_LEN (os_fresh os SLOT_ADDRESS_LEN s @ zeroed SLOT_ADDRESS_LEN)"

definition build_tree :: "'s os \<Rightarrow> 's tool \<Rightarrow> 's tool outcome" where
  "build_tree os t =
     bind_o (or_crash (create_sysfs_pci_tree os (junk_address os (os_st t)) (tree t) t))
       (\<lambda>(_, tr, t1). Ret (t1\<lparr>tree := tr\<rparr>))"

text \<open>\<open>main\<close> from the end of the command line on.\<close>

definition main_body :: "'s os \<Rightarrow> 's tool \<Rightarrow> (int \<times> 's tool) outcome" where
  "main_body os t =
     (if os_euid os \<noteq> 0 then Exit 1
      else bind_o (drivers_loaded os t) (\<lambda>ok.
        if ok = 0 then Exit 1
        else
          let t1 = (if nsamples (options t) = 0 then set_options (nsamples_update (\<lambda>_. 60)) t else t);
              t2 = t1\<lparr>sys_info := snd (integrity_init_sys_info (sys_info t1))\<rparr>
          in bind_o (build_tree os t2) (\<lambda>t3.
             bind_o (init_lbas os t3) (\<lambda>(r, t4).
               if r \<noteq> 0 then Exit 1
               else bind_o (filter_lbas os t4) (\<lambda>t5.
                 if opt_show_info (options t5) \<noteq> 0
                 then bind_o (show_all_root_info t5) (\<lambda>t6. Ret (0, t6))
                 else if num_lba (options t5) = 0 then Exit 1
                 else let t6 = (if timeout (options t5) = 0
                                then set_options (timeout_update (\<lambda>_. 1)) t5 else t5)
                      in if num_lba_display (options t6) = 0 then Exit 1
                         else bind_o (measure_utilization os t6) (\<lambda>t7. Ret (0, t7)))))))"

definition main_prog :: "'s os \<Rightarrow> string \<Rightarrow> opt_item list \<Rightarrow> 's tool \<Rightarrow> (int \<times> 's tool) outcome" where
  "main_prog os argv0 args t =
     (let t1 = set_options init_options (set_program_name argv0 t)
      in bind_o (take_options os args t1) (main_body os))"

text \<open>The static variables at the start of the process.\<close>

definition start_tool :: "'s \<Rightarrow> 's tool" where
  "start_tool s =
     \<lparr>os_st = s, prg_name = zeroed PATH_MAX, read_buf = False,
      options =
        \<lparr>opt_verbose = 0, opt_debug = 0, opt_show_info = 0, opt_match_bus = 0, opt_match_domain = 0,
         opt_match_and = 0, opt_match_or = 0, opt_match_cabinet = None, opt_match_bay = None,
         opt_match_chassis = None, opt_match_slot = None, opt_match_lspci = None, num_lba = 0,
         num_lba_display = 0, nsamples = 0, timeout = 0\<rparr>,
      time_to_quit = 0, host_lba_list = [],
      sys_info = \<lparr>num_cabinets = 0, cabinet_list = [], num_bays = 0, bay_list = [],
                   num_chassis = 0, chassis_list = [], num_slots = 0\<rparr>,
      tree = empty_tree, collect_buf = False, stdout = []\<rparr>"

end
