(* ===== verification/Regs.thy ===== *)
theory Regs
  imports Prelude
begin

text \<open>
  Register access (the macros and inline functions of drivers/hplba.h, lines 172-207).

  The device registers live in the kernel's I/O address space. A \<open>mmio\<close> state holds the
  64-bit cell at every address and the log of the accesses made so far, oldest first; the
  kernel's \<open>readq\<close>, \<open>writeq\<close>, \<open>readl\<close> and \<open>writel\<close> are the primitive accesses on it
  (little-endian: a 32-bit access to an address with bit 2 set is to the upper half of the
  cell). A register is named in the sources by four macros (offset, \<open>_SHIFT\<close>, \<open>_MASK\<close>,
  \<open>_SIZE\<close>), a \<open>reg\<close> here.
\<close>

section \<open>The I/O space\<close>

datatype mmio_event =
    Readl addr
  | Writel addr u32
  | Readq addr
  | Writeq addr u64

record mmio =
  cells :: "addr \<Rightarrow> u64"
  mmio_log :: "mmio_event list"

definition log_event :: "mmio_event \<Rightarrow> mmio \<Rightarrow> mmio" where
  "log_event e m = m\<lparr>mmio_log := mmio_log m @ [e]\<rparr>"

definition readq :: "addr \<Rightarrow> mmio \<Rightarrow> u64 \<times> mmio" where
  "readq a m = (cells m a, log_event (Readq a) m)"

definition writeq :: "u64 \<Rightarrow> addr \<Rightarrow> mmio \<Rightarrow> mmio" where
  "writeq v a m = log_event (Writeq a v) (m\<lparr>cells := (cells m)(a := v)\<rparr>)"

definition readl :: "addr \<Rightarrow> mmio \<Rightarrow> u32 \<times> mmio" where
  "readl a m =
     (ucast (drop_bit (if bit a 2 then 32 else 0) (cells m (a AND NOT 4))),
      log_event (Readl a) m)"

definition writel :: "u32 \<Rightarrow> addr \<Rightarrow> mmio \<Rightarrow> mmio" where
  "writel v a m =
     (let s = (if bit a 2 then 32 else 0);
          c = cells m (a AND NOT 4);
          c' = (c AND NOT (push_bit s 0xffffffff)) OR push_bit s (ucast v)
      in log_event (Writel a v) (m\<lparr>cells := (cells m)(a AND NOT 4 := c')\<rparr>))"

section \<open>Register descriptors and fields\<close>

record reg =
  reg_off :: u64
  reg_shift :: nat
  reg_mask :: u64
  reg_size :: nat

text \<open>The macro \<open>LBA_REG\<close>: shift the register down and mask it.\<close>

definition lba_reg :: "addr \<Rightarrow> reg \<Rightarrow> mmio \<Rightarrow> u64 \<times> mmio" where
  "lba_reg phys_addr r m =
     (if reg_size r = 32
      then let (c, m1) = readl (phys_addr + reg_off r) m
           in (ucast (drop_bit (reg_shift r) c) AND reg_mask r, m1)
      else let (c, m1) = readq (phys_addr + reg_off r) m
           in (drop_bit (reg_shift r) c AND reg_mask r, m1))"

definition lba_reg32_write ::
  "addr \<Rightarrow> u64 \<Rightarrow> nat \<Rightarrow> u32 \<Rightarrow> u32 \<Rightarrow> mmio \<Rightarrow> mmio" where
  "lba_reg32_write phys_addr offset shift msk value m =
     (let (c, m1) = readl (phys_addr + offset) m;
          contents = (c AND NOT (push_bit shift msk)) XOR push_bit shift value;
          m2 = writel contents (phys_addr + offset) m1;
          (_, m3) = readl (phys_addr + offset) m2
      in m3)"

definition lba_reg64_write ::
  "addr \<Rightarrow> u64 \<Rightarrow> nat \<Rightarrow> u64 \<Rightarrow> u64 \<Rightarrow> mmio \<Rightarrow> mmio" where
  "lba_reg64_write phys_addr offset shift msk value m =
     (let (c, m1) = readq (phys_addr + offset) m;
          contents = (c AND NOT (push_bit shift msk)) XOR push_bit shift value;
          m2 = writeq contents (phys_addr + offset) m1;
          (_, m3) = readq (phys_addr + offset) m2
      in m3)"

text \<open>The macro \<open>LBA_REG_WRITE\<close>.\<close>

definition lba_reg_write :: "addr \<Rightarrow> reg \<Rightarrow> u64 \<Rightarrow> mmio \<Rightarrow> mmio" where
  "lba_reg_write phys_addr r value m =
     (if reg_size r = 32
      then lba_reg32_write phys_addr (reg_off r) (reg_shift r) (ucast (reg_mask r))
             (ucast value) m
      else lba_reg64_write phys_addr (reg_off r) (reg_shift r) (reg_mask r) value m)"

definition LBA_FUNC_ID :: reg where
  "LBA_FUNC_ID = \<lparr>reg_off = 0x00, reg_shift = 16, reg_mask = 0xffff, reg_size = 64\<rparr>"

section \<open>Facts about register access\<close>

text \<open>What a field of a 64-bit register holds, as a pure function of the state.\<close>

definition field_val :: "addr \<Rightarrow> reg \<Rightarrow> mmio \<Rightarrow> u64" where
  "field_val phys_addr r m =
     drop_bit (reg_shift r) (cells m (phys_addr + reg_off r)) AND reg_mask r"

text \<open>
  A descriptor is well formed when it is for a 64-bit register and its mask, shifted into
  place, still lies inside it.
\<close>

definition reg_ok :: "reg \<Rightarrow> bool" where
  "reg_ok r \<longleftrightarrow> reg_size r = 64 \<and>
     drop_bit (reg_shift r) (push_bit (reg_shift r) (reg_mask r)) = reg_mask r"

lemma log_event_simps [simp]:
  "cells (log_event e m) = cells m"
  "mmio_log (log_event e m) = mmio_log m @ [e]"
  by (simp_all add: log_event_def)

lemma lba_reg_eq [reg_simps]:
  "reg_size r = 64 \<Longrightarrow>
   lba_reg b r m = (field_val b r m, log_event (Readq (b + reg_off r)) m)"
  by (simp add: lba_reg_def readq_def field_val_def)

lemma field_val_log [simp]: "field_val b r (log_event e m) = field_val b r m"
  by (simp add: field_val_def)

text \<open>The read-modify-write of a field, as one step: new cell contents and three accesses.\<close>

lemma lba_reg_write_eq:
  "reg_size r = 64 \<Longrightarrow>
   lba_reg_write b r v m =
     (let a = b + reg_off r;
          c = (cells m a AND NOT (push_bit (reg_shift r) (reg_mask r))) XOR push_bit (reg_shift r) v
      in \<lparr>cells = (cells m)(a := c),
          mmio_log = mmio_log m @ [Readq a, Writeq a c, Readq a]\<rparr>)"
  by (cases m) (simp add: lba_reg_write_def lba_reg64_write_def readq_def writeq_def
      log_event_def Let_def)

lemma lba_reg_write_get [reg_simps]:
  assumes "reg_ok r" "v AND reg_mask r = v"
  shows "field_val b r (lba_reg_write b r v m) = v"
  using assms field_insert_get [of v "reg_mask r" "reg_shift r"]
  by (simp add: reg_ok_def lba_reg_write_eq field_val_def Let_def)

lemma lba_reg_write_cells_other [reg_simps]:
  assumes "reg_size r = 64" "a \<noteq> b + reg_off r"
  shows "cells (lba_reg_write b r v m) a = cells m a"
  using assms by (simp add: lba_reg_write_eq Let_def)

lemma lba_reg_write_field_other [reg_simps]:
  assumes "reg_size r = 64" "b' + reg_off r' \<noteq> b + reg_off r"
  shows "field_val b' r' (lba_reg_write b r v m) = field_val b' r' m"
  using assms by (simp add: lba_reg_write_eq field_val_def Let_def)

text \<open>The accesses of a field write: read, write, and the read back that flushes the write.\<close>

lemma lba_reg_write_log:
  assumes "reg_ok r" "v AND reg_mask r = v"
  shows "\<exists>c. mmio_log (lba_reg_write b r v m) = mmio_log m @
      [Readq (b + reg_off r), Writeq (b + reg_off r) c, Readq (b + reg_off r)] \<and>
    drop_bit (reg_shift r) c AND reg_mask r = v"
  using assms field_insert_get [of v "reg_mask r" "reg_shift r"]
  by (simp add: reg_ok_def lba_reg_write_eq Let_def)

text \<open>Writing a field leaves every disjoint field of the same register as it was.\<close>

lemma lba_reg_write_same_cell:
  assumes "reg_ok r" "v AND reg_mask r = v" "reg_ok r'" "reg_off r' = reg_off r"
    and "push_bit (reg_shift r) (reg_mask r) AND push_bit (reg_shift r') (reg_mask r') = 0"
  shows "field_val b r' (lba_reg_write b r v m) = field_val b r' m"
  using assms field_insert_other [of v "reg_mask r" "reg_shift r" "reg_shift r'" "reg_mask r'"]
  by (simp add: reg_ok_def lba_reg_write_eq field_val_def Let_def)

end
