(* ===== verification/LbaOps.thy ===== *)
theory LbaOps
  imports Regs Tables
begin

text \<open>
  The operations table of a local bus adapter chip (struct lba_util_ops and struct lba_ops of
  drivers/hplba.h), and the contract the driver relies on when it calls through it: a locale,
  interpreted on the operations of each of the three chips in \<open>Apollo\<close>, \<open>Gemini\<close> and \<open>Mercury\<close>.

  An operation takes the mapped address of the chip's registers and the I/O space. A \<open>char *\<close>
  result is a \<open>string option\<close>, \<open>None\<close> for a null pointer.
\<close>

record lba_util_ops =
  util_init :: "addr \<Rightarrow> mmio \<Rightarrow> int \<times> mmio"
  util_reset :: "addr \<Rightarrow> mmio \<Rightarrow> int \<times> mmio"
  util_start :: "addr \<Rightarrow> mmio \<Rightarrow> int \<times> mmio"
  util_stop :: "addr \<Rightarrow> mmio \<Rightarrow> int \<times> mmio"

record lba_ops =
  revision :: "addr \<Rightarrow> mmio \<Rightarrow> string option \<times> mmio"
  bus_op_mode :: "addr \<Rightarrow> mmio \<Rightarrow> string option \<times> mmio"
  bus_speed :: "addr \<Rightarrow> mmio \<Rightarrow> string option \<times> mmio"
  ropes :: "addr \<Rightarrow> mmio \<Rightarrow> int \<times> mmio"
  utilization :: "addr \<Rightarrow> mmio \<Rightarrow> (int \<times> u64 \<times> u64) \<times> mmio"
  util_ops :: lba_util_ops

text \<open>\<open>snprintf\<close> into a buffer of \<open>n\<close> bytes: at most \<open>n - 1\<close> characters and the terminator.\<close>

definition snprintf :: "nat \<Rightarrow> string \<Rightarrow> string" where
  "snprintf n s = take (n - 1) s"

definition REVISION_SIZE :: nat where "REVISION_SIZE = 6"

section \<open>The contract of a chip\<close>

text \<open>
  A chip has an enable field (0 stops the counters), an always-count field, a control field that
  selects what is counted, and a timer and a counter field, all in different registers. The four
  utilization operations succeed and leave a fixed value in the enable field; initialisation
  also programs the always-count and control fields, and the other three touch the enable
  register only. The remaining operations only read.
\<close>

definition reads_only :: "(addr \<Rightarrow> mmio \<Rightarrow> 'r \<times> mmio) \<Rightarrow> bool" where
  "reads_only f \<longleftrightarrow> (\<forall>b m. cells (snd (f b m)) = cells m)"

definition writes_within :: "u64 list \<Rightarrow> (addr \<Rightarrow> mmio \<Rightarrow> 'r \<times> mmio) \<Rightarrow> bool" where
  "writes_within offs f \<longleftrightarrow>
     (\<forall>b m a. (\<forall>off \<in> set offs. a \<noteq> b + off) \<longrightarrow> cells (snd (f b m)) a = cells m a)"

text \<open>The value each state of the driver's state machine leaves in the enable field.\<close>

fun en0_of :: "util_state \<Rightarrow> u64" where
  "en0_of LBA_UTILSTATE_INIT = 0"
| "en0_of LBA_UTILSTATE_RESET = 0xf"
| "en0_of LBA_UTILSTATE_START = 0x3"
| "en0_of LBA_UTILSTATE_STOP = 0"
| "en0_of LBA_UTILSTATE_UNK = 0"

text \<open>The operation that runs when a state is entered.\<close>

fun util_op :: "lba_util_ops \<Rightarrow> util_state \<Rightarrow> addr \<Rightarrow> mmio \<Rightarrow> int \<times> mmio" where
  "util_op u LBA_UTILSTATE_INIT b m = util_init u b m"
| "util_op u LBA_UTILSTATE_RESET b m = util_reset u b m"
| "util_op u LBA_UTILSTATE_START b m = util_start u b m"
| "util_op u LBA_UTILSTATE_STOP b m = util_stop u b m"
| "util_op u LBA_UTILSTATE_UNK b m = (- EINVAL, m)"

locale lba_chip =
  fixes ops :: lba_ops and en0 always ctrl1 timer cntr :: reg and ctrl1_val :: u64
  assumes offs_distinct: "distinct (map reg_off [en0, always, ctrl1, timer, cntr])"
    and op_ret: "s \<noteq> LBA_UTILSTATE_UNK \<Longrightarrow> fst (util_op (util_ops ops) s b m) = 0"
    and op_en0: "s \<noteq> LBA_UTILSTATE_UNK \<Longrightarrow>
      field_val b en0 (snd (util_op (util_ops ops) s b m)) = en0_of s"
    and init_always: "field_val b always (snd (util_init (util_ops ops) b m)) = 1"
    and init_ctrl1: "field_val b ctrl1 (snd (util_init (util_ops ops) b m)) = ctrl1_val"
    and init_frame: "writes_within (map reg_off [en0, always, ctrl1]) (util_init (util_ops ops))"
    and other_frame: "s \<noteq> LBA_UTILSTATE_INIT \<Longrightarrow>
      writes_within [reg_off en0] (util_op (util_ops ops) s)"
    and utilization_val: "fst (utilization ops b m) = (0, field_val b timer m, field_val b cntr m)"
    and show_frames: "reads_only (revision ops)" "reads_only (bus_op_mode ops)"
      "reads_only (bus_speed ops)" "reads_only (ropes ops)" "reads_only (utilization ops)"
begin

text \<open>What the driver sees of a programmed chip.\<close>

definition programmed :: "addr \<Rightarrow> mmio \<Rightarrow> bool" where
  "programmed b m \<longleftrightarrow> field_val b always m = 1 \<and> field_val b ctrl1 m = ctrl1_val"

lemma op_frame: "writes_within (map reg_off [en0, always, ctrl1]) (util_op (util_ops ops) s)"
proof (cases "s = LBA_UTILSTATE_INIT")
  case True
  with init_frame show ?thesis by (simp add: writes_within_def)
next
  case False
  with other_frame [of s] show ?thesis by (simp add: writes_within_def)
qed

text \<open>The counts survive every utilization operation: only the hardware changes them.\<close>

lemma counts_kept:
  "field_val b timer (snd (util_op (util_ops ops) s b m)) = field_val b timer m"
  "field_val b cntr (snd (util_op (util_ops ops) s b m)) = field_val b cntr m"
  using op_frame [of s] offs_distinct by (auto simp: writes_within_def field_val_def)

text \<open>After initialisation the chip is programmed, and it stays so.\<close>

lemma init_programmed: "programmed b (snd (util_op (util_ops ops) LBA_UTILSTATE_INIT b m))"
  by (simp add: programmed_def init_always init_ctrl1)

lemma programmed_kept:
  assumes "programmed b m"
  shows "programmed b (snd (util_op (util_ops ops) s b m))"
proof (cases "s = LBA_UTILSTATE_INIT")
  case True
  then show ?thesis by (simp only: init_programmed)
next
  case False
  with other_frame [of s] offs_distinct
  have "field_val b always (snd (util_op (util_ops ops) s b m)) = field_val b always m"
    "field_val b ctrl1 (snd (util_op (util_ops ops) s b m)) = field_val b ctrl1 m"
    by (auto simp: writes_within_def field_val_def)
  with assms show ?thesis by (simp add: programmed_def)
qed

end

section \<open>Tools for the chips' proofs\<close>

lemma reads_onlyI: "(\<And>b m. cells (snd (f b m)) = cells m) \<Longrightarrow> reads_only f"
  by (simp add: reads_only_def)

lemma writes_withinI:
  "(\<And>b m a. (\<forall>off \<in> set offs. a \<noteq> b + off) \<Longrightarrow> cells (snd (f b m)) a = cells m a) \<Longrightarrow>
   writes_within offs f"
  by (simp add: writes_within_def)

lemma length_show_nat_1: "n < 10 \<Longrightarrow> length (show_nat n) = 1"
  by (simp add: show_nat_def show_base.simps)

lemma length_show_nat_le2: "n < 100 \<Longrightarrow> length (show_nat n) \<le> 2"
  using length_show_base_le [of 10 n 2] by (simp add: show_nat_def)

text \<open>Two numbers below 16 always fit the revision buffer, so nothing is cut off.\<close>

lemma revision_fits:
  assumes "major AND 0xf = (major :: u64)" "minor AND 0xf = (minor :: u64)"
  shows "snprintf REVISION_SIZE (show_nat (unat major) @ ''.'' @ show_nat (unat minor))
    = show_nat (unat major) @ ''.'' @ show_nat (unat minor)"
proof -
  have "unat major < 100" "unat minor < 100"
    using unat_and_le [of major "0xf"] unat_and_le [of minor "0xf"] assms by simp_all
  then have "length (show_nat (unat major)) \<le> 2" "length (show_nat (unat minor)) \<le> 2"
    by (simp_all add: length_show_nat_le2)
  then show ?thesis by (simp add: snprintf_def REVISION_SIZE_def)
qed

lemma field_val_mask [simp]: "field_val b r m AND reg_mask r = field_val b r m"
  by (simp add: field_val_def and.assoc)

end
