(* ===== verification/Apollo.thy ===== *)
theory Apollo
  imports LbaOps
begin

text \<open>
  The PCIe chip: drivers/apollo.h (registers) and drivers/apollo.c (operations).
\<close>

section \<open>Registers\<close>

definition APOLLO_FUNC_ID :: u64 where "APOLLO_FUNC_ID = 0x4037"

definition APOLLO_MAJOR_REVISION :: reg where
  "APOLLO_MAJOR_REVISION = \<lparr>reg_off = 0x0008, reg_shift = 4, reg_mask = 0xf, reg_size = 64\<rparr>"
definition APOLLO_MINOR_REVISION :: reg where
  "APOLLO_MINOR_REVISION = \<lparr>reg_off = 0x0008, reg_shift = 0, reg_mask = 0xf, reg_size = 64\<rparr>"
definition APOLLO_ROPE_2X_L :: reg where
  "APOLLO_ROPE_2X_L = \<lparr>reg_off = 0x0610, reg_shift = 8, reg_mask = 0x1, reg_size = 64\<rparr>"
definition APOLLO_ROPE_4X_L :: reg where
  "APOLLO_ROPE_4X_L = \<lparr>reg_off = 0x0610, reg_shift = 9, reg_mask = 0x1, reg_size = 64\<rparr>"
definition APOLLO_MAX_LINK_WIDTH :: reg where
  "APOLLO_MAX_LINK_WIDTH = \<lparr>reg_off = 0x0670, reg_shift = 24, reg_mask = 0x3, reg_size = 64\<rparr>"
definition APOLLO_DIAG_EN0 :: reg where
  "APOLLO_DIAG_EN0 = \<lparr>reg_off = 0x0500, reg_shift = 0, reg_mask = 0xf, reg_size = 64\<rparr>"
definition APOLLO_CTRL0A_ALWAYS_CNT :: reg where
  "APOLLO_CTRL0A_ALWAYS_CNT = \<lparr>reg_off = 0x0508, reg_shift = 0, reg_mask = 0x1, reg_size = 64\<rparr>"
definition APOLLO_DIAG_CTRL1 :: reg where
  "APOLLO_DIAG_CTRL1 = \<lparr>reg_off = 0x0538, reg_shift = 33, reg_mask = 0x3, reg_size = 64\<rparr>"
definition APOLLO_DIAG_CTRL0_TIMER :: reg where
  "APOLLO_DIAG_CTRL0_TIMER =
     \<lparr>reg_off = 0x0550, reg_shift = 0, reg_mask = 0xffffffffffff, reg_size = 64\<rparr>"
definition APOLLO_DIAG_CTRL1_CNTR1 :: reg where
  "APOLLO_DIAG_CTRL1_CNTR1 =
     \<lparr>reg_off = 0x0558, reg_shift = 0, reg_mask = 0xffffffffffff, reg_size = 64\<rparr>"

lemmas apollo_regs =
  APOLLO_MAJOR_REVISION_def APOLLO_MINOR_REVISION_def APOLLO_ROPE_2X_L_def APOLLO_ROPE_4X_L_def
  APOLLO_MAX_LINK_WIDTH_def APOLLO_DIAG_EN0_def APOLLO_CTRL0A_ALWAYS_CNT_def
  APOLLO_DIAG_CTRL1_def APOLLO_DIAG_CTRL0_TIMER_def APOLLO_DIAG_CTRL1_CNTR1_def

section \<open>Operations\<close>

definition apollo_revision :: "addr \<Rightarrow> mmio \<Rightarrow> string option \<times> mmio" where
  "apollo_revision phys_addr m =
     (let (major, m1) = lba_reg phys_addr APOLLO_MAJOR_REVISION m;
          (minor, m2) = lba_reg phys_addr APOLLO_MINOR_REVISION m1
      in (Some (snprintf REVISION_SIZE (show_nat (unat major) @ ''.'' @ show_nat (unat minor))), m2))"

definition apollo_bus_op_mode :: "addr \<Rightarrow> mmio \<Rightarrow> string option \<times> mmio" where
  "apollo_bus_op_mode phys_addr m =
     (Some (snd (drv_bus_op_modes_tab ! op_mode_index LBA_PCIE)), m)"

definition apollo_bus_speed :: "addr \<Rightarrow> mmio \<Rightarrow> string option \<times> mmio" where
  "apollo_bus_speed phys_addr m =
     (let (w, m1) = lba_reg phys_addr APOLLO_MAX_LINK_WIDTH m;
          width = (ucast w :: u32);
          name = (if width = 0 then Some (snd (drv_bus_speeds_tab ! speed_index LBA_X8))
                  else if width = 1 then Some (snd (drv_bus_speeds_tab ! speed_index LBA_X1))
                  else if width = 2 then Some (snd (drv_bus_speeds_tab ! speed_index LBA_X2))
                  else if width = 3 then Some (snd (drv_bus_speeds_tab ! speed_index LBA_X4))
                  else None)
      in (name, m1))"

definition apollo_ropes :: "addr \<Rightarrow> mmio \<Rightarrow> int \<times> mmio" where
  "apollo_ropes phys_addr m =
     (let (l4, m1) = lba_reg phys_addr APOLLO_ROPE_4X_L m
      in if l4 = 0 then (4, m1)
         else let (l2, m2) = lba_reg phys_addr APOLLO_ROPE_2X_L m1
              in if l2 = 0 then (2, m2) else (1, m2))"

definition apollo_util_init :: "addr \<Rightarrow> mmio \<Rightarrow> int \<times> mmio" where
  "apollo_util_init phys_addr m =
     (let m1 = lba_reg_write phys_addr APOLLO_DIAG_EN0 0 m;
          m2 = lba_reg_write phys_addr APOLLO_CTRL0A_ALWAYS_CNT 0x1 m1;
          m3 = lba_reg_write phys_addr APOLLO_DIAG_CTRL1 0x3 m2
      in (0, m3))"

definition apollo_util_reset :: "addr \<Rightarrow> mmio \<Rightarrow> int \<times> mmio" where
  "apollo_util_reset phys_addr m = (0, lba_reg_write phys_addr APOLLO_DIAG_EN0 0xf m)"

definition apollo_util_start :: "addr \<Rightarrow> mmio \<Rightarrow> int \<times> mmio" where
  "apollo_util_start phys_addr m = (0, lba_reg_write phys_addr APOLLO_DIAG_EN0 0x3 m)"

definition apollo_util_stop :: "addr \<Rightarrow> mmio \<Rightarrow> int \<times> mmio" where
  "apollo_util_stop phys_addr m = (0, lba_reg_write phys_addr APOLLO_DIAG_EN0 0x0 m)"

definition apollo_utilization :: "addr \<Rightarrow> mmio \<Rightarrow> (int \<times> u64 \<times> u64) \<times> mmio" where
  "apollo_utilization phys_addr m =
     (let (t, m1) = lba_reg phys_addr APOLLO_DIAG_CTRL0_TIMER m;
          (c, m2) = lba_reg phys_addr APOLLO_DIAG_CTRL1_CNTR1 m1
      in ((0, t, c), m2))"

definition apollo_util_ops :: lba_util_ops where
  "apollo_util_ops =
     \<lparr>util_init = apollo_util_init, util_reset = apollo_util_reset,
      util_start = apollo_util_start, util_stop = apollo_util_stop\<rparr>"

definition apollo_ops :: lba_ops where
  "apollo_ops =
     \<lparr>revision = apollo_revision, bus_op_mode = apollo_bus_op_mode,
      bus_speed = apollo_bus_speed, ropes = apollo_ropes,
      utilization = apollo_utilization, util_ops = apollo_util_ops\<rparr>"

lemmas apollo_op_defs =
  apollo_revision_def apollo_bus_op_mode_def apollo_bus_speed_def apollo_ropes_def
  apollo_util_init_def apollo_util_reset_def apollo_util_start_def apollo_util_stop_def
  apollo_utilization_def apollo_util_ops_def apollo_ops_def

section \<open>The chip meets its contract\<close>

lemma apollo_reg_ok [simp]:
  "reg_ok APOLLO_DIAG_EN0" "reg_ok APOLLO_CTRL0A_ALWAYS_CNT" "reg_ok APOLLO_DIAG_CTRL1"
  "reg_ok APOLLO_DIAG_CTRL0_TIMER" "reg_ok APOLLO_DIAG_CTRL1_CNTR1"
  by (simp_all add: reg_ok_def apollo_regs)

lemma apollo_offs [simp]:
  "reg_off APOLLO_MAJOR_REVISION = 0x0008"
  "reg_off APOLLO_MINOR_REVISION = 0x0008"
  "reg_off APOLLO_ROPE_2X_L = 0x0610"
  "reg_off APOLLO_ROPE_4X_L = 0x0610"
  "reg_off APOLLO_MAX_LINK_WIDTH = 0x0670"
  "reg_off APOLLO_DIAG_EN0 = 0x0500"
  "reg_off APOLLO_CTRL0A_ALWAYS_CNT = 0x0508"
  "reg_off APOLLO_DIAG_CTRL1 = 0x0538"
  "reg_off APOLLO_DIAG_CTRL0_TIMER = 0x0550"
  "reg_off APOLLO_DIAG_CTRL1_CNTR1 = 0x0558"
  by (simp_all add: apollo_regs)

lemma apollo_masks [simp]:
  "reg_mask APOLLO_MAJOR_REVISION = 0xf"
  "reg_mask APOLLO_MINOR_REVISION = 0xf"
  "reg_mask APOLLO_ROPE_2X_L = 0x1"
  "reg_mask APOLLO_ROPE_4X_L = 0x1"
  "reg_mask APOLLO_MAX_LINK_WIDTH = 0x3"
  "reg_mask APOLLO_DIAG_EN0 = 0xf"
  "reg_mask APOLLO_CTRL0A_ALWAYS_CNT = 0x1"
  "reg_mask APOLLO_DIAG_CTRL1 = 0x3"
  "reg_mask APOLLO_DIAG_CTRL0_TIMER = 0xffffffffffff"
  "reg_mask APOLLO_DIAG_CTRL1_CNTR1 = 0xffffffffffff"
  by (simp_all add: apollo_regs)

lemma apollo_sizes [simp]:
  "reg_size APOLLO_MAJOR_REVISION = 64"
  "reg_size APOLLO_MINOR_REVISION = 64"
  "reg_size APOLLO_ROPE_2X_L = 64"
  "reg_size APOLLO_ROPE_4X_L = 64"
  "reg_size APOLLO_MAX_LINK_WIDTH = 64"
  "reg_size APOLLO_DIAG_EN0 = 64"
  "reg_size APOLLO_CTRL0A_ALWAYS_CNT = 64"
  "reg_size APOLLO_DIAG_CTRL1 = 64"
  "reg_size APOLLO_DIAG_CTRL0_TIMER = 64"
  "reg_size APOLLO_DIAG_CTRL1_CNTR1 = 64"
  by (simp_all add: apollo_regs)

lemma apollo_op_en0:
  "s \<noteq> LBA_UTILSTATE_UNK \<Longrightarrow>
   field_val b APOLLO_DIAG_EN0 (snd (util_op (util_ops apollo_ops) s b m)) = en0_of s"
  by (cases s) (simp_all add: apollo_op_defs reg_simps)

interpretation apollo: lba_chip apollo_ops APOLLO_DIAG_EN0 APOLLO_CTRL0A_ALWAYS_CNT APOLLO_DIAG_CTRL1
  APOLLO_DIAG_CTRL0_TIMER APOLLO_DIAG_CTRL1_CNTR1 "0x3"
proof unfold_locales
  fix s b m
  show "s \<noteq> LBA_UTILSTATE_UNK \<Longrightarrow> fst (util_op (util_ops apollo_ops) s b m) = 0"
    by (cases s) (simp_all add: apollo_op_defs)
  show "s \<noteq> LBA_UTILSTATE_INIT \<Longrightarrow>
      writes_within [reg_off APOLLO_DIAG_EN0] (util_op (util_ops apollo_ops) s)"
    by (cases s) (auto simp: apollo_op_defs reg_simps intro!: writes_withinI)
next
  fix s b m
  assume "s \<noteq> LBA_UTILSTATE_UNK"
  then show "field_val b APOLLO_DIAG_EN0 (snd (util_op (util_ops apollo_ops) s b m)) = en0_of s"
    by (rule apollo_op_en0)
qed (auto simp: apollo_op_defs reg_simps Let_def intro!: reads_onlyI writes_withinI)

end
