(* ===== verification/Gemini.thy ===== *)
theory Gemini
  imports LbaOps
begin

text \<open>
  The PCI/PCI-X chip with PCI-X 2 modes: drivers/gemini.h (registers) and drivers/gemini.c
  (operations). A mask of \<open>-1\<close> is all ones.
\<close>

section \<open>Registers\<close>

definition GEMINI_FUNC_ID :: u64 where "GEMINI_FUNC_ID = 0x12ee"

definition GEMINI_MAJOR_REVISION :: reg where
  "GEMINI_MAJOR_REVISION = \<lparr>reg_off = 0x0008, reg_shift = 4, reg_mask = 0xf, reg_size = 64\<rparr>"
definition GEMINI_MINOR_REVISION :: reg where
  "GEMINI_MINOR_REVISION = \<lparr>reg_off = 0x0008, reg_shift = 0, reg_mask = 0xf, reg_size = 64\<rparr>"
definition GEMINI_ROPE_4X_L :: reg where
  "GEMINI_ROPE_4X_L = \<lparr>reg_off = 0x0620, reg_shift = 6, reg_mask = 0x1, reg_size = 64\<rparr>"
definition GEMINI_ROPE_2X_L :: reg where
  "GEMINI_ROPE_2X_L = \<lparr>reg_off = 0x0620, reg_shift = 5, reg_mask = 0x1, reg_size = 64\<rparr>"
definition GEMINI_BUS_OP_MODE :: reg where
  "GEMINI_BUS_OP_MODE = \<lparr>reg_off = 0x0620, reg_shift = 13, reg_mask = 0x7, reg_size = 64\<rparr>"
definition GEMINI_BUS_MODE :: reg where
  "GEMINI_BUS_MODE = \<lparr>reg_off = 0x0620, reg_shift = 0, reg_mask = -1, reg_size = 64\<rparr>"
definition GEMINI_DIAG_EN0 :: reg where
  "GEMINI_DIAG_EN0 = \<lparr>reg_off = 0x0500, reg_shift = 0, reg_mask = 0xf, reg_size = 64\<rparr>"
definition GEMINI_CTRL0A_ALWAYS_CNT :: reg where
  "GEMINI_CTRL0A_ALWAYS_CNT = \<lparr>reg_off = 0x0508, reg_shift = 0, reg_mask = 0x1, reg_size = 64\<rparr>"
definition GEMINI_DIAG_CTRL1 :: reg where
  "GEMINI_DIAG_CTRL1 = \<lparr>reg_off = 0x0528, reg_shift = 0, reg_mask = -1, reg_size = 64\<rparr>"
definition GEMINI_DIAG_CTRL0_TIMER :: reg where
  "GEMINI_DIAG_CTRL0_TIMER = \<lparr>reg_off = 0x0530, reg_shift = 0, reg_mask = 0xffffffffffff, reg_size = 64\<rparr>"
definition GEMINI_DIAG_CTRL1_CNTR1 :: reg where
  "GEMINI_DIAG_CTRL1_CNTR1 = \<lparr>reg_off = 0x0538, reg_shift = 0, reg_mask = 0xffffffffffff, reg_size = 64\<rparr>"

lemmas gemini_regs =
  GEMINI_MAJOR_REVISION_def
  GEMINI_MINOR_REVISION_def
  GEMINI_ROPE_4X_L_def
  GEMINI_ROPE_2X_L_def
  GEMINI_BUS_OP_MODE_def
  GEMINI_BUS_MODE_def
  GEMINI_DIAG_EN0_def
  GEMINI_CTRL0A_ALWAYS_CNT_def
  GEMINI_DIAG_CTRL1_def
  GEMINI_DIAG_CTRL0_TIMER_def
  GEMINI_DIAG_CTRL1_CNTR1_def

section \<open>Operations\<close>

definition gemini_revision :: "addr \<Rightarrow> mmio \<Rightarrow> string option \<times> mmio" where
  "gemini_revision phys_addr m =
     (let (major, m1) = lba_reg phys_addr GEMINI_MAJOR_REVISION m;
          (minor, m2) = lba_reg phys_addr GEMINI_MINOR_REVISION m1
      in (Some (snprintf REVISION_SIZE (show_nat (unat major) @ ''.'' @ show_nat (unat minor))), m2))"

definition gemini_bus_op_mode :: "addr \<Rightarrow> mmio \<Rightarrow> string option \<times> mmio" where
  "gemini_bus_op_mode phys_addr m =
     (let (bus_mode, m1) = lba_reg phys_addr GEMINI_BUS_OP_MODE m;
          bus_op_mode = (if bus_mode = 0 then LBA_PCI
                         else if bus_mode = 1 \<or> bus_mode = 2 \<or> bus_mode = 3 then LBA_PCI_X
                         else if bus_mode = 4 \<or> bus_mode = 5 then LBA_PCI_X_ECC
                         else if bus_mode = 6 \<or> bus_mode = 7 then LBA_PCI_X2_ECC
                         else LBA_UNK_TYPE)
      in (Some (snd (drv_bus_op_modes_tab ! op_mode_index bus_op_mode)), m1))"

definition gemini_bus_speed :: "addr \<Rightarrow> mmio \<Rightarrow> string option \<times> mmio" where
  "gemini_bus_speed phys_addr m =
     (let (pci_bus_mode, m1) = lba_reg phys_addr GEMINI_BUS_OP_MODE m;
          speed = (if pci_bus_mode = 0 then LBA_66MHZ
                   else if pci_bus_mode = 1 then LBA_100MHZ
                   else if pci_bus_mode = 2 then LBA_66MHZ
                   else if pci_bus_mode = 3 then LBA_133MHZ
                   else if pci_bus_mode = 4 then LBA_66MHZ
                   else if pci_bus_mode = 5 then LBA_133MHZ
                   else if pci_bus_mode = 6 then LBA_133MHZ
                   else if pci_bus_mode = 7 then LBA_266MHZ
                   else LBA_UNK_SPEED)
      in (Some (snd (drv_bus_speeds_tab ! speed_index speed)), m1))"

definition gemini_ropes :: "addr \<Rightarrow> mmio \<Rightarrow> int \<times> mmio" where
  "gemini_ropes phys_addr m =
     (let (l4, m1) = lba_reg phys_addr GEMINI_ROPE_4X_L m
      in if l4 = 0 then (4, m1)
         else let (l2, m2) = lba_reg phys_addr GEMINI_ROPE_2X_L m1
              in if l2 = 0 then (2, m2) else (1, m2))"

definition gemini_util_init :: "addr \<Rightarrow> mmio \<Rightarrow> int \<times> mmio" where
  "gemini_util_init phys_addr m =
     (let m1 = lba_reg_write phys_addr GEMINI_DIAG_EN0 0 m;
          m2 = lba_reg_write phys_addr GEMINI_CTRL0A_ALWAYS_CNT 0x1 m1;
          m3 = lba_reg_write phys_addr GEMINI_DIAG_CTRL1 0x797900ff001f043c m2
      in (0, m3))"

definition gemini_util_reset :: "addr \<Rightarrow> mmio \<Rightarrow> int \<times> mmio" where
  "gemini_util_reset phys_addr m = (0, lba_reg_write phys_addr GEMINI_DIAG_EN0 0xf m)"

definition gemini_util_start :: "addr \<Rightarrow> mmio \<Rightarrow> int \<times> mmio" where
  "gemini_util_start phys_addr m = (0, lba_reg_write phys_addr GEMINI_DIAG_EN0 0x3 m)"

definition gemini_util_stop :: "addr \<Rightarrow> mmio \<Rightarrow> int \<times> mmio" where
  "gemini_util_stop phys_addr m = (0, lba_reg_write phys_addr GEMINI_DIAG_EN0 0x0 m)"

definition gemini_utilization :: "addr \<Rightarrow> mmio \<Rightarrow> (int \<times> u64 \<times> u64) \<times> mmio" where
  "gemini_utilization phys_addr m =
     (let (t, m1) = lba_reg phys_addr GEMINI_DIAG_CTRL0_TIMER m;
          (c, m2) = lba_reg phys_addr GEMINI_DIAG_CTRL1_CNTR1 m1
      in ((0, t, c), m2))"

definition gemini_util_ops :: lba_util_ops where
  "gemini_util_ops =
     \<lparr>util_init = gemini_util_init, util_reset = gemini_util_reset,
      util_start = gemini_util_start, util_stop = gemini_util_stop\<rparr>"

definition gemini_ops :: lba_ops where
  "gemini_ops =
     \<lparr>revision = gemini_revision, bus_op_mode = gemini_bus_op_mode,
      bus_speed = gemini_bus_speed, ropes = gemini_ropes,
      utilization = gemini_utilization, util_ops = gemini_util_ops\<rparr>"

lemmas gemini_op_defs =
  gemini_revision_def gemini_bus_op_mode_def gemini_bus_speed_def gemini_ropes_def
  gemini_util_init_def gemini_util_reset_def gemini_util_start_def gemini_util_stop_def
  gemini_utilization_def gemini_util_ops_def gemini_ops_def

section \<open>The chip meets its contract\<close>

lemma gemini_reg_ok [simp]:
  "reg_ok GEMINI_DIAG_EN0" "reg_ok GEMINI_CTRL0A_ALWAYS_CNT" "reg_ok GEMINI_DIAG_CTRL1"
  "reg_ok GEMINI_DIAG_CTRL0_TIMER" "reg_ok GEMINI_DIAG_CTRL1_CNTR1"
  by (simp_all add: reg_ok_def gemini_regs)

lemma gemini_offs [simp]:
  "reg_off GEMINI_MAJOR_REVISION = 0x0008"
  "reg_off GEMINI_MINOR_REVISION = 0x0008"
  "reg_off GEMINI_ROPE_4X_L = 0x0620"
  "reg_off GEMINI_ROPE_2X_L = 0x0620"
  "reg_off GEMINI_BUS_OP_MODE = 0x0620"
  "reg_off GEMINI_BUS_MODE = 0x0620"
  "reg_off GEMINI_DIAG_EN0 = 0x0500"
  "reg_off GEMINI_CTRL0A_ALWAYS_CNT = 0x0508"
  "reg_off GEMINI_DIAG_CTRL1 = 0x0528"
  "reg_off GEMINI_DIAG_CTRL0_TIMER = 0x0530"
  "reg_off GEMINI_DIAG_CTRL1_CNTR1 = 0x0538"
  by (simp_all add: gemini_regs)

lemma gemini_masks [simp]:
  "reg_mask GEMINI_MAJOR_REVISION = 0xf"
  "reg_mask GEMINI_MINOR_REVISION = 0xf"
  "reg_mask GEMINI_ROPE_4X_L = 0x1"
  "reg_mask GEMINI_ROPE_2X_L = 0x1"
  "reg_mask GEMINI_BUS_OP_MODE = 0x7"
  "reg_mask GEMINI_BUS_MODE = -1"
  "reg_mask GEMINI_DIAG_EN0 = 0xf"
  "reg_mask GEMINI_CTRL0A_ALWAYS_CNT = 0x1"
  "reg_mask GEMINI_DIAG_CTRL1 = -1"
  "reg_mask GEMINI_DIAG_CTRL0_TIMER = 0xffffffffffff"
  "reg_mask GEMINI_DIAG_CTRL1_CNTR1 = 0xffffffffffff"
  by (simp_all add: gemini_regs)

lemma gemini_sizes [simp]:
  "reg_size GEMINI_MAJOR_REVISION = 64"
  "reg_size GEMINI_MINOR_REVISION = 64"
  "reg_size GEMINI_ROPE_4X_L = 64"
  "reg_size GEMINI_ROPE_2X_L = 64"
  "reg_size GEMINI_BUS_OP_MODE = 64"
  "reg_size GEMINI_BUS_MODE = 64"
  "reg_size GEMINI_DIAG_EN0 = 64"
  "reg_size GEMINI_CTRL0A_ALWAYS_CNT = 64"
  "reg_size GEMINI_DIAG_CTRL1 = 64"
  "reg_size GEMINI_DIAG_CTRL0_TIMER = 64"
  "reg_size GEMINI_DIAG_CTRL1_CNTR1 = 64"
  by (simp_all add: gemini_regs)

lemma gemini_op_en0:
  "s \<noteq> LBA_UTILSTATE_UNK \<Longrightarrow>
   field_val b GEMINI_DIAG_EN0 (snd (util_op (util_ops gemini_ops) s b m)) = en0_of s"
  by (cases s) (simp_all add: gemini_op_defs reg_simps)

interpretation gemini: lba_chip gemini_ops GEMINI_DIAG_EN0 GEMINI_CTRL0A_ALWAYS_CNT GEMINI_DIAG_CTRL1
  GEMINI_DIAG_CTRL0_TIMER GEMINI_DIAG_CTRL1_CNTR1 "0x797900ff001f043c"
proof unfold_locales
  fix s b m
  show "s \<noteq> LBA_UTILSTATE_UNK \<Longrightarrow> fst (util_op (util_ops gemini_ops) s b m) = 0"
    by (cases s) (simp_all add: gemini_op_defs)
  show "s \<noteq> LBA_UTILSTATE_INIT \<Longrightarrow>
      writes_within [reg_off GEMINI_DIAG_EN0] (util_op (util_ops gemini_ops) s)"
    by (cases s) (auto simp: gemini_op_defs reg_simps intro!: writes_withinI)
next
  fix s b m
  assume "s \<noteq> LBA_UTILSTATE_UNK"
  then show "field_val b GEMINI_DIAG_EN0 (snd (util_op (util_ops gemini_ops) s b m)) = en0_of s"
    by (rule gemini_op_en0)
qed (auto simp: gemini_op_defs reg_simps Let_def intro!: reads_onlyI writes_withinI)

end
