(* ===== verification/Mercury.thy ===== *)
theory Mercury
  imports LbaOps
begin

text \<open>
  The PCI/PCI-X/AGP chip: drivers/mercury.h (registers) and drivers/mercury.c (operations).
  A mask of \<open>-1\<close> is all ones.
\<close>

section \<open>Registers\<close>

definition MERCURY_FUNC_ID :: u64 where "MERCURY_FUNC_ID = 0x122e"

definition MERCURY_MAJOR_REVISION :: reg where
  "MERCURY_MAJOR_REVISION = \<lparr>reg_off = 0x0008, reg_shift = 4, reg_mask = 0xf, reg_size = 64\<rparr>"
definition MERCURY_MINOR_REVISION :: reg where
  "MERCURY_MINOR_REVISION = \<lparr>reg_off = 0x0008, reg_shift = 0, reg_mask = 0xf, reg_size = 64\<rparr>"
definition MERCURY_ROPE_2X_L :: reg where
  "MERCURY_ROPE_2X_L = \<lparr>reg_off = 0x0610, reg_shift = 8, reg_mask = 0x1, reg_size = 64\<rparr>"
definition MERCURY_AGP_BUS_MODE :: reg where
  "MERCURY_AGP_BUS_MODE = \<lparr>reg_off = 0x0620, reg_shift = 0, reg_mask = 0x1, reg_size = 64\<rparr>"
definition MERCURY_BUS_OP_MODE :: reg where
  "MERCURY_BUS_OP_MODE = \<lparr>reg_off = 0x0620, reg_shift = 13, reg_mask = 0x3, reg_size = 64\<rparr>"
definition MERCURY_AGP_DATA_RATE :: reg where
  "MERCURY_AGP_DATA_RATE = \<lparr>reg_off = 0x0068, reg_shift = 0, reg_mask = 0x7, reg_size = 64\<rparr>"
definition MERCURY_DIAG_EN0 :: reg where
  "MERCURY_DIAG_EN0 = \<lparr>reg_off = 0x0500, reg_shift = 0, reg_mask = 0xf, reg_size = 64\<rparr>"
definition MERCURY_CTRL0A_ALWAYS_CNT :: reg where
  "MERCURY_CTRL0A_ALWAYS_CNT = \<lparr>reg_off = 0x0508, reg_shift = 0, reg_mask = 0x1, reg_size = 64\<rparr>"
definition MERCURY_DIAG_CTRL1 :: reg where
  "MERCURY_DIAG_CTRL1 = \<lparr>reg_off = 0x0510, reg_shift = 0, reg_mask = -1, reg_size = 64\<rparr>"
definition MERCURY_DIAG_CTRL0_TIMER :: reg where
  "MERCURY_DIAG_CTRL0_TIMER = \<lparr>reg_off = 0x0518, reg_shift = 0, reg_mask = 0xffffffffffff, reg_size = 64\<rparr>"
definition MERCURY_DIAG_CTRL1_CNTR1 :: reg where
  "MERCURY_DIAG_CTRL1_CNTR1 = \<lparr>reg_off = 0x0520, reg_shift = 0, reg_mask = 0xffffffffffff, reg_size = 64\<rparr>"

lemmas mercury_regs =
  MERCURY_MAJOR_REVISION_def
  MERCURY_MINOR_REVISION_def
  MERCURY_ROPE_2X_L_def
  MERCURY_AGP_BUS_MODE_def
  MERCURY_BUS_OP_MODE_def
  MERCURY_AGP_DATA_RATE_def
  MERCURY_DIAG_EN0_def
  MERCURY_CTRL0A_ALWAYS_CNT_def
  MERCURY_DIAG_CTRL1_def
  MERCURY_DIAG_CTRL0_TIMER_def
  MERCURY_DIAG_CTRL1_CNTR1_def

section \<open>Operations\<close>

definition mercury_revision :: "addr \<Rightarrow> mmio \<Rightarrow> string option \<times> mmio" where
  "mercury_revision phys_addr m =
     (let (major, m1) = lba_reg phys_addr MERCURY_MAJOR_REVISION m;
          (minor, m2) = lba_reg phys_addr MERCURY_MINOR_REVISION m1
      in (Some (snprintf REVISION_SIZE (show_nat (unat major) @ ''.'' @ show_nat (unat minor))), m2))"

definition mercury_bus_op_mode :: "addr \<Rightarrow> mmio \<Rightarrow> string option \<times> mmio" where
  "mercury_bus_op_mode phys_addr m =
     (let (agp_mode, m1) = lba_reg phys_addr MERCURY_AGP_BUS_MODE m
      in if agp_mode \<noteq> 0 then (Some (snd (drv_bus_op_modes_tab ! op_mode_index LBA_AGP)), m1)
         else let (bus_mode, m2) = lba_reg phys_addr MERCURY_BUS_OP_MODE m1;
                  bus_op_mode = (if bus_mode = 0 then LBA_PCI
                                 else if bus_mode = 1 \<or> bus_mode = 2 \<or> bus_mode = 3 then LBA_PCI_X
                                 else LBA_UNK_TYPE)
              in (Some (snd (drv_bus_op_modes_tab ! op_mode_index bus_op_mode)), m2))"

definition mercury_bus_speed :: "addr \<Rightarrow> mmio \<Rightarrow> string option \<times> mmio" where
  "mercury_bus_speed phys_addr m =
     (let (agp_bus_mode, m1) = lba_reg phys_addr MERCURY_AGP_BUS_MODE m
      in if agp_bus_mode \<noteq> 0
         then let (data_rate, m2) = lba_reg phys_addr MERCURY_AGP_DATA_RATE m1;
                  speed = (if data_rate = 1 then LBA_AGP_1X
                           else if data_rate = 2 then LBA_AGP_2X
                           else if data_rate = 4 then LBA_AGP_4X
                           else LBA_UNK_SPEED)
              in (Some (snd (drv_bus_speeds_tab ! speed_index speed)), m2)
         else let (pci_bus_mode, m2) = lba_reg phys_addr MERCURY_BUS_OP_MODE m1;
                  speed = (if pci_bus_mode = 0 then LBA_66MHZ
                           else if pci_bus_mode = 1 then LBA_100MHZ
                           else if pci_bus_mode = 2 then LBA_66MHZ
                           else if pci_bus_mode = 3 then LBA_133MHZ
                           else LBA_UNK_SPEED)
              in (Some (snd (drv_bus_speeds_tab ! speed_index speed)), m2))"

definition mercury_ropes :: "addr \<Rightarrow> mmio \<Rightarrow> int \<times> mmio" where
  "mercury_ropes phys_addr m =
     (let (l2, m1) = lba_reg phys_addr MERCURY_ROPE_2X_L m
      in if l2 = 0 then (2, m1) else (1, m1))"

definition mercury_util_init :: "addr \<Rightarrow> mmio \<Rightarrow> int \<times> mmio" where
  "mercury_util_init phys_addr m =
     (let m1 = lba_reg_write phys_addr MERCURY_DIAG_EN0 0 m;
          m2 = lba_reg_write phys_addr MERCURY_CTRL0A_ALWAYS_CNT 0x1 m1;
          m3 = lba_reg_write phys_addr MERCURY_DIAG_CTRL1 0x797900ff001f043c m2
      in (0, m3))"

definition mercury_util_reset :: "addr \<Rightarrow> mmio \<Rightarrow> int \<times> mmio" where
  "mercury_util_reset phys_addr m = (0, lba_reg_write phys_addr MERCURY_DIAG_EN0 0xf m)"

definition mercury_util_start :: "addr \<Rightarrow> mmio \<Rightarrow> int \<times> mmio" where
  "mercury_util_start phys_addr m = (0, lba_reg_write phys_addr MERCURY_DIAG_EN0 0x3 m)"

definition mercury_util_stop :: "addr \<Rightarrow> mmio \<Rightarrow> int \<times> mmio" where
  "mercury_util_stop phys_addr m = (0, lba_reg_write phys_addr MERCURY_DIAG_EN0 0x0 m)"

definition mercury_utilization :: "addr \<Rightarrow> mmio \<Rightarrow> (int \<times> u64 \<times> u64) \<times> mmio" where
  "mercury_utilization phys_addr m =
     (let (t, m1) = lba_reg phys_addr MERCURY_DIAG_CTRL0_TIMER m;
          (c, m2) = lba_reg phys_addr MERCURY_DIAG_CTRL1_CNTR1 m1
      in ((0, t, c), m2))"

definition mercury_util_ops :: lba_util_ops where
  "mercury_util_ops =
     \<lparr>util_init = mercury_util_init, util_reset = mercury_util_reset,
      util_start = mercury_util_start, util_stop = mercury_util_stop\<rparr>"

definition mercury_ops :: lba_ops where
  "mercury_ops =
     \<lparr>revision = mercury_revision, bus_op_mode = mercury_bus_op_mode,
      bus_speed = mercury_bus_speed, ropes = mercury_ropes,
      utilization = mercury_utilization, util_ops = mercury_util_ops\<rparr>"

lemmas mercury_op_defs =
  mercury_revision_def mercury_bus_op_mode_def mercury_bus_speed_def mercury_ropes_def
  mercury_util_init_def mercury_util_reset_def mercury_util_start_def mercury_util_stop_def
  mercury_utilization_def mercury_util_ops_def mercury_ops_def

section \<open>The chip meets its contract\<close>

lemma mercury_reg_ok [simp]:
  "reg_ok MERCURY_DIAG_EN0" "reg_ok MERCURY_CTRL0A_ALWAYS_CNT" "reg_ok MERCURY_DIAG_CTRL1"
  "reg_ok MERCURY_DIAG_CTRL0_TIMER" "reg_ok MERCURY_DIAG_CTRL1_CNTR1"
  by (simp_all add: reg_ok_def mercury_regs)

lemma mercury_offs [simp]:
  "reg_off MERCURY_MAJOR_REVISION = 0x0008"
  "reg_off MERCURY_MINOR_REVISION = 0x0008"
  "reg_off MERCURY_ROPE_2X_L = 0x0610"
  "reg_off MERCURY_AGP_BUS_MODE = 0x0620"
  "reg_off MERCURY_BUS_OP_MODE = 0x0620"
  "reg_off MERCURY_AGP_DATA_RATE = 0x0068"
  "reg_off MERCURY_DIAG_EN0 = 0x0500"
  "reg_off MERCURY_CTRL0A_ALWAYS_CNT = 0x0508"
  "reg_off MERCURY_DIAG_CTRL1 = 0x0510"
  "reg_off MERCURY_DIAG_CTRL0_TIMER = 0x0518"
  "reg_off MERCURY_DIAG_CTRL1_CNTR1 = 0x0520"
  by (simp_all add: mercury_regs)

lemma mercury_masks [simp]:
  "reg_mask MERCURY_MAJOR_REVISION = 0xf"
  "reg_mask MERCURY_MINOR_REVISION = 0xf"
  "reg_mask MERCURY_ROPE_2X_L = 0x1"
  "reg_mask MERCURY_AGP_BUS_MODE = 0x1"
  "reg_mask MERCURY_BUS_OP_MODE = 0x3"
  "reg_mask MERCURY_AGP_DATA_RATE = 0x7"
  "reg_mask MERCURY_DIAG_EN0 = 0xf"
  "reg_mask MERCURY_CTRL0A_ALWAYS_CNT = 0x1"
  "reg_mask MERCURY_DIAG_CTRL1 = -1"
  "reg_mask MERCURY_DIAG_CTRL0_TIMER = 0xffffffffffff"
  "reg_mask MERCURY_DIAG_CTRL1_CNTR1 = 0xffffffffffff"
  by (simp_all add: mercury_regs)

lemma mercury_sizes [simp]:
  "reg_size MERCURY_MAJOR_REVISION = 64"
  "reg_size MERCURY_MINOR_REVISION = 64"
  "reg_size MERCURY_ROPE_2X_L = 64"
  "reg_size MERCURY_AGP_BUS_MODE = 64"
  "reg_size MERCURY_BUS_OP_MODE = 64"
  "reg_size MERCURY_AGP_DATA_RATE = 64"
  "reg_size MERCURY_DIAG_EN0 = 64"
  "reg_size MERCURY_CTRL0A_ALWAYS_CNT = 64"
  "reg_size MERCURY_DIAG_CTRL1 = 64"
  "reg_size MERCURY_DIAG_CTRL0_TIMER = 64"
  "reg_size MERCURY_DIAG_CTRL1_CNTR1 = 64"
  by (simp_all add: mercury_regs)

lemma mercury_op_en0:
  "s \<noteq> LBA_UTILSTATE_UNK \<Longrightarrow>
   field_val b MERCURY_DIAG_EN0 (snd (util_op (util_ops mercury_ops) s b m)) = en0_of s"
  by (cases s) (simp_all add: mercury_op_defs reg_simps)

interpretation mercury: lba_chip mercury_ops MERCURY_DIAG_EN0 MERCURY_CTRL0A_ALWAYS_CNT MERCURY_DIAG_CTRL1
  MERCURY_DIAG_CTRL0_TIMER MERCURY_DIAG_CTRL1_CNTR1 "0x797900ff001f043c"
proof unfold_locales
  fix s b m
  show "s \<noteq> LBA_UTILSTATE_UNK \<Longrightarrow> fst (util_op (util_ops mercury_ops) s b m) = 0"
    by (cases s) (simp_all add: mercury_op_defs)
  show "s \<noteq> LBA_UTILSTATE_INIT \<Longrightarrow>
      writes_within [reg_off MERCURY_DIAG_EN0] (util_op (util_ops mercury_ops) s)"
    by (cases s) (auto simp: mercury_op_defs reg_simps intro!: writes_withinI)
next
  fix s b m
  assume "s \<noteq> LBA_UTILSTATE_UNK"
  then show "field_val b MERCURY_DIAG_EN0 (snd (util_op (util_ops mercury_ops) s b m)) = en0_of s"
    by (rule mercury_op_en0)
qed (auto simp: mercury_op_defs reg_simps Let_def intro!: reads_onlyI writes_withinI)

end
