(* ===== verification/HplbaDrv.thy ===== *)
theory HplbaDrv
  imports Apollo Gemini Mercury
begin

text \<open>
  The driver core, drivers/hplba_drv.c, with the device registration of
  drivers/hplba_sysfs.c it calls (kernels from 2.6.26 on: the \<open>struct device\<close> branch of the
  version conditionals).

  The driver's state \<open>drv\<close> is its list of adapters, whether its device class is registered, the
  names of the devices registered in it, and the I/O space. What the ACPI and device layers of the kernel answer is a parameter, the
  record \<open>acpi_env\<close>. A probe that makes the kernel dereference a null pointer has the result
  \<open>None\<close>. Messages to the kernel log are not modelled.
\<close>

section \<open>Adapters and their operations\<close>

record lba =
  l_class_id :: string
  l_acpi_dev :: nat
  l_phys_addr :: addr
  l_segment :: u16
  l_util_state :: util_state
  l_ops :: lba_ops

definition lba_info_tab :: "(u64 \<times> lba_ops) list" where
  "lba_info_tab =
     [(APOLLO_FUNC_ID, apollo_ops), (GEMINI_FUNC_ID, gemini_ops), (MERCURY_FUNC_ID, mercury_ops)]"

fun lookup_ops :: "(u64 \<times> lba_ops) list \<Rightarrow> u64 \<Rightarrow> lba_ops option" where
  "lookup_ops [] function_id = None"
| "lookup_ops ((f, ops) # t) function_id =
     (if function_id = f then Some ops else lookup_ops t function_id)"

definition find_lba_ops :: "u64 \<Rightarrow> lba_ops option" where
  "find_lba_ops function_id = lookup_ops lba_info_tab function_id"

section \<open>The utilization state machine\<close>

text \<open>
  The first \<open>switch\<close> of \<open>set_util_state\<close>: which states a command is legal in. Both the field
  \<open>util_state\<close> and the argument only ever hold values of the enumeration (the field is set
  by the probe and by this function, the argument comes from \<open>hplba_util_state_to_value\<close>).
\<close>

fun check_transition :: "util_state \<Rightarrow> util_state \<Rightarrow> int" where
  "check_transition LBA_UTILSTATE_INIT cur = 0"
| "check_transition LBA_UTILSTATE_RESET cur =
     (case cur of
        LBA_UTILSTATE_INIT \<Rightarrow> 0 | LBA_UTILSTATE_RESET \<Rightarrow> 0
      | LBA_UTILSTATE_START \<Rightarrow> 0 | LBA_UTILSTATE_STOP \<Rightarrow> 0
      | _ \<Rightarrow> - EINVAL)"
| "check_transition LBA_UTILSTATE_START cur =
     (case cur of
        LBA_UTILSTATE_UNK \<Rightarrow> - EINVAL | LBA_UTILSTATE_INIT \<Rightarrow> - EINVAL
      | LBA_UTILSTATE_RESET \<Rightarrow> 0 | LBA_UTILSTATE_START \<Rightarrow> 0 | LBA_UTILSTATE_STOP \<Rightarrow> 0)"
| "check_transition LBA_UTILSTATE_STOP cur =
     (case cur of
        LBA_UTILSTATE_UNK \<Rightarrow> - EINVAL | LBA_UTILSTATE_INIT \<Rightarrow> - EINVAL
      | LBA_UTILSTATE_RESET \<Rightarrow> - EINVAL
      | LBA_UTILSTATE_START \<Rightarrow> 0 | LBA_UTILSTATE_STOP \<Rightarrow> 0)"
| "check_transition LBA_UTILSTATE_UNK cur = - EINVAL"

definition set_util_state :: "lba \<Rightarrow> util_state \<Rightarrow> mmio \<Rightarrow> int \<times> lba \<times> mmio" where
  "set_util_state lba new_state m =
     (let ret = check_transition new_state (l_util_state lba)
      in if ret < 0 then (ret, lba, m)
         else let lba' = lba\<lparr>l_util_state := new_state\<rparr>;
                  uops = util_ops (l_ops lba);
                  b = l_phys_addr lba
              in case new_state of
                   LBA_UTILSTATE_UNK \<Rightarrow> (- EINVAL, lba', m)
                 | LBA_UTILSTATE_INIT \<Rightarrow> (let (r, m') = util_init uops b m in (r, lba', m'))
                 | LBA_UTILSTATE_RESET \<Rightarrow> (let (r, m') = util_reset uops b m in (r, lba', m'))
                 | LBA_UTILSTATE_START \<Rightarrow> (let (r, m') = util_start uops b m in (r, lba', m'))
                 | LBA_UTILSTATE_STOP \<Rightarrow> (let (r, m') = util_stop uops b m in (r, lba', m')))"

section \<open>Probing\<close>

record acpi_pci_id =
  pid_segment :: u16
  pid_bus :: u16
  pid_device :: u16
  pid_function :: u16

datatype acpi_int = AE_OK u64 | AE_NOT_FOUND | AE_OTHER

record acpi_env =
  acpi_devices :: "string \<Rightarrow> nat list"
  hp_acpi_csr_space :: "nat \<Rightarrow> (addr \<times> u64) option"
  ioremap :: "addr \<Rightarrow> addr"
  acpi_bus_get_device :: "nat \<Rightarrow> nat option"
  acpi_get_pci_id :: "nat \<Rightarrow> acpi_pci_id option"
  kmalloc_ok :: "nat \<Rightarrow> bool"
  acpi_seg :: "nat \<Rightarrow> acpi_int"
  device_add :: "string \<Rightarrow> int"
  class_register :: int
  bus_id_size :: nat

record drv =
  lba_list :: "lba list"
  class_registered :: bool
  devices :: "string list"
  hw :: mmio

definition device_id_str :: "acpi_pci_id \<Rightarrow> string" where
  "device_id_str p =
     show_hex0 4 (unat (pid_segment p)) @ '':'' @ show_hex0 2 (unat (pid_bus p)) @ '':'' @
     show_hex0 2 (unat (pid_device p)) @ ''.'' @ show_nat (unat (pid_function p))"

definition register_hplba_device ::
    "acpi_env \<Rightarrow> lba \<Rightarrow> acpi_pci_id \<Rightarrow> drv \<Rightarrow> int \<times> lba \<times> drv" where
  "register_hplba_device env lba pci_id d =
     (let name = snprintf (bus_id_size env) (device_id_str pci_id);
          ret = device_add env name
      in (ret, lba\<lparr>l_class_id := name\<rparr>,
          if ret = 0 then d\<lparr>devices := devices d @ [name]\<rparr> else d))"

definition get_device_id :: "lba \<Rightarrow> string" where
  "get_device_id lba = l_class_id lba"

text \<open>\<open>device_unregister\<close> takes the structure's device out of the class.\<close>

definition unregister_hplba_device :: "lba \<Rightarrow> drv \<Rightarrow> drv" where
  "unregister_hplba_device lba d = d\<lparr>devices := remove1 (l_class_id lba) (devices d)\<rparr>"

text \<open>
  \<open>lba_probe\<close> on one ACPI handle. The allocated structure is zeroed before the pointer is
  tested, so an allocation failure is a null dereference (\<open>None\<close>).
\<close>

definition lba_probe :: "acpi_env \<Rightarrow> nat \<Rightarrow> drv \<Rightarrow> drv option" where
  "lba_probe env handle d =
     (case hp_acpi_csr_space env handle of
        None \<Rightarrow> Some d
      | Some (base_addr, len) \<Rightarrow>
          (let io_addr = ioremap env base_addr;
               (function_id, m1) = lba_reg io_addr LBA_FUNC_ID (hw d);
               d1 = d\<lparr>hw := m1\<rparr>
           in if function_id \<noteq> APOLLO_FUNC_ID \<and> function_id \<noteq> GEMINI_FUNC_ID \<and>
                 function_id \<noteq> MERCURY_FUNC_ID then Some d1
              else
                (case acpi_bus_get_device env handle of
                   None \<Rightarrow> Some d1
                 | Some dev \<Rightarrow>
                     (case acpi_get_pci_id env handle of
                        None \<Rightarrow> Some d1
                      | Some pci_id \<Rightarrow>
                          if \<not> kmalloc_ok env handle then None
                          else
                            (case find_lba_ops function_id of
                               None \<Rightarrow> Some d1
                             | Some ops \<Rightarrow>
                                 (let seg = (case acpi_seg env handle of
                                               AE_OK value \<Rightarrow> ucast value
                                             | AE_NOT_FOUND \<Rightarrow> 0
                                             | AE_OTHER \<Rightarrow> 0xffff);
                                      lba = \<lparr>l_class_id = [], l_acpi_dev = dev,
                                             l_phys_addr = io_addr, l_segment = seg,
                                             l_util_state = LBA_UTILSTATE_UNK, l_ops = ops\<rparr>;
                                      (ret, lba', d2) = register_hplba_device env lba pci_id d1
                                  in if ret \<noteq> 0 then Some d2
                                     else Some (d2\<lparr>lba_list := lba_list d2 @ [lba']\<rparr>)))))))"

definition pnpids :: "string list" where
  "pnpids = [''HPQ0002'', ''HWP0002'', ''HWP0003'', ''HWP0007'']"

text \<open>\<open>acpi_get_devices\<close> calls the probe on every device with the given hardware id.\<close>

fun probe_all :: "acpi_env \<Rightarrow> nat list \<Rightarrow> drv \<Rightarrow> drv option" where
  "probe_all env [] d = Some d"
| "probe_all env (h # hs) d =
     (case lba_probe env h d of None \<Rightarrow> None | Some d' \<Rightarrow> probe_all env hs d')"

fun find_lbas_loop :: "acpi_env \<Rightarrow> string list \<Rightarrow> drv \<Rightarrow> drv option" where
  "find_lbas_loop env [] d = Some d"
| "find_lbas_loop env (p # ps) d =
     (case probe_all env (acpi_devices env p) d of
        None \<Rightarrow> None
      | Some d' \<Rightarrow> find_lbas_loop env ps d')"

definition find_lbas :: "acpi_env \<Rightarrow> drv \<Rightarrow> (int \<times> drv) option" where
  "find_lbas env d =
     (case find_lbas_loop env pnpids d of
        None \<Rightarrow> None
      | Some d' \<Rightarrow> Some (if lba_list d' = [] then - 1 else 0, d'))"

section \<open>Loading and unloading\<close>

definition register_hplba_class :: "acpi_env \<Rightarrow> drv \<Rightarrow> int \<times> drv" where
  "register_hplba_class env d =
     (if class_register env \<noteq> 0 then (1, d\<lparr>class_registered := False\<rparr>)
      else (0, d\<lparr>class_registered := True\<rparr>))"

definition unregister_hplba_class :: "drv \<Rightarrow> drv" where
  "unregister_hplba_class d = d\<lparr>class_registered := False\<rparr>"

definition hplba_init :: "acpi_env \<Rightarrow> drv \<Rightarrow> (int \<times> drv) option" where
  "hplba_init env d =
     (let (r, d1) = register_hplba_class env d
      in if r \<noteq> 0 then Some (1, d1)
         else (case find_lbas env d1 of
                 None \<Rightarrow> None
               | Some (ret, d2) \<Rightarrow> if ret = - 1 then Some (1, d2) else Some (0, d2)))"

fun hplba_exit_loop :: "lba list \<Rightarrow> drv \<Rightarrow> drv" where
  "hplba_exit_loop [] d = d"
| "hplba_exit_loop (l # ls) d =
     hplba_exit_loop ls (unregister_hplba_device l (d\<lparr>lba_list := remove1 l (lba_list d)\<rparr>))"

definition hplba_exit :: "drv \<Rightarrow> drv" where
  "hplba_exit d = unregister_hplba_class (hplba_exit_loop (lba_list d) d)"

end
