(* ===== verification/HplbaSysfs.thy ===== *)
theory HplbaSysfs
  imports HplbaDrv
begin

text \<open>
  The attributes of an adapter in sysfs, drivers/hplba_sysfs.c: the show functions print into
  the page the kernel hands them (the printed string is the result here), and the store function
  of \<open>utilization\<close> runs a command on the state machine.
\<close>

section \<open>Show functions\<close>

text \<open>\<open>%#lx\<close>, and \<open>%s\<close> with a possibly null argument.\<close>

definition show_alt_hex :: "nat \<Rightarrow> string" where
  "show_alt_hex n = (if n = 0 then ''0'' else ''0x'' @ show_base 16 n)"

definition show_str :: "string option \<Rightarrow> string" where
  "show_str s = (case s of Some t \<Rightarrow> t | None \<Rightarrow> ''(null)'')"

definition function_id_show :: "lba \<Rightarrow> mmio \<Rightarrow> string \<times> mmio" where
  "function_id_show lba m =
     (let (v, m1) = lba_reg (l_phys_addr lba) LBA_FUNC_ID m
      in (show_alt_hex (unat v) @ [newline], m1))"

definition revision_show :: "lba \<Rightarrow> mmio \<Rightarrow> string \<times> mmio" where
  "revision_show lba m =
     (let (s, m1) = revision (l_ops lba) (l_phys_addr lba) m in (show_str s @ [newline], m1))"

definition bus_op_mode_show :: "lba \<Rightarrow> mmio \<Rightarrow> string \<times> mmio" where
  "bus_op_mode_show lba m =
     (let (s, m1) = bus_op_mode (l_ops lba) (l_phys_addr lba) m in (show_str s @ [newline], m1))"

definition bus_speed_show :: "lba \<Rightarrow> mmio \<Rightarrow> string \<times> mmio" where
  "bus_speed_show lba m =
     (let (s, m1) = bus_speed (l_ops lba) (l_phys_addr lba) m in (show_str s @ [newline], m1))"

definition ropes_show :: "lba \<Rightarrow> mmio \<Rightarrow> string \<times> mmio" where
  "ropes_show lba m =
     (let (n, m1) = ropes (l_ops lba) (l_phys_addr lba) m in (show_int n @ [newline], m1))"

definition utilization_show :: "lba \<Rightarrow> mmio \<Rightarrow> string \<times> mmio" where
  "utilization_show lba m =
     (let ((_, timer, cntr), m1) = utilization (l_ops lba) (l_phys_addr lba) m
      in (show_nat (unat timer) @ '','' @ show_nat (unat cntr) @ [newline], m1))"

section \<open>The store function\<close>

definition utilization_store :: "lba \<Rightarrow> string \<Rightarrow> nat \<Rightarrow> mmio \<Rightarrow> int \<times> lba \<times> mmio" where
  "utilization_store lba buf count m =
     (let state = hplba_util_state_to_value drv_util_states_tab buf
      in if state = LBA_UTILSTATE_UNK then (- EINVAL, lba, m)
         else let (ret, lba', m') = set_util_state lba state m
              in if ret < 0 then (ret, lba', m') else (int count, lba', m'))"

text \<open>
  The attribute table: the show function of each attribute, and the store function where there
  is one.
\<close>

definition lba_device_attrs ::
  "(string \<times> (lba \<Rightarrow> mmio \<Rightarrow> string \<times> mmio) \<times>
    (lba \<Rightarrow> string \<Rightarrow> nat \<Rightarrow> mmio \<Rightarrow> int \<times> lba \<times> mmio) option) list" where
  "lba_device_attrs =
     [(''function_id'', function_id_show, None),
      (''revision'', revision_show, None),
      (''bus_mode'', bus_op_mode_show, None),
      (''bus_speed'', bus_speed_show, None),
      (''ropes'', ropes_show, None),
      (''utilization'', utilization_show, Some utilization_store)]"

end
