(* ===== verification/DrvSpec.thy ===== *)
theory DrvSpec
  imports HplbaSysfs
begin

text \<open>
  What the driver promises: an abstract state machine that \<open>set_util_state\<close> implements, the
  meaning of a write to the \<open>utilization\<close> attribute, and an invariant between the driver's
  software state and the device registers that holds however writes, reads and the hardware's
  own counting interleave.
\<close>

section \<open>The chips behind the operation tables\<close>

datatype chip = Apollo_chip | Gemini_chip | Mercury_chip

fun chip_ops :: "chip \<Rightarrow> lba_ops" where
  "chip_ops Apollo_chip = apollo_ops"
| "chip_ops Gemini_chip = gemini_ops"
| "chip_ops Mercury_chip = mercury_ops"

fun chip_always :: "chip \<Rightarrow> reg" where
  "chip_always Apollo_chip = APOLLO_CTRL0A_ALWAYS_CNT"
| "chip_always Gemini_chip = GEMINI_CTRL0A_ALWAYS_CNT"
| "chip_always Mercury_chip = MERCURY_CTRL0A_ALWAYS_CNT"

fun chip_ctrl1 :: "chip \<Rightarrow> reg" where
  "chip_ctrl1 Apollo_chip = APOLLO_DIAG_CTRL1"
| "chip_ctrl1 Gemini_chip = GEMINI_DIAG_CTRL1"
| "chip_ctrl1 Mercury_chip = MERCURY_DIAG_CTRL1"

fun chip_timer :: "chip \<Rightarrow> reg" where
  "chip_timer Apollo_chip = APOLLO_DIAG_CTRL0_TIMER"
| "chip_timer Gemini_chip = GEMINI_DIAG_CTRL0_TIMER"
| "chip_timer Mercury_chip = MERCURY_DIAG_CTRL0_TIMER"

fun chip_cntr :: "chip \<Rightarrow> reg" where
  "chip_cntr Apollo_chip = APOLLO_DIAG_CTRL1_CNTR1"
| "chip_cntr Gemini_chip = GEMINI_DIAG_CTRL1_CNTR1"
| "chip_cntr Mercury_chip = MERCURY_DIAG_CTRL1_CNTR1"

fun chip_ctrl1_val :: "chip \<Rightarrow> u64" where
  "chip_ctrl1_val Apollo_chip = 0x3"
| "chip_ctrl1_val Gemini_chip = 0x797900ff001f043c"
| "chip_ctrl1_val Mercury_chip = 0x797900ff001f043c"

text \<open>The enable field is the same in all three chips.\<close>

lemma diag_en0_same:
  "GEMINI_DIAG_EN0 = APOLLO_DIAG_EN0" "MERCURY_DIAG_EN0 = APOLLO_DIAG_EN0"
  by (simp_all add: GEMINI_DIAG_EN0_def MERCURY_DIAG_EN0_def APOLLO_DIAG_EN0_def)

interpretation chip: lba_chip "chip_ops c" APOLLO_DIAG_EN0 "chip_always c" "chip_ctrl1 c"
  "chip_timer c" "chip_cntr c" "chip_ctrl1_val c" for c
  using apollo.lba_chip_axioms gemini.lba_chip_axioms mercury.lba_chip_axioms
  by (cases c) (simp_all add: diag_en0_same)

lemma find_lba_ops_chip:
  "find_lba_ops fid = Some ops \<Longrightarrow> \<exists>c. ops = chip_ops c"
  by (auto simp: find_lba_ops_def lba_info_tab_def split: if_splits
      intro: exI [of _ Apollo_chip] exI [of _ Gemini_chip] exI [of _ Mercury_chip])

section \<open>The abstract state machine\<close>

text \<open>
  The states in the order a measurement goes through them. A command may move at most one step
  up, or anywhere down.
\<close>

fun rank :: "util_state \<Rightarrow> nat" where
  "rank LBA_UTILSTATE_UNK = 0"
| "rank LBA_UTILSTATE_INIT = 1"
| "rank LBA_UTILSTATE_RESET = 2"
| "rank LBA_UTILSTATE_START = 3"
| "rank LBA_UTILSTATE_STOP = 4"

lemma rank_inject: "rank s = rank t \<longleftrightarrow> s = t"
  by (cases s; cases t) simp_all

instantiation util_state :: linorder
begin

definition less_eq_util_state :: "util_state \<Rightarrow> util_state \<Rightarrow> bool" where
  "s \<le> t \<longleftrightarrow> rank s \<le> rank t"

definition less_util_state :: "util_state \<Rightarrow> util_state \<Rightarrow> bool" where
  "s < t \<longleftrightarrow> rank s < rank t"

instance
  by standard (auto simp: less_eq_util_state_def less_util_state_def rank_inject)

end

lemmas state_order [simp] = less_eq_util_state_def less_util_state_def

definition legal :: "util_state \<Rightarrow> util_state \<Rightarrow> bool" where
  "legal cur cmd \<longleftrightarrow> cmd \<noteq> LBA_UTILSTATE_UNK \<and> rank cmd \<le> rank cur + 1"

lemma legal_not_UNK: "legal cur cmd \<Longrightarrow> cmd \<noteq> LBA_UTILSTATE_UNK"
  by (simp add: legal_def)

lemma check_transition_legal: "check_transition cmd cur = (if legal cur cmd then 0 else - EINVAL)"
  by (cases cmd; cases cur) (simp_all add: legal_def)

lemma set_util_state_eq:
  "set_util_state l cmd m =
     (if legal (l_util_state l) cmd
      then let (r, m') = util_op (util_ops (l_ops l)) cmd (l_phys_addr l) m
           in (r, l\<lparr>l_util_state := cmd\<rparr>, m')
      else (- EINVAL, l, m))"
  using EINVAL_pos legal_not_UNK
  by (cases cmd) (auto simp: set_util_state_def check_transition_legal Let_def)

lemma set_util_state_chip:
  assumes "l_ops l = chip_ops c"
  shows "set_util_state l cmd m =
     (if legal (l_util_state l) cmd
      then (0, l\<lparr>l_util_state := cmd\<rparr>,
            snd (util_op (util_ops (chip_ops c)) cmd (l_phys_addr l) m))
      else (- EINVAL, l, m))"
  using assms chip.op_ret [of cmd c "l_phys_addr l" m] legal_not_UNK
  by (auto simp: set_util_state_eq case_prod_beta)

section \<open>Writes to the utilization attribute\<close>

text \<open>The command a written string means: its first line, or nothing.\<close>

definition cmd_of :: "string \<Rightarrow> util_state" where
  "cmd_of buf =
     (let s = first_line buf
      in if s = ''init'' then LBA_UTILSTATE_INIT
         else if s = ''reset'' then LBA_UTILSTATE_RESET
         else if s = ''start'' then LBA_UTILSTATE_START
         else if s = ''stop'' then LBA_UTILSTATE_STOP
         else LBA_UTILSTATE_UNK)"

lemma util_state_to_value_cmd:
  "cstring buf \<Longrightarrow> hplba_util_state_to_value drv_util_states_tab buf = cmd_of buf"
  by (simp add: lookup_defs tab_to_value_map_of one_line_names_take cmd_of_def)
    (simp add: drv_tabs)

lemma utilization_store_eq:
  assumes "cstring buf" "l_ops l = chip_ops c"
  shows "utilization_store l buf n m =
    (let cmd = cmd_of buf
     in if legal (l_util_state l) cmd
        then (int n, l\<lparr>l_util_state := cmd\<rparr>,
              snd (util_op (util_ops (chip_ops c)) cmd (l_phys_addr l) m))
        else (- EINVAL, l, m))"
  using EINVAL_pos
  by (auto simp: utilization_store_def util_state_to_value_cmd [OF assms(1)]
      set_util_state_chip [OF assms(2)] legal_def Let_def)

end
