(* ===== verification/DrvInv.thy ===== *)
theory DrvInv
  imports DrvSpec
begin

text \<open>
  The driver at run time: any interleaving of writes to the \<open>utilization\<close> attributes, reads of
  any attribute, and the hardware counting on its own. The invariant says that the software
  state of every adapter describes its registers: outside the unknown state the chip is
  programmed, and the enable field holds the value of the state.
\<close>

section \<open>Register windows\<close>

text \<open>
  The offsets any operation of any chip writes, and those of the timers and counters the
  hardware writes. Two adapters are apart when no such register of one is one of the other.
\<close>

definition drv_offs :: "u64 list" where
  "drv_offs = [0x500, 0x508, 0x510, 0x518, 0x520, 0x528, 0x530, 0x538, 0x550, 0x558]"

definition apart :: "addr \<Rightarrow> addr \<Rightarrow> bool" where
  "apart b1 b2 \<longleftrightarrow> list_all (\<lambda>o1. list_all (\<lambda>o2. b1 + o1 \<noteq> b2 + o2) drv_offs) drv_offs"

lemma apart_sym: "apart b1 b2 \<Longrightarrow> apart b2 b1"
  unfolding apart_def list_all_iff by metis

lemma apartD: "apart b1 b2 \<Longrightarrow> o1 \<in> set drv_offs \<Longrightarrow> o2 \<in> set drv_offs \<Longrightarrow> b1 + o1 \<noteq> b2 + o2"
  by (auto simp: apart_def list_all_iff)

lemma chip_offs:
  "{reg_off APOLLO_DIAG_EN0, reg_off (chip_always c), reg_off (chip_ctrl1 c),
    reg_off (chip_timer c), reg_off (chip_cntr c)} \<subseteq> set drv_offs"
  by (cases c) (simp_all add: drv_offs_def)

lemma chip_op_frame:
  assumes "\<forall>off \<in> set drv_offs. a \<noteq> b + off"
  shows "cells (snd (util_op (util_ops (chip_ops c)) s b m)) a = cells m a"
proof -
  have "\<forall>off \<in> set (map reg_off [APOLLO_DIAG_EN0, chip_always c, chip_ctrl1 c]). a \<noteq> b + off"
    using assms chip_offs [of c] by auto
  then show ?thesis
    using chip.op_frame [of c s] unfolding writes_within_def by blast
qed

section \<open>The invariant\<close>

definition hw_agrees :: "chip \<Rightarrow> lba \<Rightarrow> mmio \<Rightarrow> bool" where
  "hw_agrees c l m \<longleftrightarrow>
     l_util_state l \<noteq> LBA_UTILSTATE_UNK \<longrightarrow>
       field_val (l_phys_addr l) APOLLO_DIAG_EN0 m = en0_of (l_util_state l) \<and>
       field_val (l_phys_addr l) (chip_always c) m = 1 \<and>
       field_val (l_phys_addr l) (chip_ctrl1 c) m = chip_ctrl1_val c"

definition lba_ok :: "lba \<Rightarrow> mmio \<Rightarrow> bool" where
  "lba_ok l m \<longleftrightarrow> (\<exists>c. l_ops l = chip_ops c \<and> hw_agrees c l m)"

definition drv_inv :: "drv \<Rightarrow> bool" where
  "drv_inv d \<longleftrightarrow>
     sorted_wrt apart (map l_phys_addr (lba_list d)) \<and> (\<forall>l \<in> set (lba_list d). lba_ok l (hw d))"

lemma hw_agrees_cong:
  assumes "\<forall>off \<in> {reg_off APOLLO_DIAG_EN0, reg_off (chip_always c), reg_off (chip_ctrl1 c)}.
      cells m' (l_phys_addr l + off) = cells m (l_phys_addr l + off)"
  shows "hw_agrees c l m' = hw_agrees c l m"
  using assms by (simp add: hw_agrees_def field_val_def)

text \<open>An adapter is not disturbed by writes to another one's window.\<close>

lemma lba_ok_other:
  assumes "lba_ok l m" "apart (l_phys_addr l) b"
    and "\<And>a. (\<forall>off \<in> set drv_offs. a \<noteq> b + off) \<Longrightarrow> cells m' a = cells m a"
  shows "lba_ok l m'"
proof -
  obtain c where c: "l_ops l = chip_ops c" "hw_agrees c l m"
    using assms(1) by (auto simp: lba_ok_def)
  have "cells m' (l_phys_addr l + o1) = cells m (l_phys_addr l + o1)" if "o1 \<in> set drv_offs" for o1
    using assms(3) [of "l_phys_addr l + o1"] apartD [OF assms(2) that] by blast
  then have "hw_agrees c l m' = hw_agrees c l m"
    using chip_offs [of c] by (intro hw_agrees_cong) blast
  with c show ?thesis by (auto simp: lba_ok_def)
qed

lemma sorted_wrt_nth_apart:
  assumes "sorted_wrt apart (map l_phys_addr ls)" "i < length ls" "j < length ls" "i \<noteq> j"
  shows "apart (l_phys_addr (ls ! i)) (l_phys_addr (ls ! j))"
  using assms apart_sym by (cases "i < j") (auto simp: sorted_wrt_iff_nth_less)

text \<open>Updating one adapter and its window keeps the invariant of all of them.\<close>

lemma drv_inv_update:
  assumes "drv_inv d" "i < length (lba_list d)"
    and "l_phys_addr l' = l_phys_addr (lba_list d ! i)" "lba_ok l' m'"
    and "\<And>a. (\<forall>off \<in> set drv_offs. a \<noteq> l_phys_addr l' + off) \<Longrightarrow> cells m' a = cells (hw d) a"
  shows "drv_inv (d\<lparr>lba_list := (lba_list d)[i := l'], hw := m'\<rparr>)"
proof -
  have "map l_phys_addr ((lba_list d)[i := l']) = map l_phys_addr (lba_list d)"
    using assms(2,3) by (simp add: map_update_same)
  moreover have "lba_ok ((lba_list d)[i := l'] ! j) m'" if j: "j < length (lba_list d)" for j
  proof (cases "j = i")
    case True
    with assms(2,4) show ?thesis by simp
  next
    case False
    have "apart (l_phys_addr (lba_list d ! j)) (l_phys_addr l')"
      using assms(1,2,3) j False sorted_wrt_nth_apart [of "lba_list d" j i]
      by (simp add: drv_inv_def)
    moreover have "lba_ok (lba_list d ! j) (hw d)"
      using assms(1) j by (simp add: drv_inv_def)
    ultimately have "lba_ok (lba_list d ! j) m'"
      using assms(5) lba_ok_other by blast
    with False show ?thesis by simp
  qed
  ultimately show ?thesis
    using assms(1) by (auto simp: drv_inv_def in_set_conv_nth)
qed

section \<open>Steps\<close>

inductive drv_step :: "drv \<Rightarrow> drv \<Rightarrow> bool" where
  store: "i < length (lba_list d) \<Longrightarrow> cstring buf \<Longrightarrow>
    utilization_store (lba_list d ! i) buf n (hw d) = (r, l', m') \<Longrightarrow>
    drv_step d (d\<lparr>lba_list := (lba_list d)[i := l'], hw := m'\<rparr>)"
| attr_read: "l \<in> set (lba_list d) \<Longrightarrow> (attr, sh, st) \<in> set lba_device_attrs \<Longrightarrow>
    sh l (hw d) = (s, m') \<Longrightarrow> drv_step d (d\<lparr>hw := m'\<rparr>)"
| count: "i < length (lba_list d) \<Longrightarrow> l_ops (lba_list d ! i) = chip_ops c \<Longrightarrow>
    (\<And>a. a \<noteq> l_phys_addr (lba_list d ! i) + reg_off (chip_timer c) \<Longrightarrow>
         a \<noteq> l_phys_addr (lba_list d ! i) + reg_off (chip_cntr c) \<Longrightarrow>
         cells m' a = cells (hw d) a) \<Longrightarrow>
    drv_step d (d\<lparr>hw := m'\<rparr>)"

inductive_cases drv_stepE [elim]: "drv_step d d'"

lemma store_step_inv:
  assumes inv: "drv_inv d" and i: "i < length (lba_list d)" and buf: "cstring buf"
    and st: "utilization_store (lba_list d ! i) buf n (hw d) = (r, l', m')"
  shows "drv_inv (d\<lparr>lba_list := (lba_list d)[i := l'], hw := m'\<rparr>)"
proof -
  define l where "l = lba_list d ! i"
  have "lba_ok l (hw d)" using inv i by (simp add: drv_inv_def l_def)
  then obtain c where c: "l_ops l = chip_ops c" "hw_agrees c l (hw d)"
    by (auto simp: lba_ok_def)
  define cmd where "cmd = cmd_of buf"
  show ?thesis
  proof (cases "legal (l_util_state l) cmd")
    case False
    with st c buf have "l' = l" "m' = hw d"
      by (simp_all add: utilization_store_eq cmd_def l_def [symmetric] Let_def)
    with inv show ?thesis by (simp add: l_def drv_inv_def)
  next
    case True
    define p where "p = snd (util_op (util_ops (chip_ops c)) cmd (l_phys_addr l) (hw d))"
    from True st c buf have l': "l' = l\<lparr>l_util_state := cmd\<rparr>" and m': "m' = p"
      by (simp_all add: utilization_store_eq cmd_def l_def [symmetric] p_def Let_def)
    have frame: "cells p a = cells (hw d) a"
      if "\<forall>off \<in> set drv_offs. a \<noteq> l_phys_addr l + off" for a
      using chip_op_frame [OF that] by (simp only: p_def)
    have prog: "chip.programmed c (l_phys_addr l) p"
    proof (cases "cmd = LBA_UTILSTATE_INIT")
      case True
      then show ?thesis by (simp only: p_def chip.init_programmed)
    next
      case False
      with True have "l_util_state l \<noteq> LBA_UTILSTATE_UNK"
        by (cases cmd) (auto simp: legal_def)
      with c have "chip.programmed c (l_phys_addr l) (hw d)"
        by (simp add: hw_agrees_def chip.programmed_def)
      then show ?thesis by (simp only: p_def chip.programmed_kept)
    qed
    have "hw_agrees c l' p"
      using prog True chip.op_en0 [of cmd "l_phys_addr l" c "hw d"]
      by (simp add: hw_agrees_def l' p_def chip.programmed_def legal_def)
    with c have "lba_ok l' m'" by (auto simp: lba_ok_def l' m')
    with inv i frame show ?thesis
      by (intro drv_inv_update) (simp_all add: l' m' l_def)
  qed
qed

lemma show_reads_only:
  assumes "(attr, sh, st) \<in> set lba_device_attrs" "l_ops l = chip_ops c"
  shows "cells (snd (sh l m)) = cells m"
  using assms(1) chip.show_frames [of c]
  by (auto simp: lba_device_attrs_def function_id_show_def revision_show_def
      bus_op_mode_show_def bus_speed_show_def ropes_show_def utilization_show_def
      assms(2) reads_only_def case_prod_beta lba_reg_eq LBA_FUNC_ID_def)

lemma lba_ok_cells: "cells m' = cells m \<Longrightarrow> lba_ok l m' = lba_ok l m"
  by (simp add: lba_ok_def hw_agrees_def field_val_def)

lemma read_step_inv:
  assumes "drv_inv d" "l \<in> set (lba_list d)" "(attr, sh, st) \<in> set lba_device_attrs"
    and "sh l (hw d) = (s, m')"
  shows "drv_inv (d\<lparr>hw := m'\<rparr>)"
proof -
  obtain c where "l_ops l = chip_ops c"
    using assms(1,2) by (auto simp: drv_inv_def lba_ok_def)
  with assms(3,4) have "cells m' = cells (hw d)"
    using show_reads_only [of attr sh st l c "hw d"] by simp
  then have "lba_ok k m' = lba_ok k (hw d)" for k
    by (rule lba_ok_cells)
  with assms(1) show ?thesis by (simp add: drv_inv_def)
qed

lemma chip_count_offs:
  "reg_off (chip_timer c) \<noteq> reg_off APOLLO_DIAG_EN0" "reg_off (chip_timer c) \<noteq> reg_off (chip_always c)"
  "reg_off (chip_timer c) \<noteq> reg_off (chip_ctrl1 c)"
  "reg_off (chip_cntr c) \<noteq> reg_off APOLLO_DIAG_EN0" "reg_off (chip_cntr c) \<noteq> reg_off (chip_always c)"
  "reg_off (chip_cntr c) \<noteq> reg_off (chip_ctrl1 c)"
  using chip.offs_distinct [of c] by auto


lemma chip_ops_inject: "chip_ops c = chip_ops c' \<Longrightarrow> c = c'"
proof -
  define m where "m = \<lparr>cells = (\<lambda>a. a), mmio_log = []\<rparr>"
  have t: "fst (snd (fst (utilization (chip_ops c) 0 m))) = reg_off (chip_timer c)" for c
    unfolding chip.utilization_val
    by (cases c) (simp_all add: field_val_def m_def apollo_regs gemini_regs mercury_regs)
  assume "chip_ops c = chip_ops c'"
  then have "reg_off (chip_timer c) = reg_off (chip_timer c')"
    using t [of c] t [of c'] by metis
  then show "c = c'" by (cases c; cases c') simp_all
qed

lemma count_step_inv:
  assumes inv: "drv_inv d" and i: "i < length (lba_list d)"
    and c: "l_ops (lba_list d ! i) = chip_ops c"
    and m': "\<And>a. a \<noteq> l_phys_addr (lba_list d ! i) + reg_off (chip_timer c) \<Longrightarrow>
         a \<noteq> l_phys_addr (lba_list d ! i) + reg_off (chip_cntr c) \<Longrightarrow> cells m' a = cells (hw d) a"
  shows "drv_inv (d\<lparr>hw := m'\<rparr>)"
proof -
  define l where "l = lba_list d ! i"
  have "lba_ok l (hw d)" using inv i by (simp add: drv_inv_def l_def)
  then have "hw_agrees c l (hw d)"
    using c chip_ops_inject by (auto simp: lba_ok_def l_def)
  moreover have "hw_agrees c l m' = hw_agrees c l (hw d)"
    using chip_count_offs [of c] by (intro hw_agrees_cong ballI m' [folded l_def]) auto
  ultimately have "lba_ok l m'"
    using c by (auto simp: lba_ok_def l_def)
  moreover have "cells m' a = cells (hw d) a"
    if "\<forall>off \<in> set drv_offs. a \<noteq> l_phys_addr l + off" for a
    using that chip_offs [of c] by (intro m') (auto simp: l_def)
  ultimately have "drv_inv (d\<lparr>lba_list := (lba_list d)[i := l], hw := m'\<rparr>)"
    using inv i by (intro drv_inv_update) (simp_all add: l_def)
  then show ?thesis by (simp add: l_def drv_inv_def)
qed

lemma drv_step_inv: "drv_step d d' \<Longrightarrow> drv_inv d \<Longrightarrow> drv_inv d'"
  by (erule drv_stepE; hypsubst)
    (blast intro: store_step_inv read_step_inv count_step_inv)+

lemma drv_steps_inv: "drv_step\<^sup>*\<^sup>* d d' \<Longrightarrow> drv_inv d \<Longrightarrow> drv_inv d'"
  by (induction rule: rtranclp_induct) (blast intro: drv_step_inv)+

section \<open>A freshly probed driver satisfies the invariant\<close>

definition fresh :: "drv \<Rightarrow> bool" where
  "fresh d \<longleftrightarrow> (\<forall>l \<in> set (lba_list d). (\<exists>c. l_ops l = chip_ops c) \<and> l_util_state l = LBA_UTILSTATE_UNK)"

lemma lba_probe_list:
  assumes "lba_probe env h d = Some d'"
  shows "lba_list d' = lba_list d \<or>
    (\<exists>l fid. lba_list d' = lba_list d @ [l] \<and> find_lba_ops fid = Some (l_ops l) \<and>
       l_util_state l = LBA_UTILSTATE_UNK)"
  using assms
  by (auto simp: lba_probe_def register_hplba_device_def Let_def
      split: option.splits prod.splits if_splits)

lemma lba_probe_fresh: "lba_probe env h d = Some d' \<Longrightarrow> fresh d \<Longrightarrow> fresh d'"
  by (drule lba_probe_list) (auto simp: fresh_def dest: find_lba_ops_chip)

lemma probe_all_fresh: "probe_all env hs d = Some d' \<Longrightarrow> fresh d \<Longrightarrow> fresh d'"
  by (induction hs arbitrary: d) (auto split: option.splits dest: lba_probe_fresh)

lemma find_lbas_loop_fresh: "find_lbas_loop env ps d = Some d' \<Longrightarrow> fresh d \<Longrightarrow> fresh d'"
  by (induction ps arbitrary: d) (auto split: option.splits dest: probe_all_fresh)

lemma hplba_init_fresh:
  assumes "hplba_init env d = Some (r, d')" "lba_list d = []"
  shows "fresh d'"
proof -
  have "fresh (d\<lparr>class_registered := b\<rparr>)" for b
    using assms(2) by (simp add: fresh_def)
  with assms(1) show ?thesis
    by (auto simp: hplba_init_def register_hplba_class_def find_lbas_def
        split: option.splits if_splits dest!: find_lbas_loop_fresh)
qed

lemma fresh_inv: "fresh d \<Longrightarrow> sorted_wrt apart (map l_phys_addr (lba_list d)) \<Longrightarrow> drv_inv d"
  by (auto simp: fresh_def drv_inv_def lba_ok_def hw_agrees_def)

section \<open>The devices of the class\<close>

text \<open>
  The class holds one device for each adapter of the driver's list, in the same order and under
  the adapter's name: loading builds both up together and nothing at run time changes a name.
\<close>

definition listed :: "drv \<Rightarrow> bool" where
  "listed d \<longleftrightarrow> devices d = map get_device_id (lba_list d)"

lemma listed_hw [simp]: "listed (d\<lparr>hw := m\<rparr>) = listed d"
  by (simp add: listed_def)

lemma lba_probe_listed: "lba_probe env h d = Some d' \<Longrightarrow> listed d \<Longrightarrow> listed d'"
  by (auto simp: lba_probe_def register_hplba_device_def get_device_id_def listed_def Let_def
      split: option.splits prod.splits if_splits)

lemma probe_all_listed: "probe_all env hs d = Some d' \<Longrightarrow> listed d \<Longrightarrow> listed d'"
  by (induction hs arbitrary: d) (auto split: option.splits dest: lba_probe_listed)

lemma find_lbas_loop_listed: "find_lbas_loop env ps d = Some d' \<Longrightarrow> listed d \<Longrightarrow> listed d'"
  by (induction ps arbitrary: d) (auto split: option.splits dest: probe_all_listed)

lemma hplba_init_listed:
  assumes "hplba_init env d = Some (r, d')" "listed d"
  shows "listed d'"
proof -
  have "listed (d\<lparr>class_registered := b\<rparr>)" for b
    using assms(2) by (simp add: listed_def)
  with assms(1) show ?thesis
    by (auto simp: hplba_init_def register_hplba_class_def find_lbas_def
        split: option.splits if_splits dest!: find_lbas_loop_listed)
qed

lemma set_util_state_name:
  "set_util_state l s m = (r, l', m') \<Longrightarrow> get_device_id l' = get_device_id l"
  by (auto simp: set_util_state_def get_device_id_def Let_def
      split: if_splits util_state.splits prod.splits)

lemma utilization_store_name:
  "utilization_store l buf n m = (r, l', m') \<Longrightarrow> get_device_id l' = get_device_id l"
  by (auto simp: utilization_store_def Let_def
      split: if_splits option.splits prod.splits dest: set_util_state_name)

lemma drv_step_listed: "drv_step d d' \<Longrightarrow> listed d \<Longrightarrow> listed d'"
  by (erule drv_stepE; hypsubst)
    (simp_all add: listed_def map_update_same utilization_store_name)

lemma drv_steps_listed: "drv_step\<^sup>*\<^sup>* d d' \<Longrightarrow> listed d \<Longrightarrow> listed d'"
  by (induction rule: rtranclp_induct) (blast intro: drv_step_listed)+

end
