(* ===== verification/DrvProps.thy ===== *)
theory DrvProps
  imports DrvInv
begin

text \<open>
  The properties of the driver: what each of its entry points does, stated over the model of
  the sources and proved from the library of the preceding theories, with concrete runs on a
  machine with one adapter.
\<close>

section \<open>A machine with one adapter\<close>

text \<open>One PCI Express chip at address \<open>0x10000\<close>, found under the first hardware id.\<close>

definition demo_env :: acpi_env where
  "demo_env =
     \<lparr>acpi_devices = (\<lambda>p. if p = ''HPQ0002'' then [1] else []),
      hp_acpi_csr_space = (\<lambda>_. Some (0x10000, 0x1000)), ioremap = (\<lambda>a. a),
      acpi_bus_get_device = (\<lambda>_. Some 7),
      acpi_get_pci_id = (\<lambda>_. Some \<lparr>pid_segment = 0, pid_bus = 0x10, pid_device = 0, pid_function = 0\<rparr>),
      kmalloc_ok = (\<lambda>_. True), acpi_seg = (\<lambda>_. AE_NOT_FOUND), device_add = (\<lambda>_. 0),
      class_register = 0, bus_id_size = 20\<rparr>"

definition demo_hw :: mmio where
  "demo_hw = \<lparr>cells = (\<lambda>a. if a = 0x10000 then push_bit 16 APOLLO_FUNC_ID else 0), mmio_log = []\<rparr>"

definition demo_drv :: drv where
  "demo_drv = \<lparr>lba_list = [], class_registered = False, devices = [], hw = demo_hw\<rparr>"

definition demo_lba :: lba where
  "demo_lba =
     \<lparr>l_class_id = ''0000:10:00.0'', l_acpi_dev = 7, l_phys_addr = 0x10000, l_segment = 0,
      l_util_state = LBA_UTILSTATE_UNK, l_ops = apollo_ops\<rparr>"

definition demo_drv1 :: drv where
  "demo_drv1 =
     \<lparr>lba_list = [demo_lba], class_registered = True, devices = [''0000:10:00.0''],
      hw = log_event (Readq 0x10000) demo_hw\<rparr>"

lemma demo_init: "hplba_init demo_env demo_drv = Some (0, demo_drv1)"
proof -
  have s: "show_hex0 4 0 = ''0000''" "show_hex0 2 16 = ''10''" "show_hex0 2 0 = ''00''"
    "show_nat 0 = ''0''"
    by code_simp+
  show ?thesis
    by (simp add: hplba_init_def register_hplba_class_def find_lbas_def pnpids_def demo_env_def
        demo_drv_def lba_probe_def lba_reg_eq field_val_def LBA_FUNC_ID_def demo_hw_def
        APOLLO_FUNC_ID_def GEMINI_FUNC_ID_def MERCURY_FUNC_ID_def find_lba_ops_def
        lba_info_tab_def register_hplba_device_def device_id_str_def s snprintf_def
        demo_drv1_def demo_lba_def Let_def)
qed

lemma demo_ops: "l_ops demo_lba = chip_ops Apollo_chip"
  by (simp add: demo_lba_def)

section \<open>The driver at run time\<close>

text \<open>
  C2. After a successful load, whatever sequence of writes to the \<open>utilization\<close> files, reads of
  any attribute and counting by the hardware follows, every adapter's recorded state is the one
  its chip is in: outside the unknown state the enable field holds the value of that state, the
  time base counts always, and the counter selection is the one initialisation programmed.
\<close>

theorem driver_state_matches_chip:
  assumes "hplba_init env d = Some (r, d0)" "lba_list d = []"
    and "sorted_wrt apart (map l_phys_addr (lba_list d0))"
    and "drv_step\<^sup>*\<^sup>* d0 d1" "l \<in> set (lba_list d1)"
  shows "\<exists>c. l_ops l = chip_ops c \<and>
    (l_util_state l \<noteq> LBA_UTILSTATE_UNK \<longrightarrow>
       field_val (l_phys_addr l) APOLLO_DIAG_EN0 (hw d1) = en0_of (l_util_state l) \<and>
       field_val (l_phys_addr l) (chip_always c) (hw d1) = 1 \<and>
       field_val (l_phys_addr l) (chip_ctrl1 c) (hw d1) = chip_ctrl1_val c)"
  using drv_steps_inv [OF assms(4) fresh_inv [OF hplba_init_fresh [OF assms(1,2)] assms(3)]]
    assms(5)
  by (auto simp: drv_inv_def lba_ok_def hw_agrees_def)

text \<open>On the machine with one adapter: after \<open>init\<close> and \<open>reset\<close> the counters are being reset.\<close>

theorem driver_state_matches_chip_witness:
  "\<exists>d1 l. drv_step\<^sup>*\<^sup>* demo_drv1 d1 \<and> l \<in> set (lba_list d1) \<and>
     l_util_state l = LBA_UTILSTATE_RESET \<and>
     field_val (l_phys_addr l) APOLLO_DIAG_EN0 (hw d1) = 0xf"
proof -
  define l1 l2 where "l1 = demo_lba\<lparr>l_util_state := LBA_UTILSTATE_INIT\<rparr>"
    and "l2 = demo_lba\<lparr>l_util_state := LBA_UTILSTATE_RESET\<rparr>"
  define op where "op = (\<lambda>s m. snd (util_op (util_ops apollo_ops) s 0x10000 m))"
  define m1 m2 where "m1 = op LBA_UTILSTATE_INIT (hw demo_drv1)" and "m2 = op LBA_UTILSTATE_RESET m1"
  define d1 d2 where "d1 = demo_drv1\<lparr>lba_list := [l1], hw := m1\<rparr>"
    and "d2 = d1\<lparr>lba_list := [l2], hw := m2\<rparr>"
  have ops: "l_ops demo_lba = chip_ops Apollo_chip" "l_ops l1 = chip_ops Apollo_chip"
    by (simp_all add: demo_lba_def l1_def)
  have c: "cstring ''init''" "cstring ''reset''" by (simp_all add: cstring_def NUL_def)
  have "utilization_store demo_lba ''init'' 5 (hw demo_drv1) = (5, l1, m1)"
    by (subst utilization_store_eq [OF c(1) ops(1)], simp add: cmd_of_def first_line_def newline_def
        legal_def demo_lba_def l1_def m1_def op_def)
  then have "drv_step demo_drv1 d1"
    using drv_step.store [of 0 demo_drv1 "''init''" 5 5 l1 m1] c by (simp add: d1_def demo_drv1_def)
  moreover have "utilization_store l1 ''reset'' 6 m1 = (6, l2, m2)"
    by (subst utilization_store_eq [OF c(2) ops(2)], simp add: cmd_of_def first_line_def newline_def
        legal_def demo_lba_def l1_def l2_def m2_def op_def)
  then have "drv_step d1 d2"
    using drv_step.store [of 0 d1 "''reset''" 6 6 l2 m2] c by (simp add: d1_def d2_def)
  ultimately have steps: "drv_step\<^sup>*\<^sup>* demo_drv1 d2" by simp
  have l2: "l2 \<in> set (lba_list d2)" by (simp add: d2_def)
  from driver_state_matches_chip [OF demo_init _ _ steps l2]
  have "field_val (l_phys_addr l2) APOLLO_DIAG_EN0 (hw d2) = 0xf"
    by (auto simp: demo_drv_def demo_drv1_def l2_def)
  moreover have "l_util_state l2 = LBA_UTILSTATE_RESET" by (simp add: l2_def)
  ultimately show ?thesis using steps l2 by blast
qed

text \<open>
  C5. \<open>set_util_state\<close> implements the state machine init, reset, start, stop: a command is legal
  when it is at most one step ahead of the current state. A legal command succeeds, is
  recorded, and leaves its value in the enable field, the counts untouched and everything
  outside the chip's control registers as it was; an illegal one changes nothing.
\<close>

theorem set_util_state_refines:
  assumes "l_ops l = chip_ops c"
  shows "set_util_state l cmd m =
      (if cmd \<noteq> LBA_UTILSTATE_UNK \<and> rank cmd \<le> rank (l_util_state l) + 1
       then (0, l\<lparr>l_util_state := cmd\<rparr>,
             snd (util_op (util_ops (chip_ops c)) cmd (l_phys_addr l) m))
       else (- EINVAL, l, m)) \<and>
    (let m' = snd (snd (set_util_state l cmd m)); b = l_phys_addr l
     in field_val b APOLLO_DIAG_EN0 m' =
          (if fst (set_util_state l cmd m) = 0 then en0_of cmd else field_val b APOLLO_DIAG_EN0 m) \<and>
        field_val b (chip_timer c) m' = field_val b (chip_timer c) m \<and>
        field_val b (chip_cntr c) m' = field_val b (chip_cntr c) m)"
  using set_util_state_chip [OF assms, of cmd m] chip.counts_kept [of "l_phys_addr l" c cmd m]
    chip.op_en0 [of cmd "l_phys_addr l" c m] EINVAL_pos
  by (auto simp: legal_def Let_def)

theorem set_util_state_refines_witness:
  "set_util_state demo_lba LBA_UTILSTATE_START demo_hw = (- EINVAL, demo_lba, demo_hw) \<and>
   fst (set_util_state demo_lba LBA_UTILSTATE_INIT demo_hw) = 0"
  using set_util_state_refines [OF demo_ops, of LBA_UTILSTATE_START demo_hw]
    set_util_state_refines [OF demo_ops, of LBA_UTILSTATE_INIT demo_hw]
  by (simp add: demo_lba_def)

text \<open>
  C14. A write to \<open>utilization\<close> runs the command named by the first line of what was written
  (up to a newline or the end): all of the input is consumed when the command is legal, and an
  unknown word, \<open>unknown\<close> itself or an illegal command fails with \<open>EINVAL\<close> and no effect.
\<close>

theorem utilization_store_meaning:
  assumes "cstring buf" "l_ops l = chip_ops c"
  shows "utilization_store l buf n m =
    (let line = takeWhile (\<lambda>ch. ch \<noteq> newline) buf;
         cmd = (if line = ''init'' then LBA_UTILSTATE_INIT else if line = ''reset'' then LBA_UTILSTATE_RESET
                else if line = ''start'' then LBA_UTILSTATE_START
                else if line = ''stop'' then LBA_UTILSTATE_STOP else LBA_UTILSTATE_UNK)
     in if cmd \<noteq> LBA_UTILSTATE_UNK \<and> rank cmd \<le> rank (l_util_state l) + 1
        then (int n, l\<lparr>l_util_state := cmd\<rparr>,
              snd (util_op (util_ops (chip_ops c)) cmd (l_phys_addr l) m))
        else (- EINVAL, l, m))"
  unfolding utilization_store_eq [OF assms] cmd_of_def first_line_def Let_def legal_def ..

theorem utilization_store_meaning_witness:
  "fst (utilization_store demo_lba ''init\<newline>'' 5 demo_hw) = 5 \<and>
   utilization_store demo_lba ''initx'' 5 demo_hw = (- EINVAL, demo_lba, demo_hw)"
  using utilization_store_meaning [OF _ demo_ops, of "''init\<newline>''" 5 demo_hw]
    utilization_store_meaning [OF _ demo_ops, of "''initx''" 5 demo_hw]
  by (simp add: cstring_def NUL_def newline_def Let_def)

section \<open>What the attributes show\<close>

text \<open>
  What the mode and data rate fields of each chip mean, as tables: the reference the
  \<open>switch\<close> statements of the three chips are compared with.
\<close>

definition chip_mode :: "chip \<Rightarrow> addr \<Rightarrow> mmio \<Rightarrow> bus_op_mode" where
  "chip_mode c b m =
     (case c of
        Apollo_chip \<Rightarrow> LBA_PCIE
      | Gemini_chip \<Rightarrow>
          [LBA_PCI, LBA_PCI_X, LBA_PCI_X, LBA_PCI_X, LBA_PCI_X_ECC, LBA_PCI_X_ECC,
           LBA_PCI_X2_ECC, LBA_PCI_X2_ECC] ! unat (field_val b GEMINI_BUS_OP_MODE m)
      | Mercury_chip \<Rightarrow>
          (if field_val b MERCURY_AGP_BUS_MODE m = 1 then LBA_AGP
           else [LBA_PCI, LBA_PCI_X, LBA_PCI_X, LBA_PCI_X] ! unat (field_val b MERCURY_BUS_OP_MODE m)))"

definition chip_speed :: "chip \<Rightarrow> addr \<Rightarrow> mmio \<Rightarrow> bus_speed" where
  "chip_speed c b m =
     (case c of
        Apollo_chip \<Rightarrow>
          [LBA_X8, LBA_X1, LBA_X2, LBA_X4] ! unat (field_val b APOLLO_MAX_LINK_WIDTH m)
      | Gemini_chip \<Rightarrow>
          [LBA_66MHZ, LBA_100MHZ, LBA_66MHZ, LBA_133MHZ, LBA_66MHZ, LBA_133MHZ,
           LBA_133MHZ, LBA_266MHZ] ! unat (field_val b GEMINI_BUS_OP_MODE m)
      | Mercury_chip \<Rightarrow>
          (if field_val b MERCURY_AGP_BUS_MODE m = 1
           then [LBA_UNK_SPEED, LBA_AGP_1X, LBA_AGP_2X, LBA_UNK_SPEED, LBA_AGP_4X, LBA_UNK_SPEED,
                 LBA_UNK_SPEED, LBA_UNK_SPEED] ! unat (field_val b MERCURY_AGP_DATA_RATE m)
           else [LBA_66MHZ, LBA_100MHZ, LBA_66MHZ, LBA_133MHZ]
                  ! unat (field_val b MERCURY_BUS_OP_MODE m)))"

lemma field_val_le: "unat (field_val b r m) \<le> unat (reg_mask r)"
  unfolding field_val_def by (rule unat_and_le)

lemma field_val_1:
  assumes "reg_mask r = 1"
  shows "field_val b r m \<in> {0, 1}"
proof -
  have "unat (field_val b r m) \<le> 1" using field_val_le [of b r m] assms by simp
  then have "unat (field_val b r m) = 0 \<or> unat (field_val b r m) = 1" by linarith
  then show ?thesis by (simp add: word_unat_eq_iff)
qed

lemma field_val_3:
  assumes "reg_mask r = 3"
  shows "field_val b r m \<in> {0, 1, 2, 3}"
proof -
  have "unat (field_val b r m) \<le> 3" using field_val_le [of b r m] assms by simp
  then have "unat (field_val b r m) = 0 \<or> unat (field_val b r m) = 1 \<or> unat (field_val b r m) = 2 \<or> unat (field_val b r m) = 3"
    by linarith
  then show ?thesis unfolding insert_iff word_unat_eq_iff by simp
qed

lemma field_val_7:
  assumes "reg_mask r = 7"
  shows "field_val b r m \<in> {0, 1, 2, 3, 4, 5, 6, 7}"
proof -
  have "unat (field_val b r m) \<le> 7" using field_val_le [of b r m] assms by simp
  then have "unat (field_val b r m) = 0 \<or> unat (field_val b r m) = 1 \<or> unat (field_val b r m) = 2 \<or> unat (field_val b r m) = 3 \<or> unat (field_val b r m) = 4 \<or> unat (field_val b r m) = 5 \<or> unat (field_val b r m) = 6 \<or> unat (field_val b r m) = 7"
    by linarith
  then show ?thesis unfolding insert_iff word_unat_eq_iff by simp
qed

text \<open>Each chip's decoding agrees with its table.\<close>

lemma apollo_speed_shown:
  "fst (bus_speed apollo_ops b m) =
   Some (snd (drv_bus_speeds_tab ! speed_index (chip_speed Apollo_chip b m)))"
  using field_val_3 [of APOLLO_MAX_LINK_WIDTH b m]
  by (auto simp: chip_speed_def apollo_op_defs reg_simps)

lemma gemini_mode_shown:
  "fst (bus_op_mode gemini_ops b m) =
   Some (snd (drv_bus_op_modes_tab ! op_mode_index (chip_mode Gemini_chip b m)))"
  using field_val_7 [of GEMINI_BUS_OP_MODE b m]
  by (auto simp: chip_mode_def gemini_op_defs reg_simps)

lemma gemini_speed_shown:
  "fst (bus_speed gemini_ops b m) =
   Some (snd (drv_bus_speeds_tab ! speed_index (chip_speed Gemini_chip b m)))"
  using field_val_7 [of GEMINI_BUS_OP_MODE b m]
  by (auto simp: chip_speed_def gemini_op_defs reg_simps)

lemma mercury_mode_shown:
  "fst (bus_op_mode mercury_ops b m) =
   Some (snd (drv_bus_op_modes_tab ! op_mode_index (chip_mode Mercury_chip b m)))"
  using field_val_1 [of MERCURY_AGP_BUS_MODE b m] field_val_3 [of MERCURY_BUS_OP_MODE b m]
  by (auto simp: chip_mode_def mercury_op_defs reg_simps)

lemma mercury_speed_shown:
  "fst (bus_speed mercury_ops b m) =
   Some (snd (drv_bus_speeds_tab ! speed_index (chip_speed Mercury_chip b m)))"
proof (cases "field_val b MERCURY_AGP_BUS_MODE m = 0")
  case True
  then show ?thesis
    using field_val_3 [of MERCURY_BUS_OP_MODE b m]
    by (auto simp: chip_speed_def mercury_op_defs reg_simps)
next
  case False
  then have "field_val b MERCURY_AGP_BUS_MODE m = 1"
    using field_val_1 [of MERCURY_AGP_BUS_MODE b m] by simp
  then show ?thesis
    using field_val_7 [of MERCURY_AGP_DATA_RATE b m]
    by (auto simp: chip_speed_def mercury_op_defs reg_simps)
qed

lemma chip_mode_shown:
  "fst (bus_op_mode (chip_ops c) b m) =
   Some (hplba_bus_op_mode_to_str drv_bus_op_modes_tab (chip_mode c b m))"
  unfolding bus_op_mode_to_str_drv
  by (cases c) (simp_all add: gemini_mode_shown mercury_mode_shown, simp add: chip_mode_def apollo_op_defs)

lemma chip_speed_shown:
  "fst (bus_speed (chip_ops c) b m) =
   Some (hplba_bus_speed_to_str drv_bus_speeds_tab (chip_speed c b m))"
  unfolding bus_speed_to_str_drv
  by (cases c) (simp_all add: apollo_speed_shown gemini_speed_shown mercury_speed_shown)

text \<open>
  The \<open>bus_mode\<close> and \<open>bus_speed\<close> attributes print what the chip's mode and rate fields mean
  (the reference tables \<open>chip_mode\<close> and \<open>chip_speed\<close>) by name: never a null pointer and never an
  unknown mode; the speed is unknown only on a Mercury in AGP mode with an undefined data rate.
\<close>

theorem bus_attributes_decode:
  assumes "l_ops l = chip_ops c"
  shows "fst (bus_op_mode_show l m) =
      hplba_bus_op_mode_to_str drv_bus_op_modes_tab (chip_mode c (l_phys_addr l) m) @ [newline] \<and>
    fst (bus_speed_show l m) =
      hplba_bus_speed_to_str drv_bus_speeds_tab (chip_speed c (l_phys_addr l) m) @ [newline] \<and>
    chip_mode c (l_phys_addr l) m \<noteq> LBA_UNK_TYPE \<and>
    (chip_speed c (l_phys_addr l) m = LBA_UNK_SPEED \<longleftrightarrow>
       c = Mercury_chip \<and> field_val (l_phys_addr l) MERCURY_AGP_BUS_MODE m = 1 \<and>
       field_val (l_phys_addr l) MERCURY_AGP_DATA_RATE m \<notin> {1, 2, 4})"
proof -
  define b where "b = l_phys_addr l"
  have "chip_mode c b m \<noteq> LBA_UNK_TYPE"
    using field_val_7 [of GEMINI_BUS_OP_MODE b m] field_val_3 [of MERCURY_BUS_OP_MODE b m]
    by (cases c) (auto simp: chip_mode_def)
  moreover have "chip_speed c b m = LBA_UNK_SPEED \<longleftrightarrow>
       c = Mercury_chip \<and> field_val b MERCURY_AGP_BUS_MODE m = 1 \<and>
       field_val b MERCURY_AGP_DATA_RATE m \<notin> {1, 2, 4}"
  proof (cases c)
    case Apollo_chip
    then show ?thesis
      using field_val_3 [of APOLLO_MAX_LINK_WIDTH b m] by (auto simp: chip_speed_def)
  next
    case Gemini_chip
    then show ?thesis
      using field_val_7 [of GEMINI_BUS_OP_MODE b m] by (auto simp: chip_speed_def)
  next
    case Mercury_chip
    then show ?thesis
      using field_val_7 [of MERCURY_AGP_DATA_RATE b m] field_val_3 [of MERCURY_BUS_OP_MODE b m]
      by (cases "field_val b MERCURY_AGP_BUS_MODE m = 1") (auto simp: chip_speed_def)
  qed
  ultimately show ?thesis
    by (simp add: bus_op_mode_show_def bus_speed_show_def case_prod_beta assms show_str_def
        chip_mode_shown chip_speed_shown b_def)
qed

theorem bus_attributes_decode_witness:
  "fst (bus_op_mode_show demo_lba demo_hw) = ''PCIe'' @ [newline] \<and>
   fst (bus_speed_show demo_lba demo_hw) = ''x8'' @ [newline]"
proof -
  have n: "hplba_bus_op_mode_to_str drv_bus_op_modes_tab LBA_PCIE = ''PCIe''"
    "hplba_bus_speed_to_str drv_bus_speeds_tab LBA_X8 = ''x8''"
    by (simp_all add: lookup_defs drv_tabs)
  have "chip_mode Apollo_chip (l_phys_addr demo_lba) demo_hw = LBA_PCIE"
    "chip_speed Apollo_chip (l_phys_addr demo_lba) demo_hw = LBA_X8"
    by (simp_all add: chip_mode_def chip_speed_def field_val_def demo_hw_def demo_lba_def)
  with bus_attributes_decode [OF demo_ops, of demo_hw] n show ?thesis by simp
qed

text \<open>
  The number of ropes is 1, 2 or 4 on every chip, the revision is the two 4-bit fields of
  the revision register printed in full (the buffer of \<open>REVISION_SIZE\<close> bytes never cuts it off),
  and reading any of these attributes writes no register.
\<close>

theorem revision_and_ropes:
  "fst (ropes (chip_ops c) b m) \<in> {1, 2, 4} \<and>
   fst (revision (chip_ops c) b m) =
     Some (show_nat (unat (drop_bit 4 (cells m (b + 8)) AND 0xf)) @ ''.'' @
           show_nat (unat (cells m (b + 8) AND 0xf))) \<and>
   cells (snd (ropes (chip_ops c) b m)) = cells m \<and>
   cells (snd (revision (chip_ops c) b m)) = cells m"
proof -
  have "fst (revision (chip_ops c) b m) =
     Some (show_nat (unat (drop_bit 4 (cells m (b + 8)) AND 0xf)) @ ''.'' @
           show_nat (unat (cells m (b + 8) AND 0xf)))"
    using revision_fits [of "drop_bit 4 (cells m (b + 8)) AND 0xf" "cells m (b + 8) AND 0xf"]
    by (cases c) (simp_all add: apollo_op_defs gemini_op_defs mercury_op_defs reg_simps
        field_val_def apollo_regs gemini_regs mercury_regs and.assoc)
  moreover have "fst (ropes (chip_ops c) b m) \<in> {1, 2, 4}"
    by (cases c) (auto simp: apollo_op_defs gemini_op_defs mercury_op_defs reg_simps)
  ultimately show ?thesis
    using chip.show_frames [of c] by (simp add: reads_only_def)
qed

text \<open>
  C26. Initialisation stops the counters before it reprograms them: the three registers are
  written one after the other, the enable register first, each by a read, a write and a read
  back that flushes the write to the device.
\<close>

theorem util_init_order:
  "\<exists>v1 v2 v3. mmio_log (snd (util_init (util_ops (chip_ops c)) b m)) = mmio_log m @
     [Readq (b + reg_off APOLLO_DIAG_EN0), Writeq (b + reg_off APOLLO_DIAG_EN0) v1,
      Readq (b + reg_off APOLLO_DIAG_EN0),
      Readq (b + reg_off (chip_always c)), Writeq (b + reg_off (chip_always c)) v2,
      Readq (b + reg_off (chip_always c)),
      Readq (b + reg_off (chip_ctrl1 c)), Writeq (b + reg_off (chip_ctrl1 c)) v3,
      Readq (b + reg_off (chip_ctrl1 c))] \<and>
    v1 AND 0xf = 0 \<and> v2 AND 1 = 1 \<and>
    drop_bit (reg_shift (chip_ctrl1 c)) v3 AND reg_mask (chip_ctrl1 c) = chip_ctrl1_val c"
proof -
  define m1 where "m1 = lba_reg_write b APOLLO_DIAG_EN0 0 m"
  define m2 where "m2 = lba_reg_write b (chip_always c) 1 m1"
  have init: "snd (util_init (util_ops (chip_ops c)) b m) =
      lba_reg_write b (chip_ctrl1 c) (chip_ctrl1_val c) m2"
    by (cases c) (simp_all add: apollo_op_defs gemini_op_defs mercury_op_defs diag_en0_same
        m1_def m2_def)
  have ok: "reg_ok APOLLO_DIAG_EN0" "reg_ok (chip_always c)" "reg_ok (chip_ctrl1 c)"
    "chip_ctrl1_val c AND reg_mask (chip_ctrl1 c) = chip_ctrl1_val c" "reg_mask (chip_always c) = 1"
    by (cases c; simp)+
  obtain v1 where "mmio_log m1 = mmio_log m @ [Readq (b + reg_off APOLLO_DIAG_EN0),
      Writeq (b + reg_off APOLLO_DIAG_EN0) v1, Readq (b + reg_off APOLLO_DIAG_EN0)]" "v1 AND 0xf = 0"
    using lba_reg_write_log [OF ok(1), of 0 b m] by (auto simp: m1_def APOLLO_DIAG_EN0_def)
  moreover obtain v2 where "mmio_log m2 = mmio_log m1 @ [Readq (b + reg_off (chip_always c)),
      Writeq (b + reg_off (chip_always c)) v2, Readq (b + reg_off (chip_always c))]" "v2 AND 1 = 1"
    using lba_reg_write_log [OF ok(2), of 1 b m1]
    by (cases c) (auto simp: m2_def apollo_regs gemini_regs mercury_regs)
  ultimately show ?thesis
    using lba_reg_write_log [OF ok(3,4), of b m2] by (auto simp: init)
qed

text \<open>
  C24. A field write (\<open>LBA_REG_WRITE\<close>) of a value that fits the field reads back as that value,
  leaves the disjoint fields of the same register and all other registers as they were, and is
  flushed by a read of the register.
\<close>

theorem field_write_correct:
  assumes "reg_ok r" "v AND reg_mask r = v"
  shows "fst (lba_reg b r (lba_reg_write b r v m)) = v \<and>
    (\<forall>a. a \<noteq> b + reg_off r \<longrightarrow> cells (lba_reg_write b r v m) a = cells m a) \<and>
    (\<forall>r'. reg_ok r' \<and> reg_off r' = reg_off r \<and>
       push_bit (reg_shift r) (reg_mask r) AND push_bit (reg_shift r') (reg_mask r') = 0 \<longrightarrow>
       field_val b r' (lba_reg_write b r v m) = field_val b r' m) \<and>
    last (mmio_log (lba_reg_write b r v m)) = Readq (b + reg_off r)"
proof -
  have "reg_size r = 64" using assms(1) by (simp add: reg_ok_def)
  then show ?thesis
    using lba_reg_write_get [OF assms] lba_reg_write_same_cell [OF assms]
      lba_reg_write_log [OF assms, of b m]
    by (auto simp: reg_simps)
qed

theorem field_write_correct_witness:
  "fst (lba_reg 0x10000 APOLLO_DIAG_CTRL1 (lba_reg_write 0x10000 APOLLO_DIAG_CTRL1 3 demo_hw)) = 3"
  using field_write_correct [of APOLLO_DIAG_CTRL1 3 "0x10000" demo_hw] by simp

section \<open>Loading, probing, unloading\<close>

lemma probe_cells:
  "lba_probe env h d = Some d' \<Longrightarrow> cells (hw d') = cells (hw d) \<and> class_registered d' = class_registered d"
  by (auto simp: lba_probe_def register_hplba_device_def Let_def lba_reg_eq LBA_FUNC_ID_def
      split: option.splits if_splits)

definition func_id_of :: "acpi_env \<Rightarrow> nat \<Rightarrow> drv \<Rightarrow> u64 option" where
  "func_id_of env h d =
     map_option (\<lambda>(base, _). field_val (ioremap env base) LBA_FUNC_ID (hw d)) (hp_acpi_csr_space env h)"

lemma find_lba_ops_known:
  "find_lba_ops fid \<noteq> None \<longleftrightarrow> fid \<in> {APOLLO_FUNC_ID, GEMINI_FUNC_ID, MERCURY_FUNC_ID}"
  by (simp add: find_lba_ops_def lba_info_tab_def)

text \<open>
  C21. Probing a device reads its function id and writes no register. It adds exactly one
  adapter, in the unknown state and with the operations of the chip with that id, when the id
  is one of the three known ones, ACPI knows the device and its PCI address and the device can
  be registered under its address; otherwise the driver's list stays as it was.
\<close>

theorem probe_adds_known_adapters:
  assumes "lba_probe env h d = Some d'"
  shows "cells (hw d') = cells (hw d) \<and>
    (case (func_id_of env h d, acpi_bus_get_device env h, acpi_get_pci_id env h) of
       (Some fid, Some dev, Some pid) \<Rightarrow>
         (case find_lba_ops fid of
            Some ops \<Rightarrow>
              if device_add env (snprintf (bus_id_size env) (device_id_str pid)) = 0
              then \<exists>l. lba_list d' = lba_list d @ [l] \<and> l_ops l = ops \<and>
                   l_util_state l = LBA_UTILSTATE_UNK \<and> l_acpi_dev l = dev \<and>
                   get_device_id l = snprintf (bus_id_size env) (device_id_str pid)
              else lba_list d' = lba_list d
          | None \<Rightarrow> lba_list d' = lba_list d)
     | _ \<Rightarrow> lba_list d' = lba_list d)"
proof (cases "hp_acpi_csr_space env h")
  case None
  with assms show ?thesis by (simp add: lba_probe_def func_id_of_def)
next
  case (Some a)
  then obtain base len where csr: "hp_acpi_csr_space env h = Some (base, len)" by (cases a) simp
  define fid m1 where "fid = field_val (ioremap env base) LBA_FUNC_ID (hw d)"
    and "m1 = log_event (Readq (ioremap env base + reg_off LBA_FUNC_ID)) (hw d)"
  have f: "func_id_of env h d = Some fid"
    using csr by (simp add: func_id_of_def fid_def)
  have r: "lba_reg (ioremap env base) LBA_FUNC_ID (hw d) = (fid, m1)"
    by (simp add: lba_reg_eq LBA_FUNC_ID_def fid_def m1_def)
  show ?thesis
  proof (cases "find_lba_ops fid")
    case None
    with find_lba_ops_known [of fid] assms probe_cells [OF assms] f csr r show ?thesis
      by (auto simp: lba_probe_def split: option.splits)
  next
    case (Some ops)
    then have "\<not> (fid \<noteq> APOLLO_FUNC_ID \<and> fid \<noteq> GEMINI_FUNC_ID \<and> fid \<noteq> MERCURY_FUNC_ID)"
      using find_lba_ops_known [of fid] by simp
    with Some assms probe_cells [OF assms] f csr r show ?thesis
      by (simp add: lba_probe_def register_hplba_device_def get_device_id_def Let_def
          split: option.splits if_splits) auto
  qed
qed

theorem probe_adds_known_adapters_witness:
  "\<exists>d'. lba_probe demo_env 1 demo_drv = Some d' \<and> length (lba_list d') = 1"
proof -
  have f: "func_id_of demo_env 1 demo_drv = Some APOLLO_FUNC_ID"
    by (simp add: func_id_of_def demo_env_def demo_drv_def demo_hw_def field_val_def
        LBA_FUNC_ID_def APOLLO_FUNC_ID_def)
  have o: "find_lba_ops APOLLO_FUNC_ID = Some apollo_ops"
    by (simp add: find_lba_ops_def lba_info_tab_def)
  have "lba_probe demo_env 1 demo_drv \<noteq> None"
    using o by (simp add: lba_probe_def demo_env_def register_hplba_device_def demo_drv_def
        lba_reg_eq LBA_FUNC_ID_def field_val_def demo_hw_def APOLLO_FUNC_ID_def Let_def)
  then obtain d' where d': "lba_probe demo_env 1 demo_drv = Some d'" by auto
  from probe_adds_known_adapters [OF d'] show ?thesis
    unfolding f o d' by (auto simp: o demo_env_def demo_drv_def)
qed

lemma lba_list_find: "find_lbas env d = Some (r, d') \<Longrightarrow> r = (if lba_list d' = [] then - 1 else 0)"
  by (auto simp: find_lbas_def split: option.splits)

lemma probe_all_class: "probe_all env hs d = Some d' \<Longrightarrow> class_registered d' = class_registered d"
  by (induction hs arbitrary: d) (auto split: option.splits dest: probe_cells)

lemma find_lbas_loop_class:
  "find_lbas_loop env ps d = Some d' \<Longrightarrow> class_registered d' = class_registered d"
  by (induction ps arbitrary: d) (auto split: option.splits dest: probe_all_class)

lemma exit_loop_eq:
  assumes "listed d"
  shows "hplba_exit_loop (lba_list d) d = d\<lparr>lba_list := [], devices := []\<rparr>"
  using assms
proof (induction "lba_list d" arbitrary: d)
  case Nil
  then show ?case by (cases d) (simp add: listed_def)
next
  case (Cons l ls)
  note l = Cons(2) [symmetric]
  define d' where "d' = unregister_hplba_device l (d\<lparr>lba_list := ls\<rparr>)"
  have "lba_list d' = ls" "listed d'"
    using l Cons(3) by (simp_all add: d'_def unregister_hplba_device_def listed_def get_device_id_def)
  with Cons(1) [of d'] have "hplba_exit_loop ls d' = d'\<lparr>lba_list := [], devices := []\<rparr>" by simp
  with l show ?case by (simp add: d'_def unregister_hplba_device_def)
qed

text \<open>
  C22. Loading the module succeeds exactly when the device class could be registered and at least
  one adapter was found. A load that fails because no adapter was found leaves the class
  registered. From then on, through every write to and read of the files and all counting of the
  hardware, the class holds exactly one device for each adapter of the list, under its name.
  Unloading takes back every device, leaves no adapter and no class, and touches no register.
\<close>

theorem load_and_unload:
  assumes "hplba_init env d = Some (r, d1)" "lba_list d = []" "devices d = []"
    and "drv_step\<^sup>*\<^sup>* d1 d2"
  shows "(r = 0 \<longleftrightarrow> class_register env = 0 \<and> lba_list d1 \<noteq> []) \<and>
    (class_registered d1 \<longleftrightarrow> class_register env = 0) \<and>
    devices d2 = map get_device_id (lba_list d2) \<and>
    lba_list (hplba_exit d2) = [] \<and> devices (hplba_exit d2) = [] \<and>
    \<not> class_registered (hplba_exit d2) \<and> hw (hplba_exit d2) = hw d2"
proof -
  have "listed d" using assms(2,3) by (simp add: listed_def)
  then have l: "listed d2"
    using assms(1,4) hplba_init_listed drv_steps_listed by blast
  then have "hplba_exit d2 = d2\<lparr>lba_list := [], devices := [], class_registered := False\<rparr>"
    by (simp add: hplba_exit_def unregister_hplba_class_def exit_loop_eq)
  moreover have "(r = 0 \<longleftrightarrow> class_register env = 0 \<and> lba_list d1 \<noteq> []) \<and>
      (class_registered d1 \<longleftrightarrow> class_register env = 0)"
    using assms(1,2) by (auto simp: hplba_init_def register_hplba_class_def find_lbas_def
        split: option.splits if_splits dest: find_lbas_loop_class)
  ultimately show ?thesis using l by (simp add: listed_def)
qed

theorem load_and_unload_witness:
  "lba_list demo_drv1 \<noteq> [] \<and> devices demo_drv1 = [''0000:10:00.0''] \<and>
   devices (hplba_exit demo_drv1) = []"
proof -
  have "lba_list demo_drv1 \<noteq> []" "devices demo_drv1 = [''0000:10:00.0'']"
    by (simp_all add: demo_drv1_def)
  with load_and_unload [OF demo_init, of demo_drv1] show ?thesis by (simp add: demo_drv_def)
qed

end
