(* ===== verification/System.thy ===== *)
theory System
  imports Pcitop DrvProps
begin

text \<open>
  Tool and driver together. The tool reaches the driver through the files
  \<open>/sys/class/hplba/<name>/<attribute>\<close>; the kernel runs the show and store functions behind
  them. That is a hypothesis on the operating system here, \<open>sysfs\<close>, since the kernel is not part
  of the sources: the state of the operating system is the driver's state, reading an attribute
  file runs its show function, writing one runs its store function on the written string, and
  while the tool sleeps nothing but the hardware's counters changes. A concrete operating
  system that satisfies it is at the end.
\<close>

section \<open>A state machine that accepts the commands of a measurement\<close>

text \<open>The commands of a measurement of \<open>n\<close> samples.\<close>

definition session :: "nat \<Rightarrow> util_state list" where
  "session n = [LBA_UTILSTATE_INIT, LBA_UTILSTATE_RESET] @
     concat (replicate n [LBA_UTILSTATE_START, LBA_UTILSTATE_STOP])"

fun run_cmds :: "(util_state \<Rightarrow> 's \<Rightarrow> int \<times> 's) \<Rightarrow> util_state list \<Rightarrow> 's \<Rightarrow> int list \<times> 's" where
  "run_cmds cmd [] s = ([], s)"
| "run_cmds cmd (c # cs) s =
     (let (r, s1) = cmd c s; (rs, s2) = run_cmds cmd cs s1 in (r # rs, s2))"

locale util_machine =
  fixes ok :: "'s \<Rightarrow> bool" and st :: "'s \<Rightarrow> util_state" and cmd :: "util_state \<Rightarrow> 's \<Rightarrow> int \<times> 's"
  assumes accepted: "ok s \<Longrightarrow> legal (st s) c \<Longrightarrow>
      fst (cmd c s) = 0 \<and> ok (snd (cmd c s)) \<and> st (snd (cmd c s)) = c"
    and refused: "ok s \<Longrightarrow> \<not> legal (st s) c \<Longrightarrow> fst (cmd c s) \<noteq> 0 \<and> snd (cmd c s) = s"
begin

abbreviation run :: "util_state list \<Rightarrow> 's \<Rightarrow> int list \<times> 's" where
  "run \<equiv> run_cmds cmd"

lemma samples_accepted:
  "ok s \<Longrightarrow> LBA_UTILSTATE_RESET \<le> st s \<Longrightarrow>
   fst (run (concat (replicate n [LBA_UTILSTATE_START, LBA_UTILSTATE_STOP])) s) = replicate (2 * n) 0 \<and>
   ok (snd (run (concat (replicate n [LBA_UTILSTATE_START, LBA_UTILSTATE_STOP])) s)) \<and>
   LBA_UTILSTATE_RESET \<le> st (snd (run (concat (replicate n [LBA_UTILSTATE_START, LBA_UTILSTATE_STOP])) s))"
proof (induction n arbitrary: s)
  case (Suc n)
  define s1 s2 where "s1 = snd (cmd LBA_UTILSTATE_START s)" and "s2 = snd (cmd LBA_UTILSTATE_STOP s1)"
  have "legal (st s) LBA_UTILSTATE_START" using Suc.prems by (simp add: legal_def)
  from accepted [OF Suc.prems(1) this]
  have 1: "ok s1" "st s1 = LBA_UTILSTATE_START" "fst (cmd LBA_UTILSTATE_START s) = 0"
    by (simp_all add: s1_def)
  then have "legal (st s1) LBA_UTILSTATE_STOP" by (simp add: legal_def)
  from accepted [OF 1(1) this]
  have 2: "ok s2" "st s2 = LBA_UTILSTATE_STOP" "fst (cmd LBA_UTILSTATE_STOP s1) = 0"
    by (simp_all add: s2_def)
  with Suc.IH [of s2] 1 show ?case
    by (simp add: case_prod_beta Let_def s1_def [symmetric] s2_def [symmetric])
qed simp

text \<open>From any state, known or not, every command of a measurement is accepted.\<close>

lemma session_accepted:
  assumes "ok s"
  shows "fst (run (session n) s) = replicate (2 * n + 2) 0 \<and> ok (snd (run (session n) s))"
proof -
  define s1 s2 where "s1 = snd (cmd LBA_UTILSTATE_INIT s)" and "s2 = snd (cmd LBA_UTILSTATE_RESET s1)"
  have 1: "ok s1" "st s1 = LBA_UTILSTATE_INIT" "fst (cmd LBA_UTILSTATE_INIT s) = 0"
    using accepted [OF assms, of LBA_UTILSTATE_INIT] by (simp_all add: legal_def s1_def)
  have 2: "ok s2" "st s2 = LBA_UTILSTATE_RESET" "fst (cmd LBA_UTILSTATE_RESET s1) = 0"
    using accepted [OF 1(1), of LBA_UTILSTATE_RESET] 1(2) by (simp_all add: legal_def s2_def)
  from samples_accepted [OF 2(1), of n] 1 2 show ?thesis
    by (simp add: session_def case_prod_beta Let_def s1_def [symmetric] s2_def [symmetric])
qed

end

text \<open>The driver is such a machine.\<close>

definition drv_cmd :: "util_state \<Rightarrow> lba \<times> mmio \<Rightarrow> int \<times> lba \<times> mmio" where
  "drv_cmd c s = set_util_state (fst s) c (snd s)"

definition known_chip :: "lba \<Rightarrow> bool" where
  "known_chip l \<longleftrightarrow> (\<exists>c. l_ops l = chip_ops c)"

interpretation drv_machine: util_machine "\<lambda>s. known_chip (fst s)" "\<lambda>s. l_util_state (fst s)" drv_cmd
  using EINVAL_pos
  by unfold_locales (auto simp: known_chip_def drv_cmd_def set_util_state_chip)

section \<open>The files of the driver\<close>

definition attr_path :: "string \<Rightarrow> string \<Rightarrow> string" where
  "attr_path name attr = ''/sys/class/hplba/'' @ name @ ''/'' @ attr"

definition names_ok :: "drv \<Rightarrow> bool" where
  "names_ok d \<longleftrightarrow> distinct (map l_class_id (lba_list d)) \<and>
     (\<forall>l \<in> set (lba_list d). length (l_class_id l) \<le> 64)"

definition counting :: "drv \<Rightarrow> drv \<Rightarrow> bool" where
  "counting d d' \<longleftrightarrow> lba_list d' = lba_list d \<and>
     (\<forall>a. (\<forall>l \<in> set (lba_list d). \<forall>c. l_ops l = chip_ops c \<longrightarrow>
             a \<noteq> l_phys_addr l + reg_off (chip_timer c) \<and> a \<noteq> l_phys_addr l + reg_off (chip_cntr c)) \<longrightarrow>
          cells (hw d') a = cells (hw d) a)"

definition sysfs :: "drv os \<Rightarrow> bool" where
  "sysfs os \<longleftrightarrow>
     64 \<le> os_page_size os \<and> (\<forall>n d. os_malloc os n d = (True, d)) \<and>
     (\<forall>d i attr sh st. names_ok d \<longrightarrow> i < length (lba_list d) \<longrightarrow> (attr, sh, st) \<in> set lba_device_attrs \<longrightarrow>
        (let l = lba_list d ! i; path = attr_path (l_class_id l) attr in
         os_open_r os path d \<and>
         os_read os path d = (Some (fst (sh l (hw d))), d\<lparr>hw := snd (sh l (hw d))\<rparr>) \<and>
         (\<forall>f. st = Some f \<longrightarrow> os_open_w os path d \<and>
            (\<forall>data. os_write os path data d =
               (let (r, l', m') = f l (buf_str data) (length data) (hw d)
                in (r, d\<lparr>lba_list := (lba_list d)[i := l'], hw := m'\<rparr>)))))) \<and>
     (\<forall>n d. counting d (snd (os_sleep os n d)))"

section \<open>An adapter of the tool and the driver behind it\<close>

text \<open>The \<open>i\<close>th adapter of the tool is the \<open>j\<close>th of the driver.\<close>

definition linked :: "nat \<Rightarrow> nat \<Rightarrow> drv tool \<Rightarrow> bool" where
  "linked i j t \<longleftrightarrow> i < length (host_lba_list t) \<and> j < length (lba_list (os_st t)) \<and>
     names_ok (os_st t) \<and> known_chip (lba_list (os_st t) ! j) \<and>
     li_name (host_lba_list t ! i) = l_class_id (lba_list (os_st t) ! j)"

definition drv_state :: "nat \<Rightarrow> drv tool \<Rightarrow> util_state" where
  "drv_state j t = l_util_state (lba_list (os_st t) ! j)"

text \<open>The four commands of the tool are writes of the name of a state.\<close>

definition tool_cmd :: "drv os \<Rightarrow> nat \<Rightarrow> util_state \<Rightarrow> drv tool \<Rightarrow> int \<times> drv tool" where
  "tool_cmd os i c t =
     write_lba_attribute os (host_lba_list t ! i) ''utilization''
       (hplba_util_state_to_str top_util_states_tab c) t"

lemma state_texts:
  "hplba_util_state_to_str top_util_states_tab LBA_UTILSTATE_INIT = ''init''"
  "hplba_util_state_to_str top_util_states_tab LBA_UTILSTATE_RESET = ''reset''"
  "hplba_util_state_to_str top_util_states_tab LBA_UTILSTATE_START = ''start''"
  "hplba_util_state_to_str top_util_states_tab LBA_UTILSTATE_STOP = ''stop''"
  "hplba_util_state_to_str top_util_states_tab LBA_UTILSTATE_UNK = ''unknown''"
  by code_simp+

lemma tool_cmd_ops:
  "tool_cmd os i LBA_UTILSTATE_INIT t = hplba_op_init os i t"
  "tool_cmd os i LBA_UTILSTATE_RESET t = hplba_reset os i t"
  "tool_cmd os i LBA_UTILSTATE_START t = hplba_start os i t"
  "tool_cmd os i LBA_UTILSTATE_STOP t = hplba_stop os i t"
  by (simp_all add: tool_cmd_def state_texts hplba_op_init_def hplba_reset_def hplba_start_def hplba_stop_def)

lemma state_text_cmd:
  "cstring (hplba_util_state_to_str top_util_states_tab c)"
  "cmd_of (hplba_util_state_to_str top_util_states_tab c) = c"
  by (cases c; simp add: state_texts cstring_def NUL_def cmd_of_def first_line_def newline_def)+

lemma lba_attr_path_eq:
  assumes "length (li_name l) \<le> 64" "length attr \<le> 64"
  shows "lba_attr_path l attr = attr_path (li_name l) attr"
proof -
  have "path_buf (attr_path (li_name l) attr) = attr_path (li_name l) attr"
    unfolding path_buf_def using assms by (intro take_all) (simp add: attr_path_def PATH_MAX_def)
  moreover have "SYSFS_CLASS_DIR @ ''/'' @ LBA_DRIVER_NAME @ ''/'' @ li_name l @ ''/'' @ attr
      = attr_path (li_name l) attr"
    by (simp add: SYSFS_CLASS_DIR_def LBA_DRIVER_NAME_def attr_path_def)
  ultimately show ?thesis unfolding lba_attr_path_def by argo
qed

text \<open>The driver after a command was accepted.\<close>

definition drv_after :: "util_state \<Rightarrow> nat \<Rightarrow> drv \<Rightarrow> drv" where
  "drv_after c j d =
     (let l = lba_list d ! j
      in d\<lparr>lba_list := (lba_list d)[j := l\<lparr>l_util_state := c\<rparr>],
           hw := snd (util_op (util_ops (l_ops l)) c (l_phys_addr l) (hw d))\<rparr>)"

lemma file_ops:
  assumes files: "sysfs os" and "names_ok d" "j < length (lba_list d)" "(attr, sh, st) \<in> set lba_device_attrs"
  shows "os_open_r os (attr_path (l_class_id (lba_list d ! j)) attr) d"
    and "os_read os (attr_path (l_class_id (lba_list d ! j)) attr) d =
      (Some (fst (sh (lba_list d ! j) (hw d))), d\<lparr>hw := snd (sh (lba_list d ! j) (hw d))\<rparr>)"
    and "st = Some f \<Longrightarrow> os_open_w os (attr_path (l_class_id (lba_list d ! j)) attr) d"
    and "st = Some f \<Longrightarrow> os_write os (attr_path (l_class_id (lba_list d ! j)) attr) data d =
      (let (r, l', m') = f (lba_list d ! j) (buf_str data) (length data) (hw d)
       in (r, d\<lparr>lba_list := (lba_list d)[j := l'], hw := m'\<rparr>))"
  using files assms unfolding sysfs_def Let_def by blast+

lemma linked_path:
  assumes "linked i j t" "length attr \<le> 64"
  shows "lba_attr_path (host_lba_list t ! i) attr = attr_path (l_class_id (lba_list (os_st t) ! j)) attr"
  using assms lba_attr_path_eq [of "host_lba_list t ! i" attr] by (auto simp: linked_def names_ok_def)

lemma tool_cmd_eq:
  assumes files: "sysfs os" and link: "linked i j t"
  shows "tool_cmd os i c t =
    (if legal (drv_state j t) c then (0, t\<lparr>os_st := drv_after c j (os_st t)\<rparr>) else (1, t))"
proof -
  define d l x where "d = os_st t" and "l = lba_list d ! j"
    and "x = hplba_util_state_to_str top_util_states_tab c"
  have j: "names_ok d" "j < length (lba_list d)"
    using link by (auto simp: linked_def d_def)
  obtain ch where ch: "l_ops l = chip_ops ch"
    using link by (auto simp: linked_def known_chip_def l_def d_def)
  have u: "(''utilization'', utilization_show, Some utilization_store) \<in> set lba_device_attrs"
    by (simp add: lba_device_attrs_def)
  have b: "buf_str (x @ [NUL]) = x" "cmd_of x = c" "cstring x"
    using state_text_cmd [of c] buf_str_append_NUL [of x "[]"] by (simp_all add: x_def)
  have st: "drv_state j t = l_util_state l" by (simp add: drv_state_def l_def d_def)
  have s: "utilization_store l x (length (x @ [NUL])) (hw d) =
      (if legal (drv_state j t) c
       then (int (length (x @ [NUL])), l\<lparr>l_util_state := c\<rparr>,
             snd (util_op (util_ops (l_ops l)) c (l_phys_addr l) (hw d)))
       else (- EINVAL, l, hw d))"
    unfolding utilization_store_eq [OF b(3) ch] b(2) Let_def ch st ..
  have "d\<lparr>lba_list := (lba_list d)[j := l], hw := hw d\<rparr> = d"
    by (simp add: l_def)
  then show ?thesis
    using file_ops(3,4) [OF files j u] linked_path [OF link, of "''utilization''"] s EINVAL_pos
    by (auto simp: tool_cmd_def write_lba_attribute_def write_attribute_def d_def [symmetric]
        l_def [symmetric] x_def [symmetric] b drv_after_def Let_def)
qed

lemma names_ok_cong:
  assumes "map l_class_id (lba_list d') = map l_class_id (lba_list d)"
  shows "names_ok d' = names_ok d"
proof -
  define P :: "string list \<Rightarrow> bool" where "P ns \<longleftrightarrow> distinct ns \<and> (\<forall>n \<in> set ns. length n \<le> 64)" for ns
  have "names_ok d = P (map l_class_id (lba_list d))" for d
    by (simp add: names_ok_def P_def)
  with assms show ?thesis by (simp only:)
qed

lemma linked_cong:
  assumes "linked i j t" "map l_class_id (lba_list d') = map l_class_id (lba_list (os_st t))"
    and "map l_ops (lba_list d') = map l_ops (lba_list (os_st t))"
    and "os_st t' = d'" "map li_name (host_lba_list t') = map li_name (host_lba_list t)"
  shows "linked i j t'"
proof -
  have len: "length (lba_list d') = length (lba_list (os_st t))"
    "length (host_lba_list t') = length (host_lba_list t)"
    using assms(2,5) by (metis length_map)+
  have "j < length (lba_list (os_st t))" "i < length (host_lba_list t)"
    using assms(1) by (simp_all add: linked_def)
  then have "l_class_id (lba_list d' ! j) = l_class_id (lba_list (os_st t) ! j)"
    "l_ops (lba_list d' ! j) = l_ops (lba_list (os_st t) ! j)"
    "li_name (host_lba_list t' ! i) = li_name (host_lba_list t ! i)"
    using assms(2,3,5) len by (metis nth_map)+
  then show ?thesis
    using assms(1,4) len names_ok_cong [OF assms(2)] by (simp add: linked_def known_chip_def)
qed

lemma linked_after:
  assumes "linked i j t"
  shows "linked i j (t\<lparr>os_st := drv_after c j (os_st t)\<rparr>)"
    and "drv_state j (t\<lparr>os_st := drv_after c j (os_st t)\<rparr>) = c"
proof -
  have j: "j < length (lba_list (os_st t))" using assms by (simp add: linked_def)
  show "linked i j (t\<lparr>os_st := drv_after c j (os_st t)\<rparr>)"
    by (rule linked_cong [OF assms, of "drv_after c j (os_st t)"])
      (simp_all add: drv_after_def Let_def map_update_same j)
  show "drv_state j (t\<lparr>os_st := drv_after c j (os_st t)\<rparr>) = c"
    using j by (simp add: drv_state_def drv_after_def Let_def)
qed

text \<open>So the tool's adapter is a machine that accepts the commands of a measurement, too.\<close>

lemma tool_machine: "sysfs os \<Longrightarrow> util_machine (linked i j) (drv_state j) (tool_cmd os i)"
  by unfold_locales (simp_all add: tool_cmd_eq linked_after)

section \<open>Reading the counts\<close>

lemma scan_counts_show:
  assumes "a < 2 ^ 64" "b < 2 ^ 64"
  shows "scan_counts (show_nat a @ '','' @ show_nat b) = [word_of_nat a, word_of_nat b]"
  using scan_lu_show_nat [OF assms(1), of "'','' @ show_nat b"] scan_lu_show_nat [OF assms(2), of "[]"]
  by (simp add: scan_counts_def scan_lit_def no_digit_def is_digit_def digit_val_def)

lemma unat_field_48:
  "reg_mask r = 0xffffffffffff \<Longrightarrow> unat (field_val b r m) < 2 ^ 48"
  using field_val_le [of b r m] by simp

lemma chip_count_masks:
  "reg_mask (chip_timer c) = 0xffffffffffff" "reg_mask (chip_cntr c) = 0xffffffffffff"
  by (cases c; simp)+

lemma length_show_count: "n < 2 ^ 48 \<Longrightarrow> length (show_nat n) \<le> 15"
  using length_show_base_le [of 10 n 15] by (simp add: show_nat_def)

text \<open>The text the driver shows and the values the tool reads from it.\<close>

lemma utilization_text:
  fixes m :: mmio
  assumes "l_ops l = chip_ops c"
  defines "tm \<equiv> field_val (l_phys_addr l) (chip_timer c) m" and "cn \<equiv> field_val (l_phys_addr l) (chip_cntr c) m"
  shows "\<exists>line. fst (utilization_show l m) = line @ [newline] \<and> cstring line \<and> length line \<le> 31 \<and>
    scan_counts line = [tm, cn] \<and> cells (snd (utilization_show l m)) = cells m"
proof (intro exI conjI)
  have b: "unat tm < 2 ^ 48" "unat cn < 2 ^ 48"
    by (simp_all only: tm_def cn_def unat_field_48 chip_count_masks)
  show "fst (utilization_show l m) = (show_nat (unat tm) @ '','' @ show_nat (unat cn)) @ [newline]"
    using chip.utilization_val [of c "l_phys_addr l" m]
    by (simp add: utilization_show_def assms(1) case_prod_beta tm_def cn_def)
  show "cstring (show_nat (unat tm) @ '','' @ show_nat (unat cn))"
    by (simp add: cstring_def [of "'',''"] cstring_def [of "CHR '','' # show_nat (unat cn)"] NUL_def
        show_nat_cstring [unfolded cstring_def NUL_def])
  show "length (show_nat (unat tm) @ '','' @ show_nat (unat cn)) \<le> 31"
    using length_show_count [OF b(1)] length_show_count [OF b(2)] by simp
  show "scan_counts (show_nat (unat tm) @ '','' @ show_nat (unat cn)) = [tm, cn]"
    using scan_counts_show [of "unat tm" "unat cn"] b by simp
  show "cells (snd (utilization_show l m)) = cells m"
    using chip.show_frames(5) [of c] by (simp add: utilization_show_def assms(1) case_prod_beta reads_only_def)
qed

text \<open>Reading a one-line attribute of a linked adapter.\<close>

lemma read_line:
  assumes files: "sysfs os" and j: "names_ok (os_st t)" "j < length (lba_list (os_st t))"
    and attr: "(attr, sh, st) \<in> set lba_device_attrs" "length attr \<le> 64"
    and name: "li_name lba = l_class_id (lba_list (os_st t) ! j)"
    and line: "fst (sh (lba_list (os_st t) ! j) (hw (os_st t))) = line @ [newline]"
      "cstring line" "length line \<le> 60"
    and buf: "length contents = PAGE os"
  shows "\<exists>b. read_lba_attribute os lba attr contents t =
      Ret (0, b, t\<lparr>os_st := (os_st t)\<lparr>hw := snd (sh (lba_list (os_st t) ! j) (hw (os_st t)))\<rparr>, read_buf := True\<rparr>) \<and>
    length b = PAGE os \<and> c_string b = Some line"
proof -
  define d l path where "d = os_st t" and "l = lba_list d ! j"
    and "path = attr_path (l_class_id l) attr"
  define d' where "d' = d\<lparr>hw := snd (sh l (hw d))\<rparr>"
  have m: "os_malloc os n d = (True, d)" "64 \<le> os_page_size os" for n
    using files by (simp_all add: sysfs_def)
  have r: "os_open_r os path d" "os_read os path d = (Some (line @ [newline]), d')"
    using file_ops(1,2) [OF files j attr(1)] line(1) by (simp_all add: path_def d'_def l_def d_def)
  have cn: "cstring (line @ [newline])"
    using line(2) by (simp add: cstring_def newline_def NUL_def)
  have a: "(if read_buf t then (True, os_st t) else os_malloc os (os_page_size os) (os_st t)) = (True, d)"
    using m(1) by (simp add: d_def)
  have k: "length line + 1 < os_page_size os" "length line < PATH_MAX"
      "min PATH_MAX (os_page_size os) \<le> length contents"
    using line(3) m(2) buf by (simp_all add: PATH_MAX_def PAGE_def)
  obtain b where b: "read_attribute os path contents PATH_MAX t
      = Some (0, b, t\<lparr>os_st := d', read_buf := True\<rparr>)" "length b = PAGE os" "buf_str b = line"
    using read_attribute_line [OF a r cn k] buf by auto
  have "c_string b = Some line"
    using b(2,3) line(3) m(2) buf_str_full [of b] by (fastforce simp: c_string_def PAGE_def)
  moreover have "l \<in> set (lba_list d)" using j(2) by (simp add: l_def d_def)
  then have "lba_attr_path lba attr = path"
    using j(1) name attr(2) lba_attr_path_eq [of lba attr]
    by (auto simp: path_def names_ok_def l_def [symmetric] d_def [symmetric])
  ultimately show ?thesis
    using b(1,2) by (simp add: read_lba_attribute_def d'_def l_def d_def)
qed

text \<open>The two counts of an adapter's chip, as its operation \<open>utilization\<close> returns them.\<close>

definition counts :: "lba \<Rightarrow> mmio \<Rightarrow> u64 \<times> u64" where
  "counts l m = snd (fst (utilization (l_ops l) (l_phys_addr l) m))"

lemma counts_chip:
  "l_ops l = chip_ops c \<Longrightarrow>
   counts l m = (field_val (l_phys_addr l) (chip_timer c) m, field_val (l_phys_addr l) (chip_cntr c) m)"
  by (simp add: counts_def chip.utilization_val)

lemma counts_cells: "cells m' = cells m \<Longrightarrow> known_chip l \<Longrightarrow> counts l m' = counts l m"
  by (auto simp: known_chip_def counts_chip field_val_def)

definition put_counts :: "u64 \<times> u64 \<Rightarrow> lba_info \<Rightarrow> lba_info" where
  "put_counts c l = l\<lparr>timer := fst c, counter := snd c\<rparr>"

text \<open>Collecting reads the counts of the adapter's chip and changes no register.\<close>

lemma collect_eq:
  assumes files: "sysfs os" and link: "linked i j t"
  shows "\<exists>m. hplba_collect os i t = Ret (0, t\<lparr>os_st := (os_st t)\<lparr>hw := m\<rparr>, read_buf := True,
      collect_buf := True, host_lba_list := (host_lba_list t)
        [i := put_counts (counts (lba_list (os_st t) ! j) (hw (os_st t))) (host_lba_list t ! i)]\<rparr>) \<and>
    cells m = cells (hw (os_st t))"
proof -
  define l where "l = lba_list (os_st t) ! j"
  define t1 d d' where "t1 = t\<lparr>collect_buf := True\<rparr>" and "d = os_st t"
    and "d' = d\<lparr>hw := snd (utilization_show l (hw d))\<rparr>"
  have t1: "os_st t1 = d" "host_lba_list t1 = host_lba_list t" by (simp_all add: t1_def d_def)
  have j: "names_ok d" "j < length (lba_list d)" "li_name (host_lba_list t ! i) = l_class_id (lba_list d ! j)"
    using link by (simp_all add: linked_def d_def)
  have u: "(''utilization'', utilization_show, Some utilization_store) \<in> set lba_device_attrs"
    by (simp add: lba_device_attrs_def)
  obtain c where ops: "l_ops l = chip_ops c"
    using link by (auto simp: linked_def known_chip_def l_def)
  obtain line where line: "fst (utilization_show l (hw d)) = line @ [newline]" "cstring line"
      "length line \<le> 31" "scan_counts line = [fst (counts l (hw d)), snd (counts l (hw d))]"
      "cells (snd (utilization_show l (hw d))) = cells (hw d)"
    using utilization_text [OF ops, of "hw d"] by (auto simp: counts_chip [OF ops])
  obtain b where b: "read_lba_attribute os (host_lba_list t ! i) ''utilization'' (zeroed (PAGE os)) t1 =
      Ret (0, b, t1\<lparr>os_st := d', read_buf := True\<rparr>)" "c_string b = Some line"
    using read_line [OF files, of t1 j "''utilization''" utilization_show "Some utilization_store"
        "host_lba_list t ! i" line "zeroed (PAGE os)"] j u line(1-3)
    by (auto simp: t1 zeroed_def d'_def l_def d_def)
  have m: "os_malloc os n d = (True, d)" for n
    using files by (simp add: sysfs_def)
  have "hplba_collect os i t = Ret (0, t1\<lparr>os_st := d', read_buf := True,
      host_lba_list := (host_lba_list t)[i := put_counts (counts l (hw d)) (host_lba_list t ! i)]\<rparr>)"
    using m b line(4) by (simp add: hplba_collect_def t1_def d_def set_lba_def put_counts_def)
  then show ?thesis
    using line(5) by (auto simp: t1_def d'_def d_def l_def intro!: exI [of _ "snd (utilization_show l (hw d))"])
qed

end
