(* ===== verification/Sampling.thy ===== *)
theory Sampling
  imports System
begin

text \<open>
  What the loops of \<open>measure_utilization\<close> (src/pcitop.c) do to all the adapters of the tool and to
  the driver behind them: a command to every displayed adapter, the sleep, the collection of the
  counts, one sample, and the loop over the samples.
\<close>

section \<open>The four operations as commands\<close>

fun tool_op :: "drv os \<Rightarrow> util_state \<Rightarrow> nat \<Rightarrow> drv tool \<Rightarrow> int \<times> drv tool" where
  "tool_op os LBA_UTILSTATE_INIT = hplba_op_init os"
| "tool_op os LBA_UTILSTATE_RESET = hplba_reset os"
| "tool_op os LBA_UTILSTATE_START = hplba_start os"
| "tool_op os LBA_UTILSTATE_STOP = hplba_stop os"
| "tool_op os LBA_UTILSTATE_UNK = (\<lambda>i t. (1, t))"

lemma tool_op_eq:
  assumes "sysfs os" "linked i j t"
  shows "tool_op os c i t =
    (if legal (drv_state j t) c then (0, t\<lparr>os_st := drv_after c j (os_st t)\<rparr>) else (1, t))"
  using tool_cmd_eq [OF assms, of c] tool_cmd_ops [of os i t] by (cases c) (simp_all add: legal_def)

lemma op_machine: "sysfs os \<Longrightarrow> util_machine (linked i j) (drv_state j) (\<lambda>c. tool_op os c i)"
  by unfold_locales (simp_all add: tool_op_eq linked_after)

section \<open>All adapters\<close>

text \<open>The same adapters, whatever their measurement states are.\<close>

definition same_devices :: "drv \<Rightarrow> drv \<Rightarrow> bool" where
  "same_devices d d' \<longleftrightarrow>
     map (\<lambda>l. l\<lparr>l_util_state := LBA_UTILSTATE_UNK\<rparr>) (lba_list d') =
     map (\<lambda>l. l\<lparr>l_util_state := LBA_UTILSTATE_UNK\<rparr>) (lba_list d)"

lemma same_devices_refl [simp]: "same_devices d d"
  by (simp add: same_devices_def)

lemma same_devices_list: "lba_list d' = lba_list d \<Longrightarrow> same_devices d d'"
  by (simp add: same_devices_def)

lemma same_devices_trans: "same_devices d d' \<Longrightarrow> same_devices d' d'' \<Longrightarrow> same_devices d d''"
  by (simp add: same_devices_def)

lemma same_devices_map:
  assumes "same_devices d d'" "\<And>l. f (l\<lparr>l_util_state := LBA_UTILSTATE_UNK\<rparr>) = f l"
  shows "map f (lba_list d') = map f (lba_list d)"
proof -
  have *: "map f xs = map f (map (\<lambda>l. l\<lparr>l_util_state := LBA_UTILSTATE_UNK\<rparr>) xs)" for xs
    by (simp add: assms(2))
  show ?thesis using assms(1) unfolding same_devices_def by (subst (1 2) *) (rule arg_cong)
qed

lemma same_devices_after: "j < length (lba_list d) \<Longrightarrow> same_devices d (drv_after c j d)"
  by (simp add: same_devices_def drv_after_def Let_def map_update_same)

text \<open>Every adapter of the tool has an adapter of the driver of its own behind it.\<close>

definition all_linked :: "(nat \<Rightarrow> nat) \<Rightarrow> drv tool \<Rightarrow> bool" where
  "all_linked g t \<longleftrightarrow> (\<forall>i < length (host_lba_list t). linked i (g i) t) \<and>
     inj_on g {..<length (host_lba_list t)}"

lemma all_linkedD: "all_linked g t \<Longrightarrow> i < length (host_lba_list t) \<Longrightarrow> linked i (g i) t"
  by (simp add: all_linked_def)

lemma all_linked_same:
  assumes "all_linked g t" "same_devices (os_st t) (os_st t')"
    and "map li_name (host_lba_list t') = map li_name (host_lba_list t)"
  shows "all_linked g t'"
proof -
  have "length (host_lba_list t') = length (host_lba_list t)"
    using assms(3) by (metis length_map)
  moreover have "linked i (g i) t'" if "i < length (host_lba_list t)" for i
    by (rule linked_cong [OF all_linkedD [OF assms(1) that] _ _ refl assms(3)])
      (rule same_devices_map [OF assms(2)], simp)+
  ultimately show ?thesis using assms(1) by (simp add: all_linked_def)
qed

text \<open>A command to every displayed adapter of a list reaches exactly those.\<close>

lemma each_displayed_op:
  assumes files: "sysfs os"
  shows "all_linked g t \<Longrightarrow> distinct is \<Longrightarrow> set is \<subseteq> {..<length (host_lba_list t)} \<Longrightarrow>
    \<exists>d. each_displayed (tool_op os c) is t = t\<lparr>os_st := d\<rparr> \<and> same_devices (os_st t) d \<and>
      (\<forall>i < length (host_lba_list t). l_util_state (lba_list d ! g i) =
         (if i \<in> set is \<and> display (host_lba_list t ! i) \<noteq> 0 \<and> legal (drv_state (g i) t) c then c
          else drv_state (g i) t))"
proof (induction "is" arbitrary: t)
  case Nil
  show ?case by (intro exI [of _ "os_st t"]) (simp add: drv_state_def)
next
  case (Cons k ks)
  let ?n = "length (host_lba_list t)"
  have k: "k < ?n" "k \<notin> set ks" using Cons.prems by simp_all
  have lk: "linked k (g k) t" using all_linkedD [OF Cons.prems(1) k(1)] .
  then have gk: "g k < length (lba_list (os_st t))" by (simp add: linked_def)
  define go d1 where "go \<longleftrightarrow> display (host_lba_list t ! k) \<noteq> 0 \<and> legal (drv_state (g k) t) c"
    and "d1 = (if go then drv_after c (g k) (os_st t) else os_st t)"
  define t1 where "t1 = t\<lparr>os_st := d1\<rparr>"
  have step: "each_displayed (tool_op os c) (k # ks) t = each_displayed (tool_op os c) ks t1"
    using tool_op_eq [OF files lk, of c] by (auto simp: t1_def d1_def go_def)
  have same: "same_devices (os_st t) d1"
    using same_devices_after [OF gk] by (simp add: d1_def)
  have l1: "all_linked g t1" using all_linked_same [OF Cons.prems(1), of t1] same by (simp add: t1_def)
  have s1: "drv_state (g i) t1 = (if i = k \<and> go then c else drv_state (g i) t)" if "i < ?n" for i
  proof -
    have "g i = g k \<longleftrightarrow> i = k"
      using Cons.prems(1) that k(1) by (auto simp: all_linked_def inj_on_def)
    then show ?thesis using gk by (auto simp: t1_def d1_def drv_state_def drv_after_def Let_def)
  qed
  obtain d where d: "each_displayed (tool_op os c) ks t1 = t1\<lparr>os_st := d\<rparr>" "same_devices d1 d"
    "\<forall>i < ?n. l_util_state (lba_list d ! g i) =
       (if i \<in> set ks \<and> display (host_lba_list t ! i) \<noteq> 0 \<and> legal (drv_state (g i) t1) c then c
        else drv_state (g i) t1)"
    using Cons.IH [OF l1] Cons.prems by (auto simp: t1_def)
  show ?case
  proof (intro exI conjI)
    show "each_displayed (tool_op os c) (k # ks) t = t\<lparr>os_st := d\<rparr>"
      using step d(1) by (simp add: t1_def)
    show "same_devices (os_st t) d" using same d(2) by (rule same_devices_trans)
    show "\<forall>i < ?n. l_util_state (lba_list d ! g i) =
       (if i \<in> set (k # ks) \<and> display (host_lba_list t ! i) \<noteq> 0 \<and> legal (drv_state (g i) t) c then c
        else drv_state (g i) t)"
      using d(3) s1 k(2) by (auto simp: go_def)
  qed
qed

section \<open>The driver's invariant\<close>

definition dcounts :: "drv \<Rightarrow> nat \<Rightarrow> u64 \<times> u64" where
  "dcounts d j = counts (lba_list d ! j) (hw d)"

lemma drv_inv_chip:
  assumes "drv_inv d" "j < length (lba_list d)"
  obtains c where "l_ops (lba_list d ! j) = chip_ops c" "hw_agrees c (lba_list d ! j) (hw d)"
  using assms nth_mem [OF assms(2)] unfolding drv_inv_def lba_ok_def by blast

text \<open>A command leaves the counts of every adapter, its own and the others', as they are.\<close>

lemma dcounts_after:
  assumes inv: "drv_inv d" and j: "j < length (lba_list d)" and k: "k < length (lba_list d)"
  shows "dcounts (drv_after c j d) k = dcounts d k"
proof -
  define l b where "l = lba_list d ! k" and "b = l_phys_addr (lba_list d ! j)"
  obtain cj where cj: "l_ops (lba_list d ! j) = chip_ops cj" using drv_inv_chip [OF inv j] .
  obtain ck where ck: "l_ops l = chip_ops ck" using drv_inv_chip [OF inv k] by (auto simp: l_def)
  define m' where "m' = snd (util_op (util_ops (chip_ops cj)) c b (hw d))"
  have l: "l_ops (lba_list (drv_after c j d) ! k) = chip_ops ck"
    "l_phys_addr (lba_list (drv_after c j d) ! k) = l_phys_addr l" "hw (drv_after c j d) = m'"
    using j k ck cj by (auto simp: drv_after_def Let_def nth_list_update l_def m'_def b_def)
  have "field_val (l_phys_addr l) (chip_timer ck) m' = field_val (l_phys_addr l) (chip_timer ck) (hw d) \<and>
      field_val (l_phys_addr l) (chip_cntr ck) m' = field_val (l_phys_addr l) (chip_cntr ck) (hw d)"
  proof (cases "k = j")
    case True
    then have "ck = cj" using cj ck by (auto simp: l_def intro: chip_ops_inject)
    with True show ?thesis using chip.counts_kept [of b cj c "hw d"] by (simp add: m'_def l_def b_def)
  next
    case False
    then have ap: "apart (l_phys_addr l) b"
      using inv j k sorted_wrt_nth_apart [of "lba_list d" k j] by (simp add: drv_inv_def l_def b_def)
    have "cells m' (l_phys_addr l + off) = cells (hw d) (l_phys_addr l + off)" if "off \<in> set drv_offs" for off
      unfolding m'_def using apartD [OF ap that] by (intro chip_op_frame) blast
    then show ?thesis using chip_offs [of ck] by (auto simp: field_val_def)
  qed
  then show ?thesis by (simp add: dcounts_def counts_chip [OF l(1)] counts_chip [OF ck] l l_def [symmetric])
qed

lemma drv_inv_after:
  assumes inv: "drv_inv d" and j: "j < length (lba_list d)" and legal: "legal (l_util_state (lba_list d ! j)) c"
  shows "drv_inv (drv_after c j d)"
proof -
  define x where "x = hplba_util_state_to_str top_util_states_tab c"
  obtain ch where ch: "l_ops (lba_list d ! j) = chip_ops ch" using drv_inv_chip [OF inv j] .
  have x: "cstring x" "cmd_of x = c" using state_text_cmd [of c] by (simp_all add: x_def)
  have "utilization_store (lba_list d ! j) x 0 (hw d) =
      (0, (lba_list d ! j)\<lparr>l_util_state := c\<rparr>,
       snd (util_op (util_ops (chip_ops ch)) c (l_phys_addr (lba_list d ! j)) (hw d)))"
    using utilization_store_eq [OF x(1) ch, of 0 "hw d"] legal by (simp add: x(2) Let_def)
  from store_step_inv [OF inv j x(1) this] show ?thesis
    by (simp add: drv_after_def Let_def ch)
qed

text \<open>The hardware's counting does not disturb the control registers of any adapter.\<close>

lemma drv_inv_counting:
  assumes inv: "drv_inv d" and cnt: "counting d d'"
  shows "drv_inv d'"
proof -
  have ls: "lba_list d' = lba_list d" using cnt by (simp add: counting_def)
  have "lba_ok (lba_list d ! k) (hw d')" if k: "k < length (lba_list d)" for k
  proof -
    define l where "l = lba_list d ! k"
    obtain ck where ck: "l_ops l = chip_ops ck" "hw_agrees ck l (hw d)"
      using drv_inv_chip [OF inv k] by (auto simp: l_def)
    have "cells (hw d') (l_phys_addr l + off) = cells (hw d) (l_phys_addr l + off)"
      if off: "off \<in> {reg_off APOLLO_DIAG_EN0, reg_off (chip_always ck), reg_off (chip_ctrl1 ck)}" for off
    proof -
      have "l_phys_addr l + off \<noteq> l_phys_addr l' + reg_off (chip_timer c) \<and>
          l_phys_addr l + off \<noteq> l_phys_addr l' + reg_off (chip_cntr c)"
        if l': "l' \<in> set (lba_list d)" "l_ops l' = chip_ops c" for l' c
      proof -
        obtain j where j: "j < length (lba_list d)" "l' = lba_list d ! j"
          using l'(1) by (auto simp: in_set_conv_nth)
        show ?thesis
        proof (cases "j = k")
          case True
          then have "c = ck" using ck(1) l'(2) j(2) by (auto simp: l_def intro: chip_ops_inject)
          then show ?thesis using off chip_count_offs [of ck] True j(2) by (auto simp: l_def)
        next
          case False
          then have "apart (l_phys_addr l) (l_phys_addr l')"
            using inv j k sorted_wrt_nth_apart [of "lba_list d" k j] by (simp add: drv_inv_def l_def)
          moreover have "off \<in> set drv_offs" "reg_off (chip_timer c) \<in> set drv_offs"
            "reg_off (chip_cntr c) \<in> set drv_offs"
            using off chip_offs [of ck] chip_offs [of c] by auto
          ultimately show ?thesis using apartD by blast
        qed
      qed
      then show ?thesis using cnt by (auto simp: counting_def)
    qed
    then have "hw_agrees ck l (hw d') = hw_agrees ck l (hw d)" by (intro hw_agrees_cong) blast
    with ck show ?thesis by (auto simp: lba_ok_def l_def)
  qed
  then have "\<forall>l \<in> set (lba_list d). lba_ok l (hw d')" by (metis in_set_conv_nth)
  then show ?thesis using inv by (simp add: drv_inv_def ls)
qed

lemma drv_inv_cells: "cells m = cells (hw d) \<Longrightarrow> drv_inv (d\<lparr>hw := m\<rparr>) = drv_inv d"
  using lba_ok_cells [of m "hw d"] by (simp add: drv_inv_def)

lemma each_displayed_inv:
  assumes files: "sysfs os"
  shows "all_linked g t \<Longrightarrow> set is \<subseteq> {..<length (host_lba_list t)} \<Longrightarrow> drv_inv (os_st t) \<Longrightarrow>
    drv_inv (os_st (each_displayed (tool_op os c) is t)) \<and>
    (\<forall>j < length (lba_list (os_st t)). dcounts (os_st (each_displayed (tool_op os c) is t)) j = dcounts (os_st t) j)"
proof (induction "is" arbitrary: t)
  case (Cons k ks)
  have lk: "linked k (g k) t" using all_linkedD [OF Cons.prems(1)] Cons.prems(2) by simp
  then have gk: "g k < length (lba_list (os_st t))" by (simp add: linked_def)
  define t1 where "t1 = (if display (host_lba_list t ! k) \<noteq> 0 then snd (tool_op os c k t) else t)"
  have t1: "t1 = t \<or> t1 = t\<lparr>os_st := drv_after c (g k) (os_st t)\<rparr> \<and> legal (drv_state (g k) t) c"
    using tool_op_eq [OF files lk, of c] by (auto simp: t1_def)
  have same: "same_devices (os_st t) (os_st t1)" using t1 same_devices_after [OF gk] by auto
  then have len: "length (lba_list (os_st t1)) = length (lba_list (os_st t))"
    unfolding same_devices_def by (metis length_map)
  have "host_lba_list t1 = host_lba_list t" using t1 by auto
  then have l1: "all_linked g t1" "set ks \<subseteq> {..<length (host_lba_list t1)}"
    using all_linked_same [OF Cons.prems(1) same] Cons.prems(2) by simp_all
  have i1: "drv_inv (os_st t1)"
    using t1 Cons.prems(3) drv_inv_after [OF Cons.prems(3) gk, of c] by (auto simp: drv_state_def)
  have "dcounts (os_st t1) j = dcounts (os_st t) j" if "j < length (lba_list (os_st t))" for j
    using t1 dcounts_after [OF Cons.prems(3) gk that, of c] by auto
  with Cons.IH [OF l1 i1] len show ?case by (simp add: t1_def)
qed simp

section \<open>Collecting\<close>

text \<open>
  The adapters with the counts of their chips, for those at a position of a set that are
  displayed.
\<close>

definition read_counts :: "(nat \<Rightarrow> nat) \<Rightarrow> nat set \<Rightarrow> drv \<Rightarrow> lba_info list \<Rightarrow> lba_info list" where
  "read_counts g A d ls =
     map (\<lambda>i. if i \<in> A \<and> display (ls ! i) \<noteq> 0 then put_counts (counts (lba_list d ! g i) (hw d)) (ls ! i)
               else ls ! i) [0..<length ls]"

lemma length_read_counts [simp]: "length (read_counts g A d ls) = length ls"
  by (simp add: read_counts_def)

lemma nth_read_counts:
  "i < length ls \<Longrightarrow> read_counts g A d ls ! i =
     (if i \<in> A \<and> display (ls ! i) \<noteq> 0 then put_counts (counts (lba_list d ! g i) (hw d)) (ls ! i) else ls ! i)"
  by (simp add: read_counts_def)

lemma put_counts_simps [simp]:
  "li_name (put_counts c l) = li_name l" "display (put_counts c l) = display l"
  "prev_timer (put_counts c l) = prev_timer l" "prev_counter (put_counts c l) = prev_counter l"
  "in_use (put_counts c l) = in_use l" "timer (put_counts c l) = fst c" "counter (put_counts c l) = snd c"
  by (simp_all add: put_counts_def)

text \<open>Only registers are read: what the counts are does not depend on when they are read.\<close>

lemma read_counts_cells:
  assumes "all_linked g t" "cells m = cells (hw (os_st t))" "length ls = length (host_lba_list t)"
  shows "read_counts g A ((os_st t)\<lparr>hw := m\<rparr>) ls = read_counts g A (os_st t) ls"
proof -
  have "counts (lba_list (os_st t) ! g i) m = counts (lba_list (os_st t) ! g i) (hw (os_st t))"
    if "i < length ls" for i
    using all_linkedD [OF assms(1), of i] assms(2,3) that by (intro counts_cells) (auto simp: linked_def)
  then show ?thesis by (simp add: read_counts_def)
qed

lemma collect_displayed_eq:
  assumes files: "sysfs os"
  shows "all_linked g t \<Longrightarrow> distinct is \<Longrightarrow> set is \<subseteq> {..<length (host_lba_list t)} \<Longrightarrow>
    \<exists>m rb cb. collect_displayed os is t = Ret (t\<lparr>os_st := (os_st t)\<lparr>hw := m\<rparr>, read_buf := rb,
        collect_buf := cb, host_lba_list := read_counts g (set is) (os_st t) (host_lba_list t)\<rparr>) \<and>
      cells m = cells (hw (os_st t))"
proof (induction "is" arbitrary: t)
  case Nil
  have "read_counts g {} (os_st t) (host_lba_list t) = host_lba_list t"
    by (simp add: read_counts_def map_nth)
  then show ?case
    by (intro exI [of _ "hw (os_st t)"] exI [of _ "read_buf t"] exI [of _ "collect_buf t"]) simp
next
  case (Cons k ks)
  let ?L = "host_lba_list t"
  have k: "k < length ?L" "k \<notin> set ks" "distinct ks" "set ks \<subseteq> {..<length ?L}" using Cons.prems by simp_all
  show ?case
  proof (cases "display (?L ! k) = 0")
    case True
    then have "read_counts g (set (k # ks)) (os_st t) ?L = read_counts g (set ks) (os_st t) ?L"
      by (auto simp: read_counts_def)
    then show ?thesis using Cons.IH [OF Cons.prems(1)] True k by simp
  next
    case False
    define c where "c = counts (lba_list (os_st t) ! g k) (hw (os_st t))"
    obtain m where m: "hplba_collect os k t = Ret (0, t\<lparr>os_st := (os_st t)\<lparr>hw := m\<rparr>, read_buf := True,
        collect_buf := True, host_lba_list := ?L[k := put_counts c (?L ! k)]\<rparr>)"
      "cells m = cells (hw (os_st t))"
      using collect_eq [OF files all_linkedD [OF Cons.prems(1) k(1)]] by (auto simp: c_def)
    define t1 where "t1 = t\<lparr>os_st := (os_st t)\<lparr>hw := m\<rparr>, read_buf := True, collect_buf := True,
        host_lba_list := ?L[k := put_counts c (?L ! k)]\<rparr>"
    have l1: "all_linked g t1"
      using Cons.prems(1)
      by (rule all_linked_same) (simp_all add: t1_def same_devices_list map_update_same k)
    obtain m' rb cb where d: "collect_displayed os ks t1 = Ret (t1\<lparr>os_st := (os_st t1)\<lparr>hw := m'\<rparr>,
        read_buf := rb, collect_buf := cb,
        host_lba_list := read_counts g (set ks) (os_st t1) (host_lba_list t1)\<rparr>)"
      "cells m' = cells (hw (os_st t1))"
      using Cons.IH [OF l1] k by (auto simp: t1_def)
    have "read_counts g (set ks) (os_st t1) (host_lba_list t1) =
        read_counts g (set ks) (os_st t) (?L[k := put_counts c (?L ! k)])"
      using read_counts_cells [OF Cons.prems(1) m(2)] by (simp add: t1_def)
    also have "\<dots> = read_counts g (set (k # ks)) (os_st t) ?L"
      using False k by (auto simp: read_counts_def c_def nth_list_update)
    finally have "collect_displayed os (k # ks) t = Ret (t\<lparr>os_st := (os_st t)\<lparr>hw := m'\<rparr>, read_buf := rb,
        collect_buf := cb, host_lba_list := read_counts g (set (k # ks)) (os_st t) ?L\<rparr>)"
      using m(1) d(1) False by (simp add: t1_def)
    moreover have "cells m' = cells (hw (os_st t))" using d(2) m(2) by (simp add: t1_def)
    ultimately show ?thesis by blast
  qed
qed

section \<open>A row\<close>

lemma sample_columns_eq:
  "sample_columns ls =
     (concat (map (\<lambda>i. if display (ls ! i) \<noteq> 0 then util_column (sample_util (ls ! i)) (Suc i = length ls)
        else []) [0..<length ls]),
      map (\<lambda>l. if display l \<noteq> 0 then remember_counts l else l) ls)"
proof (induction ls)
  case (Cons l ls)
  have "[0..<length (l # ls)] = 0 # map Suc [0..<length ls]"
    by (simp add: upt_conv_Cons map_Suc_upt del: upt_Suc)
  then show ?case
    using Cons by (simp add: case_prod_beta Let_def o_def del: upt_Suc cong: if_cong)
qed simp

lemma average_columns_eq:
  "average_columns ls =
     concat (map (\<lambda>i. if display (ls ! i) \<noteq> 0 then util_column (average_util (ls ! i)) (Suc i = length ls)
        else []) [0..<length ls])"
proof (induction ls)
  case (Cons l ls)
  have "[0..<length (l # ls)] = 0 # map Suc [0..<length ls]"
    by (simp add: upt_conv_Cons map_Suc_upt del: upt_Suc)
  then show ?case using Cons by (simp add: o_def del: upt_Suc cong: if_cong)
qed simp

lemma remember_counts_simps [simp]:
  "li_name (remember_counts l) = li_name l" "display (remember_counts l) = display l"
  by (simp_all add: remember_counts_def)

section \<open>One sample\<close>

text \<open>The displayed adapters can be started: they were reset, and perhaps sampled.\<close>

definition ready :: "(nat \<Rightarrow> nat) \<Rightarrow> drv tool \<Rightarrow> bool" where
  "ready g t \<longleftrightarrow> (\<forall>i < length (host_lba_list t).
     display (host_lba_list t ! i) \<noteq> 0 \<longrightarrow> LBA_UTILSTATE_RESET \<le> drv_state (g i) t)"

text \<open>
  The displayed adapters are stopped, hold the counts of their chips, and the next sample will be
  relative to those. The others are as in \<open>t\<close>.
\<close>

definition sampled :: "(nat \<Rightarrow> nat) \<Rightarrow> drv tool \<Rightarrow> drv tool \<Rightarrow> bool" where
  "sampled g t t' \<longleftrightarrow> length (host_lba_list t') = length (host_lba_list t) \<and>
     (\<forall>i < length (host_lba_list t).
        if display (host_lba_list t ! i) \<noteq> 0
        then drv_state (g i) t' = LBA_UTILSTATE_STOP \<and>
          host_lba_list t' ! i =
            remember_counts (put_counts (dcounts (os_st t') (g i)) (host_lba_list t ! i))
        else drv_state (g i) t' = drv_state (g i) t \<and> host_lba_list t' ! i = host_lba_list t ! i)"

text \<open>The columns of a row, from the counts of a sample and those of the sample before.\<close>

definition row_of :: "(lba_info \<Rightarrow> dbl) \<Rightarrow> lba_info list \<Rightarrow> string" where
  "row_of f ls = row_header '' '' @
     concat (map (\<lambda>i. if display (ls ! i) \<noteq> 0 then util_column (f (ls ! i)) (Suc i = length ls) else [])
       [0..<length ls])"

definition banner_due :: "char list \<Rightarrow> u32 \<Rightarrow> string" where
  "banner_due banner num_lines = (if num_lines = UTIL_ROWS then buf_str banner @ [newline] else [])"

lemma print_line_eq:
  "print_line sz (fst (sample_columns ls)) t =
     (if sz < length (row_of sample_util ls) + 1 then Crash else Ret (emit (row_of sample_util ls @ [newline]) t))"
  by (simp add: print_line_def row_of_def sample_columns_eq Let_def)

lemma sleep_same: "sysfs os \<Longrightarrow> lba_list (snd (os_sleep os n d)) = lba_list d"
  by (simp add: sysfs_def counting_def)

text \<open>
  Time passing moves the counts of an adapter forward, the busy count by no more than the time
  count: what the documentation of the registers says as long as the 48 bits do not overflow.
\<close>

definition advance :: "u64 \<times> u64 \<Rightarrow> u64 \<times> u64 \<Rightarrow> bool" where
  "advance a b \<longleftrightarrow> unat (fst a) \<le> unat (fst b) \<and> unat (snd a) \<le> unat (snd b) \<and>
     unat (snd b) - unat (snd a) \<le> unat (fst b) - unat (fst a)"

definition steady :: "drv os \<Rightarrow> bool" where
  "steady os \<longleftrightarrow> (\<forall>n d j. drv_inv d \<longrightarrow> j < length (lba_list d) \<longrightarrow>
     advance (dcounts d j) (dcounts (snd (os_sleep os n d)) j))"

text \<open>Starting and sleeping, then stopping.\<close>

definition slept :: "drv os \<Rightarrow> drv tool \<Rightarrow> drv tool" where
  "slept os t =
     (let t1 = each_displayed (hplba_start os) (all_lbas t) t;
          (sig, s) = os_sleep os (timeout (options t1)) (os_st t1);
          t2 = t1\<lparr>os_st := s\<rparr>
      in if sig then sigint_handler t2 else t2)"

definition stopped :: "drv os \<Rightarrow> drv tool \<Rightarrow> drv tool" where
  "stopped os t = each_displayed (hplba_stop os) (all_lbas (slept os t)) (slept os t)"

lemma sample_stopped:
  "sample os banner sz num_lines t =
     bind_o (collect_displayed os (all_lbas (stopped os t)) (stopped os t)) (\<lambda>t5.
       bind_o (if num_lines = UTIL_ROWS then bind_o (puts banner t5) (\<lambda>t6. Ret (0, t6))
               else Ret (num_lines, t5)) (\<lambda>(n, t6).
         bind_o (print_line sz (fst (sample_columns (host_lba_list t6)))
                   (t6\<lparr>host_lba_list := snd (sample_columns (host_lba_list t6))\<rparr>)) (\<lambda>t7. Ret (n + 1, t7))))"
  unfolding sample_def stopped_def slept_def Let_def case_prod_beta ..

text \<open>What the first half of a sample does with the adapters (to the state \<open>q\<close>), and what the second half.\<close>

abbreviation moved_to :: "util_state \<Rightarrow> (nat \<Rightarrow> nat) \<Rightarrow> drv tool \<Rightarrow> drv \<Rightarrow> bool" where
  "moved_to q g t d \<equiv> \<forall>i < length (host_lba_list t). l_util_state (lba_list d ! g i) =
     (if display (host_lba_list t ! i) \<noteq> 0 then q else drv_state (g i) t)"

abbreviation counted :: "drv os \<Rightarrow> drv \<Rightarrow> drv \<Rightarrow> bool" where
  "counted os d d' \<equiv> drv_inv d \<longrightarrow> drv_inv d' \<and>
     (steady os \<longrightarrow> (\<forall>j < length (lba_list d'). advance (dcounts d j) (dcounts d' j)))"

lemma slept_eq:
  assumes files: "sysfs os" and l: "all_linked g t" and r: "ready g t"
  shows "\<exists>d q. slept os t = t\<lparr>os_st := d, time_to_quit := q\<rparr> \<and> same_devices (os_st t) d \<and>
    moved_to LBA_UTILSTATE_START g t d \<and> counted os (os_st t) d"
proof -
  let ?n = "length (host_lba_list t)"
  define t1 where "t1 = each_displayed (tool_op os LBA_UTILSTATE_START) (all_lbas t) t"
  define s where "s = os_sleep os (timeout (options t1)) (os_st t1)"
  have slept: "slept os t = (if fst s then sigint_handler (t1\<lparr>os_st := snd s\<rparr>) else t1\<lparr>os_st := snd s\<rparr>)"
    unfolding slept_def Let_def case_prod_beta s_def t1_def tool_op.simps ..
  have a: "distinct (all_lbas t)" "set (all_lbas t) = {..<?n}"
    by (auto simp: all_lbas_def)
  obtain d1 where d1: "t1 = t\<lparr>os_st := d1\<rparr>" "same_devices (os_st t) d1"
    "\<forall>i < ?n. l_util_state (lba_list d1 ! g i) =
       (if display (host_lba_list t ! i) \<noteq> 0 \<and> legal (drv_state (g i) t) LBA_UTILSTATE_START
        then LBA_UTILSTATE_START else drv_state (g i) t)"
    using each_displayed_op [OF files l a(1), of LBA_UTILSTATE_START] a(2) by (auto simp: t1_def)
  have sleep: "counting d1 (snd s)" using files by (simp add: sysfs_def s_def d1(1))
  then have sl: "lba_list (snd s) = lba_list d1" by (simp add: counting_def)
  have len: "length (lba_list d1) = length (lba_list (os_st t))"
    using d1(2) unfolding same_devices_def by (metis length_map)
  have inv: "drv_inv (snd s) \<and> (steady os \<longrightarrow>
      (\<forall>j < length (lba_list (snd s)). advance (dcounts (os_st t) j) (dcounts (snd s) j)))" if i0: "drv_inv (os_st t)"
  proof -
    have i1: "drv_inv d1" "\<forall>j < length (lba_list (os_st t)). dcounts d1 j = dcounts (os_st t) j"
      using each_displayed_inv [OF files l _ i0, of "all_lbas t" LBA_UTILSTATE_START] a(2)
      unfolding t1_def [symmetric] d1(1) by (simp_all del: tool_op.simps)
    have "advance (dcounts d1 j) (dcounts (snd s) j)" if "steady os" "j < length (lba_list d1)" for j
      using that i1(1) by (simp add: steady_def s_def d1(1))
    with i1(2) drv_inv_counting [OF i1(1) sleep] len sl show ?thesis by simp
  qed
  show ?thesis
  proof (intro exI conjI)
    show "slept os t = t\<lparr>os_st := snd s, time_to_quit := time_to_quit (slept os t)\<rparr>"
      by (auto simp: slept d1(1) sigint_handler_def)
    show "same_devices (os_st t) (snd s)" using same_devices_trans [OF d1(2) same_devices_list] sl by simp
    show "moved_to LBA_UTILSTATE_START g t (snd s)"
      using d1(3) r by (auto simp: sl ready_def legal_def)
  qed (use inv in blast)
qed

lemma stopped_eq:
  assumes files: "sysfs os" and l: "all_linked g t" and r: "ready g t"
  shows "\<exists>d q. stopped os t = t\<lparr>os_st := d, time_to_quit := q\<rparr> \<and>
    all_linked g (t\<lparr>os_st := d, time_to_quit := q\<rparr>) \<and> same_devices (os_st t) d \<and>
    moved_to LBA_UTILSTATE_STOP g t d \<and> counted os (os_st t) d"
proof -
  let ?n = "length (host_lba_list t)"
  obtain d3 q where t3: "slept os t = t\<lparr>os_st := d3, time_to_quit := q\<rparr>" (is "_ = ?t3")
    and same3: "same_devices (os_st t) d3" and st3: "moved_to LBA_UTILSTATE_START g t d3"
    and inv3: "counted os (os_st t) d3"
    using slept_eq [OF files l r] by blast
  have l3: "all_linked g ?t3" by (rule all_linked_same [OF l]) (simp_all add: same3)
  have a: "distinct (all_lbas t)" "set (all_lbas t) = {..<?n}" "all_lbas ?t3 = all_lbas t"
    by (auto simp: all_lbas_def)
  have stopped: "stopped os t = each_displayed (tool_op os LBA_UTILSTATE_STOP) (all_lbas t) ?t3"
    unfolding stopped_def t3 a(3) tool_op.simps ..
  obtain d where d: "stopped os t = ?t3\<lparr>os_st := d\<rparr>" "same_devices d3 d"
    "\<forall>i < ?n. l_util_state (lba_list d ! g i) =
       (if display (host_lba_list t ! i) \<noteq> 0 \<and> legal (drv_state (g i) ?t3) LBA_UTILSTATE_STOP
        then LBA_UTILSTATE_STOP else drv_state (g i) ?t3)"
    using each_displayed_op [OF files l3 a(1), of LBA_UTILSTATE_STOP] a(2)
    unfolding stopped by (auto simp del: tool_op.simps)
  have same: "same_devices (os_st t) d" by (rule same_devices_trans [OF same3 d(2)])
  have len: "length (lba_list d) = length (lba_list d3)"
    using d(2) unfolding same_devices_def by (metis length_map)
  have inv: "drv_inv d \<and> (\<forall>j < length (lba_list d3). dcounts d j = dcounts d3 j)" if "drv_inv d3"
    using each_displayed_inv [OF files l3 _, of "all_lbas t" LBA_UTILSTATE_STOP] that a(2)
    unfolding stopped [symmetric] d(1) by (simp del: tool_op.simps)
  show ?thesis
  proof (intro exI conjI)
    show "stopped os t = t\<lparr>os_st := d, time_to_quit := q\<rparr>" using d(1) by simp
    show "all_linked g (t\<lparr>os_st := d, time_to_quit := q\<rparr>)"
      by (rule all_linked_same [OF l]) (simp_all add: same)
    show "moved_to LBA_UTILSTATE_STOP g t d"
      using d(3) st3 by (auto simp: drv_state_def legal_def)
    show "counted os (os_st t) d" using inv inv3 len by auto
  qed (rule same)
qed

text \<open>The second half of a sample, once the counts are collected.\<close>

lemma sample_prints:
  assumes c: "collect_displayed os (all_lbas (stopped os t)) (stopped os t) = Ret t5"
    and b: "num_lines = UTIL_ROWS \<Longrightarrow> NUL \<in> set banner"
  shows "sample os banner sz num_lines t =
    (if sz < length (row_of sample_util (host_lba_list t5)) + 1 then Crash
     else Ret ((if num_lines = UTIL_ROWS then 0 else num_lines) + 1,
       t5\<lparr>host_lba_list := map (\<lambda>l. if display l \<noteq> 0 then remember_counts l else l) (host_lba_list t5),
          stdout := stdout t5 @ banner_due banner num_lines @ row_of sample_util (host_lba_list t5) @ [newline]\<rparr>))"
proof -
  define t6 where "t6 = (if num_lines = UTIL_ROWS then emit (buf_str banner @ [newline]) t5 else t5)"
  define n where "n = (if num_lines = UTIL_ROWS then 0 else num_lines)"
  have p: "(if num_lines = UTIL_ROWS then bind_o (puts banner t5) (\<lambda>t6. Ret (0, t6))
      else Ret (num_lines, t5)) = Ret (n, t6)"
    using b by (auto simp: puts_def c_string_def t6_def n_def)
  have h6: "host_lba_list t6 = host_lba_list t5" by (simp add: t6_def emit_def)
  have cols: "snd (sample_columns ls) = map (\<lambda>l. if display l \<noteq> 0 then remember_counts l else l) ls" for ls
    by (simp add: sample_columns_eq)
  show ?thesis
    unfolding sample_stopped c bind_o.simps p case_prod_conv h6 print_line_eq cols
    by (simp add: n_def t6_def emit_def banner_due_def)
qed

text \<open>
  A sample: when the row fits its block, it is printed, and the adapters are as \<open>sampled\<close> says.
\<close>

lemma sample_eq:
  assumes files: "sysfs os" and l: "all_linked g t" and r: "ready g t"
    and b: "num_lines = UTIL_ROWS \<Longrightarrow> NUL \<in> set banner"
  shows "\<exists>L t'. length L = length (host_lba_list t) \<and> all_linked g t' \<and> sampled g t t' \<and>
    host_lba_list t' = map (\<lambda>l. if display l \<noteq> 0 then remember_counts l else l) L \<and>
    options t' = options t \<and> (\<forall>i < length L. L ! i = (if display (host_lba_list t ! i) \<noteq> 0
      then put_counts (dcounts (os_st t') (g i)) (host_lba_list t ! i) else host_lba_list t ! i)) \<and>
    stdout t' = stdout t @ banner_due banner num_lines @ row_of sample_util L @ [newline] \<and>
    same_devices (os_st t) (os_st t') \<and>
    (drv_inv (os_st t) \<longrightarrow> drv_inv (os_st t') \<and>
       (steady os \<longrightarrow> (\<forall>j < length (lba_list (os_st t')). advance (dcounts (os_st t) j) (dcounts (os_st t') j)))) \<and>
    sample os banner sz num_lines t =
      (if sz < length (row_of sample_util L) + 1 then Crash
       else Ret ((if num_lines = UTIL_ROWS then 0 else num_lines) + 1, t'))"
proof -
  let ?n = "length (host_lba_list t)"
  obtain d q where d: "stopped os t = t\<lparr>os_st := d, time_to_quit := q\<rparr>"
    "all_linked g (t\<lparr>os_st := d, time_to_quit := q\<rparr>)"
    "\<forall>i < ?n. l_util_state (lba_list d ! g i) =
       (if display (host_lba_list t ! i) \<noteq> 0 then LBA_UTILSTATE_STOP else drv_state (g i) t)"
    and same: "same_devices (os_st t) d"
    and inv: "drv_inv (os_st t) \<Longrightarrow> drv_inv d"
      "drv_inv (os_st t) \<Longrightarrow> steady os \<Longrightarrow>
         \<forall>j < length (lba_list d). advance (dcounts (os_st t) j) (dcounts d j)"
    using stopped_eq [OF files l r] by blast
  define t4 where "t4 = t\<lparr>os_st := d, time_to_quit := q\<rparr>"
  have a: "distinct (all_lbas t4)" "set (all_lbas t4) = {..<?n}" "length (host_lba_list t4) = ?n"
    by (auto simp: all_lbas_def t4_def)
  obtain m rb cb where m: "collect_displayed os (all_lbas t4) t4 = Ret (t4\<lparr>os_st := d\<lparr>hw := m\<rparr>,
      read_buf := rb, collect_buf := cb, host_lba_list := read_counts g {..<?n} d (host_lba_list t)\<rparr>)"
    "cells m = cells (hw d)"
    using collect_displayed_eq [OF files d(2) [folded t4_def] a(1)] a(2,3) by (auto simp: t4_def)
  define L where "L = read_counts g {..<?n} (d\<lparr>hw := m\<rparr>) (host_lba_list t)"
  have L: "L = read_counts g {..<?n} d (host_lba_list t)"
    using read_counts_cells [OF d(2), of m "host_lba_list t"] m(2) by (simp add: L_def)
  define t5 where "t5 = t4\<lparr>os_st := d\<lparr>hw := m\<rparr>, read_buf := rb, collect_buf := cb, host_lba_list := L\<rparr>"
  have c: "collect_displayed os (all_lbas (stopped os t)) (stopped os t) = Ret t5"
    unfolding d(1) t4_def [symmetric] m(1) L [symmetric] t5_def ..
  define L' where "L' = map (\<lambda>l. if display l \<noteq> 0 then remember_counts l else l) L"
  define t' where "t' = t5\<lparr>host_lba_list := L',
    stdout := stdout t5 @ banner_due banner num_lines @ row_of sample_util L @ [newline]\<rparr>"
  have eq: "sample os banner sz num_lines t = (if sz < length (row_of sample_util L) + 1 then Crash
      else Ret ((if num_lines = UTIL_ROWS then 0 else num_lines) + 1, t'))"
    using sample_prints [OF c b] by (simp add: t'_def t5_def L'_def)
  have st: "os_st t' = d\<lparr>hw := m\<rparr>" "host_lba_list t' = L'" "options t' = options t"
    "stdout t' = stdout t @ banner_due banner num_lines @ row_of sample_util L @ [newline]"
    by (simp_all add: t'_def t5_def t4_def)
  have Li: "L ! i = (if display (host_lba_list t ! i) \<noteq> 0
      then put_counts (dcounts (os_st t') (g i)) (host_lba_list t ! i)
      else host_lba_list t ! i)" if "i < ?n" for i
    using that by (simp add: L_def nth_read_counts st(1) dcounts_def)
  have len: "length L = ?n" by (simp add: L_def)
  have "all_linked g t'"
    by (rule all_linked_same [OF d(2)])
      (auto simp: st L'_def same_devices_list len Li intro!: nth_equalityI)
  moreover have "sampled g t t'"
    using d(3) by (auto simp: sampled_def st(2) L'_def len Li drv_state_def dcounts_def st(1))
  moreover have "same_devices (os_st t) (os_st t')"
    using same_devices_trans [OF same same_devices_list] by (simp add: st(1))
  moreover have "dcounts (os_st t') j = dcounts d j" if "drv_inv d" "j < length (lba_list d)" for j
  proof -
    have "known_chip (lba_list d ! j)" using drv_inv_chip [OF that] by (metis known_chip_def)
    from counts_cells [OF m(2) this] show ?thesis by (simp add: dcounts_def st(1))
  qed
  moreover have "drv_inv (os_st t') = drv_inv d" unfolding st(1) by (rule drv_inv_cells [OF m(2)])
  ultimately show ?thesis using len st Li eq inv
    by (intro exI [of _ L] exI [of _ t']) (auto simp: L'_def)
qed

section \<open>The width of a row\<close>

text \<open>The percentage of an adapter has its usual width.\<close>

definition six :: "(lba_info \<Rightarrow> dbl) \<Rightarrow> lba_info list \<Rightarrow> bool" where
  "six f ls \<longleftrightarrow> (\<forall>l \<in> set ls. display l \<noteq> 0 \<longrightarrow> length (show_f2 (f l)) = 6)"

lemma util_column_width:
  "length (show_f2 u) = 6 \<Longrightarrow> length (util_column u b) = 16 + (if b then 0 else 2)"
  by (simp add: util_column_def length_pad_str COLUMN_DATA_WIDTH_def COLUMN_SEP_WIDTH_def)

lemma row_columns_concat:
  "row_columns (\<lambda>l b. Ret (f l b)) ls =
     Ret (concat (map (\<lambda>i. if display (ls ! i) \<noteq> 0 then f (ls ! i) (Suc i = length ls) else [])
       [0..<length ls]))"
proof (induction ls)
  case (Cons l ls)
  have "[0..<length (l # ls)] = 0 # map Suc [0..<length ls]"
    by (simp add: upt_conv_Cons map_Suc_upt del: upt_Suc)
  then show ?case using Cons by (simp add: o_def del: upt_Suc cong: if_cong)
qed simp

lemma row_of_width:
  assumes "six f ls"
  shows "length (row_of f ls) + (if last_shown ls then 2 else 0) = 8 + 18 * shown ls"
proof -
  have "\<exists>x. row_columns (\<lambda>l b. Ret (util_column (f l) b)) ls = Ret x \<and>
      length x + (if last_shown ls then 2 else 0) = 18 * shown ls"
    using assms by (intro row_width) (auto simp: six_def util_column_width)
  then obtain x where "concat (map (\<lambda>i. if display (ls ! i) \<noteq> 0 then util_column (f (ls ! i))
      (Suc i = length ls) else []) [0..<length ls]) = x"
    "length x + (if last_shown ls then 2 else 0) = 18 * shown ls"
    unfolding row_columns_concat by auto
  then show ?thesis by (simp add: row_of_def row_header_length)
qed

lemma line_size_nat:
  assumes "0 < n" "n < 2 ^ 20"
  shows "line_size (word_of_nat n) = 18 * n + 7"
proof -
  have "LINE_WIDTH (word_of_nat n) + 1 = word_of_nat (18 * n + 7)"
    by (simp add: LINE_WIDTH_def COLUMN_HEADER_WIDTH_def COLUMN_SEP_WIDTH_def COLUMN_DATA_WIDTH_def
        algebra_simps)
  moreover have "18 * n + 7 < 2 ^ 32" using assms(2) by simp
  ultimately show ?thesis unfolding line_size_def by (simp only: unat_u32)
qed

lemma row_fits_iff:
  assumes "six f ls" "n = shown ls" "0 < n" "n < 2 ^ 20"
  shows "line_size (word_of_nat n) < length (row_of f ls) + 1 \<longleftrightarrow> \<not> last_shown ls"
  using row_of_width [OF assms(1)] assms(2-4) by (auto simp: line_size_nat split: if_splits)

text \<open>
  It has when the busy count of the interval is at most the time count, both of at most 53 bits.
\<close>

definition sane :: "lba_info \<Rightarrow> bool" where
  "sane l \<longleftrightarrow> unat (timer l - prev_timer l) < 2 ^ 53 \<and>
     unat (counter l - prev_counter l) \<le> unat (timer l - prev_timer l)"

lemma six_sane: "(\<And>l. l \<in> set ls \<Longrightarrow> display l \<noteq> 0 \<Longrightarrow> sane l) \<Longrightarrow> six sample_util ls"
  by (auto simp: six_def sample_util_def sane_def length_percentage)

section \<open>The loop\<close>

lemma advance_trans: "advance a b \<Longrightarrow> advance b c \<Longrightarrow> advance a c"
  unfolding advance_def by linarith

lemma advance_refl [simp]: "advance a a"
  by (simp add: advance_def)

lemma dcounts_bound:
  assumes "drv_inv d" "j < length (lba_list d)"
  shows "unat (fst (dcounts d j)) < 2 ^ 48" "unat (snd (dcounts d j)) < 2 ^ 48"
proof -
  obtain c where c: "l_ops (lba_list d ! j) = chip_ops c" using drv_inv_chip [OF assms] .
  show "unat (fst (dcounts d j)) < 2 ^ 48" "unat (snd (dcounts d j)) < 2 ^ 48"
    unfolding dcounts_def counts_chip [OF c] fst_conv snd_conv
    by (rule unat_field_48, rule chip_count_masks)+
qed

lemma sane_advance:
  assumes "advance (prev_timer l, prev_counter l) c" "unat (fst c) < 2 ^ 48"
  shows "sane (put_counts c l)"
proof -
  have "unat (fst c - prev_timer l) = unat (fst c) - unat (prev_timer l)"
    "unat (snd c - prev_counter l) = unat (snd c) - unat (prev_counter l)"
    using assms(1) by (simp_all add: advance_def unat_sub word_le_nat_alt)
  then show ?thesis using assms by (simp add: sane_def advance_def)
qed

text \<open>What holds between two samples.\<close>

definition good :: "(nat \<Rightarrow> nat) \<Rightarrow> drv tool \<Rightarrow> bool" where
  "good g t \<longleftrightarrow> all_linked g t \<and> ready g t \<and> drv_inv (os_st t) \<and>
     (\<forall>i < length (host_lba_list t). display (host_lba_list t ! i) \<noteq> 0 \<longrightarrow>
        advance (prev_timer (host_lba_list t ! i), prev_counter (host_lba_list t ! i)) (dcounts (os_st t) (g i)) \<and>
        advance (0, 0) (dcounts (os_st t) (g i)))"

text \<open>The displayed adapters are stopped and their counts, in the tool, are the chips'.\<close>

definition settled :: "(nat \<Rightarrow> nat) \<Rightarrow> drv tool \<Rightarrow> bool" where
  "settled g t \<longleftrightarrow> (\<forall>i < length (host_lba_list t). display (host_lba_list t ! i) \<noteq> 0 \<longrightarrow>
     drv_state (g i) t = LBA_UTILSTATE_STOP \<and>
     (timer (host_lba_list t ! i), counter (host_lba_list t ! i)) = dcounts (os_st t) (g i) \<and>
     (prev_timer (host_lba_list t ! i), prev_counter (host_lba_list t ! i)) = dcounts (os_st t) (g i))"

text \<open>Before the first sample the displayed adapters are reset, and the tool has no counts.\<close>

definition uncounted :: "lba_info \<Rightarrow> bool" where
  "uncounted l \<longleftrightarrow> timer l = 0 \<and> counter l = 0 \<and> prev_timer l = 0 \<and> prev_counter l = 0"

definition unsampled :: "(nat \<Rightarrow> nat) \<Rightarrow> drv tool \<Rightarrow> bool" where
  "unsampled g t \<longleftrightarrow> (\<forall>i < length (host_lba_list t). display (host_lba_list t ! i) \<noteq> 0 \<longrightarrow>
     drv_state (g i) t = LBA_UTILSTATE_RESET \<and> uncounted (host_lba_list t ! i))"

text \<open>How a measurement leaves the adapters; \<open>early\<close> tells whether it was interrupted before the first sample.\<close>

definition left :: "bool \<Rightarrow> (nat \<Rightarrow> nat) \<Rightarrow> drv tool \<Rightarrow> bool" where
  "left early g t = (if early then unsampled g t else settled g t)"

lemma shown_displays: "shown ls = length (filter (\<lambda>d. d \<noteq> 0) (map display ls))"
  by (simp add: shown_def filter_map o_def)

lemma last_shown_displays: "last_shown ls \<longleftrightarrow> map display ls \<noteq> [] \<and> last (map display ls) \<noteq> 0"
  by (auto simp: last_shown_def last_map)

lemma sampled_display:
  assumes "sampled g t t'"
  shows "map display (host_lba_list t') = map display (host_lba_list t)"
  using assms by (intro nth_equalityI) (auto simp: sampled_def split: if_splits)

lemma sampled_length: "sampled g t t' \<Longrightarrow> length (host_lba_list t') = length (host_lba_list t)"
  by (simp add: sampled_def)

lemma sampled_display_nth:
  "sampled g t t' \<Longrightarrow> i < length (host_lba_list t) \<Longrightarrow>
   display (host_lba_list t' ! i) = display (host_lba_list t ! i)"
  using arg_cong [OF sampled_display [of g t t'], of "\<lambda>xs. xs ! i"] sampled_length [of g t t'] by simp

lemma sampled_settled:
  assumes "sampled g t t'"
  shows "settled g t'"
  unfolding settled_def
proof (intro allI impI)
  fix i assume i: "i < length (host_lba_list t')" "display (host_lba_list t' ! i) \<noteq> 0"
  then have "i < length (host_lba_list t)" "display (host_lba_list t ! i) \<noteq> 0"
    using sampled_length [OF assms] sampled_display_nth [OF assms] by simp_all
  then have "drv_state (g i) t' = LBA_UTILSTATE_STOP"
    "host_lba_list t' ! i = remember_counts (put_counts (dcounts (os_st t') (g i)) (host_lba_list t ! i))"
    using assms by (simp_all add: sampled_def)
  then show "drv_state (g i) t' = LBA_UTILSTATE_STOP \<and>
     (timer (host_lba_list t' ! i), counter (host_lba_list t' ! i)) = dcounts (os_st t') (g i) \<and>
     (prev_timer (host_lba_list t' ! i), prev_counter (host_lba_list t' ! i)) = dcounts (os_st t') (g i)"
    by (simp add: remember_counts_def)
qed

lemma settled_ready: "settled g t \<Longrightarrow> ready g t"
  by (auto simp: settled_def ready_def)

lemma sample_good:
  assumes files: "sysfs os" and st: "steady os" and good: "good g t" and b: "NUL \<in> set banner"
    and n: "n = shown (host_lba_list t)" "0 < n" "n < 2 ^ 20" and last: "last_shown (host_lba_list t)"
  shows "\<exists>n' t'. sample os banner (line_size (word_of_nat n)) num_lines t = Ret (n', t') \<and> good g t' \<and>
    settled g t' \<and> map display (host_lba_list t') = map display (host_lba_list t) \<and> options t' = options t \<and>
    (\<exists>x. stdout t' = stdout t @ x)"
proof -
  have g: "all_linked g t" "ready g t" "drv_inv (os_st t)" using good by (simp_all add: good_def)
  obtain L t' where L: "length L = length (host_lba_list t)" "all_linked g t'" "sampled g t t'"
      "options t' = options t" "drv_inv (os_st t')" "same_devices (os_st t) (os_st t')"
    and Li: "\<forall>i < length L. L ! i = (if display (host_lba_list t ! i) \<noteq> 0
      then put_counts (dcounts (os_st t') (g i)) (host_lba_list t ! i) else host_lba_list t ! i)"
    and out: "stdout t' = stdout t @ banner_due banner num_lines @ row_of sample_util L @ [newline]"
    and adv: "\<forall>j < length (lba_list (os_st t')). advance (dcounts (os_st t) j) (dcounts (os_st t') j)"
    and eq: "sample os banner (line_size (word_of_nat n)) num_lines t =
      (if line_size (word_of_nat n) < length (row_of sample_util L) + 1 then Crash
       else Ret ((if num_lines = UTIL_ROWS then 0 else num_lines) + 1, t'))"
    using sample_eq [OF files g(1,2), of num_lines banner "line_size (word_of_nat n)"] b g(3) st by blast
  have gi: "g i < length (lba_list (os_st t'))" if "i < length L" for i
    using all_linkedD [OF L(2), of i] that L(1,3) by (auto simp: linked_def sampled_def)
  have move: "advance (prev_timer (host_lba_list t ! i), prev_counter (host_lba_list t ! i)) (dcounts (os_st t') (g i)) \<and>
      advance (0, 0) (dcounts (os_st t') (g i))"
    if i: "i < length L" "display (host_lba_list t ! i) \<noteq> 0" for i
    using good i L(1) adv gi [OF i(1)] by (auto simp: good_def intro: advance_trans)
  have "map display L = map display (host_lba_list t)"
    using L(1) Li by (intro nth_equalityI) auto
  then have w: "shown L = n" "last_shown L" using n last by (simp_all add: shown_displays last_shown_displays)
  have "six sample_util L"
  proof (rule six_sane)
    fix l assume "l \<in> set L" "display l \<noteq> 0"
    then obtain i where i: "i < length L" "l = L ! i" by (auto simp: in_set_conv_nth)
    with \<open>display l \<noteq> 0\<close> Li have d: "display (host_lba_list t ! i) \<noteq> 0"
      "l = put_counts (dcounts (os_st t') (g i)) (host_lba_list t ! i)" by (auto split: if_splits)
    with move [OF i(1)] dcounts_bound(1) [OF L(5) gi [OF i(1)]] show "sane l"
      by (simp add: sane_advance)
  qed
  then have "\<not> line_size (word_of_nat n) < length (row_of sample_util L) + 1"
    using row_fits_iff [of sample_util L n] w n by simp
  moreover have "settled g t'" using L(3) by (rule sampled_settled)
  moreover have "good g t'"
    unfolding good_def
  proof (intro conjI allI impI)
    fix i assume i: "i < length (host_lba_list t')" "display (host_lba_list t' ! i) \<noteq> 0"
    then have "i < length L" "display (host_lba_list t ! i) \<noteq> 0"
      using sampled_length [OF L(3)] sampled_display_nth [OF L(3)] L(1) by simp_all
    then show "advance (0, 0) (dcounts (os_st t') (g i))" using move by blast
    have "(prev_timer (host_lba_list t' ! i), prev_counter (host_lba_list t' ! i)) = dcounts (os_st t') (g i)"
      using \<open>settled g t'\<close> i by (simp add: settled_def)
    then show "advance (prev_timer (host_lba_list t' ! i), prev_counter (host_lba_list t' ! i))
        (dcounts (os_st t') (g i))" by simp
  qed (use L(2,5) \<open>settled g t'\<close> settled_ready in blast)+
  ultimately show ?thesis using eq L(4) out sampled_display [OF L(3)] by auto
qed

text \<open>The loop returns, with no sample left or interrupted.\<close>

lemma loop_good:
  assumes files: "sysfs os" and st: "steady os" and b: "NUL \<in> set banner"
    and n: "0 < n" "n < 2 ^ 20"
  shows "good g t \<Longrightarrow> n = shown (host_lba_list t) \<Longrightarrow> last_shown (host_lba_list t) \<Longrightarrow>
    \<exists>k' t'. sample_loop os banner (line_size (word_of_nat n)) k num_lines t = Ret (k', t') \<and>
      k' \<le> k \<and> (k' = 0 \<or> time_to_quit t' \<noteq> 0) \<and> good g t' \<and> (k' < k \<longrightarrow> settled g t') \<and>
      (k' = k \<longrightarrow> t' = t) \<and> map display (host_lba_list t') = map display (host_lba_list t) \<and>
      options t' = options t \<and> (\<exists>x. stdout t' = stdout t @ x)"
proof (induction k arbitrary: num_lines t)
  case (Suc k)
  show ?case
  proof (cases "time_to_quit t = 0")
    case True
    obtain n' t1 where t1: "sample os banner (line_size (word_of_nat n)) num_lines t = Ret (n', t1)" "good g t1"
      "settled g t1" "map display (host_lba_list t1) = map display (host_lba_list t)"
      "options t1 = options t" "\<exists>x. stdout t1 = stdout t @ x"
      using sample_good [OF files st Suc.prems(1) b Suc.prems(2) n Suc.prems(3), of num_lines] by blast
    have s1: "n = shown (host_lba_list t1)" "last_shown (host_lba_list t1)"
      using Suc.prems(2,3) t1(4) by (simp_all add: shown_displays last_shown_displays)
    obtain k' t' where t': "sample_loop os banner (line_size (word_of_nat n)) k n' t1 = Ret (k', t')" "k' \<le> k"
      "k' = 0 \<or> time_to_quit t' \<noteq> 0" "good g t'" "k' < k \<longrightarrow> settled g t'" "k' = k \<longrightarrow> t' = t1"
      "map display (host_lba_list t') = map display (host_lba_list t1)" "options t' = options t1"
      "\<exists>x. stdout t' = stdout t1 @ x"
      using Suc.IH [OF t1(2) s1, of n'] by blast
    have "settled g t'" using t'(2,5,6) t1(3) by (cases "k' = k") auto
    moreover have "\<exists>x. stdout t' = stdout t @ x" using t1(6) t'(9) by (metis append.assoc)
    ultimately show ?thesis using True t1(1,4,5) t'(1-4,7,8) by auto
  qed (use Suc.prems in auto)
qed simp

section \<open>The whole measurement\<close>

text \<open>A command to all displayed adapters that is legal for each of them.\<close>

lemma command_all:
  assumes files: "sysfs os" and l: "all_linked g t" and i0: "drv_inv (os_st t)"
    and legal: "\<And>i. i < length (host_lba_list t) \<Longrightarrow> display (host_lba_list t ! i) \<noteq> 0 \<Longrightarrow> legal (drv_state (g i) t) c"
  shows "\<exists>d. each_displayed (tool_op os c) (all_lbas t) t = t\<lparr>os_st := d\<rparr> \<and> all_linked g (t\<lparr>os_st := d\<rparr>) \<and>
    drv_inv d \<and> (\<forall>i < length (host_lba_list t). dcounts d (g i) = dcounts (os_st t) (g i) \<and>
      (display (host_lba_list t ! i) \<noteq> 0 \<longrightarrow> drv_state (g i) (t\<lparr>os_st := d\<rparr>) = c))"
proof -
  have a: "distinct (all_lbas t)" "set (all_lbas t) = {..<length (host_lba_list t)}"
    by (auto simp: all_lbas_def)
  obtain d where d: "each_displayed (tool_op os c) (all_lbas t) t = t\<lparr>os_st := d\<rparr>" "same_devices (os_st t) d"
    "\<forall>i < length (host_lba_list t). l_util_state (lba_list d ! g i) =
       (if display (host_lba_list t ! i) \<noteq> 0 \<and> legal (drv_state (g i) t) c then c else drv_state (g i) t)"
    using each_displayed_op [OF files l a(1), of c] a(2) by auto
  have "drv_inv d" "\<forall>j < length (lba_list (os_st t)). dcounts d j = dcounts (os_st t) j"
    using each_displayed_inv [OF files l _ i0, of "all_lbas t" c] a(2) d(1) by simp_all
  moreover have "all_linked g (t\<lparr>os_st := d\<rparr>)"
    by (rule all_linked_same [OF l]) (simp_all add: d(2))
  ultimately show ?thesis
    using d(1,3) legal all_linkedD [OF l]
    by (intro exI [of _ d]) (auto simp: drv_state_def linked_def)
qed

text \<open>The banner ends in the zeros of the fresh memory.\<close>

lemma banner_made:
  assumes files: "sysfs os" and fit: "\<forall>l \<in> set (host_lba_list t). display l \<noteq> 0 \<longrightarrow> fits t l"
    and n: "n = shown (host_lba_list t)" "0 < n" "n < 2 ^ 20" and last: "last_shown (host_lba_list t)"
    and fresh: "\<And>k d. os_fresh os k d = zeroed k"
  shows "\<exists>b. build_banner os (word_of_nat n) t = Ret (Some b, t) \<and> NUL \<in> set b"
proof -
  have malloc: "os_malloc os k d = (True, d)" for k d using files by (simp add: sysfs_def)
  obtain x y where x: "banner_text (word_of_nat n) t = Ret x" "length x + 2 = banner_size (word_of_nat n)"
    "build_banner os (word_of_nat n) t = Ret (Some (x @ y), t)"
    using build_banner_fits [OF fit n last, of os "os_st t"] malloc by auto
  moreover from x(2) have "banner_size (word_of_nat n) - length x = 2" by arith
  ultimately have "build_banner os (word_of_nat n) t = Ret (Some (x @ zeroed 2), t)"
    using malloc fresh by (simp add: build_banner_def zeroed_def banner_text_st)
  then show ?thesis by (auto simp: zeroed_def)
qed

text \<open>The initialisation and the reset before the first sample.\<close>

lemma reset_good:
  assumes files: "sysfs os" and l: "all_linked g t" and i0: "drv_inv (os_st t)"
    and counts: "\<And>i. i < length (host_lba_list t) \<Longrightarrow> display (host_lba_list t ! i) \<noteq> 0 \<Longrightarrow>
      uncounted (host_lba_list t ! i) \<and> advance (0, 0) (dcounts (os_st t) (g i))"
  shows "\<exists>d1 d2. each_displayed (hplba_op_init os) (all_lbas t) t = t\<lparr>os_st := d1\<rparr> \<and>
    each_displayed (hplba_reset os) (all_lbas t) (t\<lparr>os_st := d1\<rparr>) = t\<lparr>os_st := d2\<rparr> \<and> good g (t\<lparr>os_st := d2\<rparr>) \<and>
    unsampled g (t\<lparr>os_st := d2\<rparr>)"
proof -
  obtain d1 where d1: "each_displayed (hplba_op_init os) (all_lbas t) t = t\<lparr>os_st := d1\<rparr>"
    "all_linked g (t\<lparr>os_st := d1\<rparr>)" "drv_inv d1"
    "\<forall>i < length (host_lba_list t). dcounts d1 (g i) = dcounts (os_st t) (g i) \<and>
       (display (host_lba_list t ! i) \<noteq> 0 \<longrightarrow> drv_state (g i) (t\<lparr>os_st := d1\<rparr>) = LBA_UTILSTATE_INIT)"
    using command_all [OF files l i0, of LBA_UTILSTATE_INIT] by (auto simp: legal_def)
  define t3 where "t3 = t\<lparr>os_st := d1\<rparr>"
  have t3: "all_linked g t3" "drv_inv (os_st t3)" "host_lba_list t3 = host_lba_list t" "all_lbas t3 = all_lbas t"
    using d1 by (simp_all add: t3_def all_lbas_def)
  have lg: "legal (drv_state (g i) t3) LBA_UTILSTATE_RESET"
    if "i < length (host_lba_list t3)" "display (host_lba_list t3 ! i) \<noteq> 0" for i
    using that d1(4) by (simp add: t3_def legal_def)
  obtain d2 where d2: "each_displayed (hplba_reset os) (all_lbas t3) t3 = t3\<lparr>os_st := d2\<rparr>"
    "all_linked g (t3\<lparr>os_st := d2\<rparr>)" "drv_inv d2"
    "\<forall>i < length (host_lba_list t). dcounts d2 (g i) = dcounts d1 (g i) \<and>
       (display (host_lba_list t ! i) \<noteq> 0 \<longrightarrow> drv_state (g i) (t3\<lparr>os_st := d2\<rparr>) = LBA_UTILSTATE_RESET)"
    using command_all [OF files t3(1,2) lg] unfolding t3(3) by (auto simp: t3_def)
  have t4: "t3\<lparr>os_st := d2\<rparr> = t\<lparr>os_st := d2\<rparr>" by (simp add: t3_def)
  have "good g (t\<lparr>os_st := d2\<rparr>)"
    unfolding good_def ready_def using d2(2-4) d1(4) counts by (auto simp: t4 uncounted_def)
  moreover have "unsampled g (t\<lparr>os_st := d2\<rparr>)"
    unfolding unsampled_def using d2(4) counts by (auto simp: t4)
  ultimately show ?thesis using d1(1) d2(1) unfolding t3(4) t4 unfolding t3_def by blast
qed

text \<open>The averages at the end are percentages of counts that only went up.\<close>

lemma settled_six:
  assumes g: "good g t" and s: "settled g t"
  shows "six average_util (host_lba_list t)"
  unfolding six_def
proof (intro ballI impI)
  fix q assume "q \<in> set (host_lba_list t)" "display q \<noteq> 0"
  then obtain i where i: "i < length (host_lba_list t)" "q = host_lba_list t ! i" "display q \<noteq> 0"
    by (auto simp: in_set_conv_nth)
  then have q: "(timer q, counter q) = dcounts (os_st t) (g i)" using s by (simp add: settled_def)
  have gi: "g i < length (lba_list (os_st t))" "drv_inv (os_st t)" "advance (0, 0) (dcounts (os_st t) (g i))"
    using g i all_linkedD [of g t i] by (auto simp: good_def linked_def)
  have "unat (timer q) < 2 ^ 48" "unat (counter q) \<le> unat (timer q)"
    using dcounts_bound(1) [OF gi(2,1)] gi(3) unfolding q [symmetric] by (simp_all add: advance_def)
  then show "length (show_f2 (average_util q)) = 6" by (simp add: average_util_def length_percentage)
qed

lemma unsampled_six: "unsampled g t \<Longrightarrow> six average_util (host_lba_list t)"
  unfolding six_def unsampled_def
  by (auto simp: in_set_conv_nth average_util_def uncounted_def length_percentage)

text \<open>The end of a measurement: the banner and the averages.\<close>

lemma averages_printed:
  fixes t :: "drv tool"
  assumes b: "NUL \<in> set b" and n: "n = shown (host_lba_list t)" "0 < n" "n < 2 ^ 20"
    and last: "last_shown (host_lba_list t)" and six: "six average_util (host_lba_list t)"
  shows "bind_o (puts b t) (\<lambda>t1. print_line (line_size (word_of_nat n)) (average_columns (host_lba_list t1)) t1) =
    Ret (emit (buf_str b @ [newline] @ row_of average_util (host_lba_list t) @ [newline]) t)"
proof -
  have "\<not> line_size (word_of_nat n) < length (row_of average_util (host_lba_list t)) + 1"
    using row_fits_iff [of average_util "host_lba_list t" n] n last six by simp
  moreover have row: "row_header '' '' @ average_columns (host_lba_list t) = row_of average_util (host_lba_list t)"
    by (simp add: row_of_def average_columns_eq)
  ultimately have "print_line (line_size (word_of_nat n)) (average_columns (host_lba_list t)) t1 =
      Ret (emit (row_of average_util (host_lba_list t) @ [newline]) t1)" for t1 :: "drv tool"
    unfolding print_line_def Let_def row by simp
  moreover have "puts b t = Ret (emit (buf_str b @ [newline]) t)" using b by (simp add: puts_def c_string_def)
  ultimately show ?thesis by (simp add: emit_def)
qed

text \<open>The loop, started after the reset, with or without an early interrupt.\<close>

lemma loop_left:
  assumes files: "sysfs os" and st: "steady os" and b: "NUL \<in> set b"
    and n: "n = shown (host_lba_list t)" "0 < n" "n < 2 ^ 20" and last: "last_shown (host_lba_list t)"
    and t: "good g t" "unsampled g t" "time_to_quit t = 0" and k: "0 < k"
  shows "\<exists>k' t'. sample_loop os b (line_size (word_of_nat n)) k UTIL_ROWS (if early then sigint_handler t else t) = Ret (k', t') \<and>
    left early g t' \<and> drv_inv (os_st t') \<and> six average_util (host_lba_list t') \<and>
    map display (host_lba_list t') = map display (host_lba_list t) \<and> (\<exists>z. stdout t' = stdout t @ z)"
proof (cases early)
  case True
  have "unsampled g (sigint_handler t)" using t(2) by (simp add: unsampled_def sigint_handler_def drv_state_def)
  moreover have "sample_loop os b (line_size (word_of_nat n)) k UTIL_ROWS (sigint_handler t) = Ret (k, sigint_handler t)"
    using k by (cases k) (simp_all add: sigint_handler_def)
  ultimately show ?thesis
    using True t(1) unsampled_six [of g "sigint_handler t"]
    by (simp add: left_def sigint_handler_def good_def)
next
  case False
  obtain k' t' where l: "sample_loop os b (line_size (word_of_nat n)) k UTIL_ROWS t = Ret (k', t')"
    "k' \<le> k" "k' = 0 \<or> time_to_quit t' \<noteq> 0" "good g t'" "k' < k \<longrightarrow> settled g t'" "k' = k \<longrightarrow> t' = t"
    "map display (host_lba_list t') = map display (host_lba_list t)" "\<exists>z. stdout t' = stdout t @ z"
    using loop_good [OF files st b n(2,3) t(1) n(1) last, of k UTIL_ROWS] by blast
  have "settled g t'" using l(2,3,5,6) t(3) k by (cases "k' = k") auto
  then show ?thesis using False l(1,4,7,8) settled_six [OF l(4)] by (simp add: left_def good_def)
qed

lemma measurement_returns:
  assumes files: "sysfs os" and st: "steady os" and l: "all_linked g t" and i0: "drv_inv (os_st t)"
    and fit: "\<forall>l \<in> set (host_lba_list t). display l \<noteq> 0 \<longrightarrow> fits t l"
    and n: "n = shown (host_lba_list t)" "0 < n" "n < 2 ^ 20" and last: "last_shown (host_lba_list t)"
    and num: "num_lba_display (options t) = word_of_nat n"
    and fresh: "\<And>k d. os_fresh os k d = zeroed k"
    and counts: "\<And>i. i < length (host_lba_list t) \<Longrightarrow> display (host_lba_list t ! i) \<noteq> 0 \<Longrightarrow>
      uncounted (host_lba_list t ! i) \<and> advance (0, 0) (dcounts (os_st t) (g i))"
    and run: "time_to_quit t = 0" "nsamples (options t) \<noteq> 0"
  shows "\<exists>t' x. measure_utilization os t = Ret t' \<and> left (os_early_sigint os) g t' \<and> drv_inv (os_st t') \<and>
    map display (host_lba_list t') = map display (host_lba_list t) \<and>
    stdout t' = stdout t @ x @ row_of average_util (host_lba_list t') @ [newline]"
proof -
  define w :: u32 where "w = word_of_nat n"
  have w: "(ucast (num_lba_display (options t)) :: u32) = w"
    using n(3) by (simp add: num w_def unsigned_of_nat take_bit_nat_def)
  have malloc: "os_malloc os k d = (True, d)" for k d using files by (simp add: sysfs_def)
  obtain b where b: "build_banner os w t = Ret (Some b, t)" and NUL: "NUL \<in> set b"
    using banner_made [OF files fit n last fresh] by (auto simp: w_def)
  obtain d1 d2 where d1: "each_displayed (hplba_op_init os) (all_lbas t) t = t\<lparr>os_st := d1\<rparr>"
    and d2: "each_displayed (hplba_reset os) (all_lbas t) (t\<lparr>os_st := d1\<rparr>) = t\<lparr>os_st := d2\<rparr>"
    and r: "good g (t\<lparr>os_st := d2\<rparr>)" "unsampled g (t\<lparr>os_st := d2\<rparr>)"
    using reset_good [OF files l i0 counts] by blast
  have a3: "all_lbas (t\<lparr>os_st := d1\<rparr>) = all_lbas t" by (simp add: all_lbas_def)
  define t4 where "t4 = t\<lparr>os_st := d2\<rparr>"
  define t5 where "t5 = (if os_early_sigint os then sigint_handler t4 else t4)"
  have h4: "n = shown (host_lba_list t4)" "last_shown (host_lba_list t4)" "time_to_quit t4 = 0"
    using n(1) last run(1) by (simp_all add: t4_def)
  have ns: "nsamples (options t5) = nsamples (options t)" by (simp add: t5_def t4_def sigint_handler_def)
  have "0 < unat (nsamples (options t))" using run(2) by (simp add: unat_gt_0)
  from loop_left [OF files st NUL h4(1) n(2,3) h4(2) r [folded t4_def] h4(3) this, of "os_early_sigint os"]
  obtain k' t6 z where t6: "sample_loop os b (line_size w) (unat (nsamples (options t5))) UTIL_ROWS t5 = Ret (k', t6)"
    "left (os_early_sigint os) g t6" "drv_inv (os_st t6)" "six average_util (host_lba_list t6)"
    "map display (host_lba_list t6) = map display (host_lba_list t)" "stdout t6 = stdout t @ z"
    unfolding ns unfolding t5_def w_def by (auto simp: t4_def)
  define t7 where "t7 = (if k' \<noteq> 0 then emit (interrupted_text (nsamples (options t6) - word_of_nat k')) t6 else t6)"
  have h7: "host_lba_list t7 = host_lba_list t6" "os_st t7 = os_st t6" "\<exists>y. stdout t7 = stdout t @ y"
    using t6(6) by (auto simp: t7_def emit_def)
  then obtain y where y: "stdout t7 = stdout t @ y" by blast
  have s7: "n = shown (host_lba_list t7)" "last_shown (host_lba_list t7)" "six average_util (host_lba_list t7)"
    using n(1) last t6(4,5) by (simp_all add: h7 shown_displays last_shown_displays)
  define t' where "t' = emit (buf_str b @ [newline] @ row_of average_util (host_lba_list t7) @ [newline]) t7"
  note p = averages_printed [OF NUL s7(1) n(2,3) s7(2,3), folded w_def t'_def]
  have same: "t\<lparr>os_st := os_st t\<rparr> = t" by simp
  have "measure_utilization os t = Ret t'"
    unfolding measure_utilization_def Let_def w b bind_o.simps case_prod_conv option.case malloc same
      d1 a3 d2 t4_def [symmetric] t5_def [symmetric]
    using p by (simp add: t6(1) t7_def)
  moreover have "left (os_early_sigint os) g t'"
    using t6(2) by (cases "os_early_sigint os") (simp_all add: left_def settled_def unsampled_def t'_def emit_def h7 drv_state_def)
  moreover have "drv_inv (os_st t')" "map display (host_lba_list t') = map display (host_lba_list t)"
    using t6(3,5) by (simp_all add: t'_def emit_def h7)
  moreover have "stdout t' = stdout t @ (y @ buf_str b @ [newline]) @ row_of average_util (host_lba_list t') @ [newline]"
    by (simp add: t'_def emit_def y)
  ultimately show ?thesis by blast
qed

end
