(* ===== verification/SysProps.thy ===== *)
theory SysProps
  imports Sampling
begin

text \<open>
  The properties of a measurement, tool and driver together, with a concrete operating system
  whose attribute files are the driver's show and store functions and whose counters advance
  while the tool sleeps.
\<close>

section \<open>A concrete operating system\<close>

text \<open>Every attribute file of every adapter, with the functions behind it.\<close>

definition file_entries ::
  "drv \<Rightarrow> (nat \<times> string \<times> (lba \<Rightarrow> mmio \<Rightarrow> string \<times> mmio) \<times>
     (lba \<Rightarrow> string \<Rightarrow> nat \<Rightarrow> mmio \<Rightarrow> int \<times> lba \<times> mmio) option) list" where
  "file_entries d = List.product [0..<length (lba_list d)] lba_device_attrs"

definition find_file where
  "find_file d path =
     List.find (\<lambda>(i, attr, sh, st). attr_path (l_class_id (lba_list d ! i)) attr = path) (file_entries d)"

text \<open>
  Time passes: of a machine with one adapter, the first kind of chip, the time count goes up by
  100 and the busy count by 25, until they get near the end of their range.
\<close>

definition tick_at :: "u64 \<Rightarrow> u64 \<Rightarrow> (u64 \<Rightarrow> u64) \<Rightarrow> u64 \<Rightarrow> u64" where
  "tick_at a b m =
     (if m a < 2 ^ 40 \<and> m b < 2 ^ 40 then m(a := m a + 100, b := m b + 25) else m)"

definition tick :: "drv \<Rightarrow> drv" where
  "tick d =
     (case lba_list d of
        [l] \<Rightarrow> (if l_ops l = chip_ops Apollo_chip
                then d\<lparr>hw := (hw d)\<lparr>cells := tick_at (l_phys_addr l + reg_off (chip_timer Apollo_chip))
                       (l_phys_addr l + reg_off (chip_cntr Apollo_chip)) (cells (hw d))\<rparr>\<rparr>
                else d)
      | _ \<Rightarrow> d)"

lemma tick_list [simp]: "lba_list (tick d) = lba_list d"
  by (simp add: tick_def split: list.split)

lemma counting_tick: "counting d (tick d)"
proof -
  have "cells (hw (tick d)) a = cells (hw d) a"
    if "\<forall>l \<in> set (lba_list d). \<forall>c. l_ops l = chip_ops c \<longrightarrow>
      a \<noteq> l_phys_addr l + reg_off (chip_timer c) \<and> a \<noteq> l_phys_addr l + reg_off (chip_cntr c)" for a
    using that by (auto simp: tick_def tick_at_def split: list.split
        simp del: chip_ops.simps chip_timer.simps chip_cntr.simps)
  then show ?thesis by (simp add: counting_def)
qed

lemma unat_tick:
  "x < 2 ^ 40 \<Longrightarrow> unat (x AND 0xffffffffffff) = unat x \<and> unat ((x + 100) AND 0xffffffffffff) = unat x + 100 \<and>
     unat ((x + 25) AND 0xffffffffffff) = unat x + 25"
  for x :: u64
proof -
  assume "x < 2 ^ 40"
  then have x: "unat x < 2 ^ 40" by (simp add: word_less_nat_alt)
  have a: "unat (y AND 0xffffffffffff) = unat y mod 2 ^ 48" for y :: u64
  proof -
    have "y AND 0xffffffffffff = take_bit 48 y"
      by (simp add: take_bit_eq_mask mask_eq_exp_minus_1)
    then have "unat (y AND 0xffffffffffff) = take_bit 48 (unat y)"
      by (simp only: unsigned_take_bit_eq)
    then show ?thesis by (simp only: take_bit_eq_mod)
  qed
  show ?thesis using x by (simp add: a unat_word_ariths)
qed

definition demo_sys :: "drv os" where
  "demo_sys =
     \<lparr>os_page_size = 64, os_malloc = (\<lambda>n d. (True, d)),
      os_open_r = (\<lambda>p d. find_file d p \<noteq> None),
      os_open_w = (\<lambda>p d. case find_file d p of Some (i, a, sh, Some f) \<Rightarrow> True | _ \<Rightarrow> False),
      os_read = (\<lambda>p d. case find_file d p of
                   Some (i, a, sh, st) \<Rightarrow>
                     (Some (fst (sh (lba_list d ! i) (hw d))), d\<lparr>hw := snd (sh (lba_list d ! i) (hw d))\<rparr>)
                 | None \<Rightarrow> (None, d)),
      os_write = (\<lambda>p data d. case find_file d p of
                    Some (i, a, sh, Some f) \<Rightarrow>
                      (let (r, l', m') = f (lba_list d ! i) (buf_str data) (length data) (hw d)
                       in (r, d\<lparr>lba_list := (lba_list d)[i := l'], hw := m'\<rparr>))
                  | _ \<Rightarrow> (- 1, d)),
      os_dir = (\<lambda>p d. if p = ''/sys/class/hplba'' then Some (map l_class_id (lba_list d)) else None),
      os_stat = (\<lambda>p d. True), os_readlink = (\<lambda>p d. None), os_stack = (\<lambda>d n. 0),
      os_fresh = (\<lambda>n d. replicate n NUL),
      os_sleep = (\<lambda>n d. (False, tick d)), os_early_sigint = False,
      os_euid = 0\<rparr>"

lemma find_only:
  "x \<in> set xs \<Longrightarrow> P x \<Longrightarrow> (\<And>y. y \<in> set xs \<Longrightarrow> P y \<Longrightarrow> y = x) \<Longrightarrow> List.find P xs = Some x"
proof (induction xs)
  case (Cons z zs)
  show ?case
  proof (cases "P z")
    case True
    then have "z = x" using Cons.prems(3) [of z] by simp
    then show ?thesis using True by simp
  next
    case False
    then have "x \<in> set zs" using Cons.prems(1,2) by auto
    then have "List.find P zs = Some x"
      by (rule Cons.IH [OF _ Cons.prems(2)]) (use Cons.prems(3) in auto)
    then show ?thesis using False by simp
  qed
qed simp

lemma attr_path_inj:
  assumes "attr_path n a = attr_path n' a'" "CHR ''/'' \<notin> set a" "CHR ''/'' \<notin> set a'"
  shows "n = n' \<and> a = a'"
proof -
  have "basename (attr_path n a) = a" "basename (attr_path n' a') = a'"
    using assms(2,3) basename_append [of _ "''/sys/class/hplba/'' @ n"]
      basename_append [of _ "''/sys/class/hplba/'' @ n'"] by (simp_all add: attr_path_def)
  with assms(1) have "a = a'" by simp
  with assms(1) show ?thesis by (simp add: attr_path_def)
qed

lemma attr_names:
  assumes "(a, sh, st) \<in> set lba_device_attrs"
  shows "CHR ''/'' \<notin> set a"
    and "(a, sh', st') \<in> set lba_device_attrs \<Longrightarrow> sh' = sh \<and> st' = st"
  using assms by (auto simp: lba_device_attrs_def)

lemma find_file_attr:
  assumes "names_ok d" "i < length (lba_list d)" "(a, sh, st) \<in> set lba_device_attrs"
  shows "find_file d (attr_path (l_class_id (lba_list d ! i)) a) = Some (i, a, sh, st)"
  unfolding find_file_def
proof (rule find_only)
  show "(i, a, sh, st) \<in> set (file_entries d)" using assms(2,3) by (simp add: file_entries_def)
next
  fix y assume y: "y \<in> set (file_entries d)"
    "case y of (k, b, sh, st) \<Rightarrow> attr_path (l_class_id (lba_list d ! k)) b = attr_path (l_class_id (lba_list d ! i)) a"
  obtain k b sh' st' where yk: "y = (k, b, sh', st')" by (cases y)
  with y have k: "k < length (lba_list d)" "(b, sh', st') \<in> set lba_device_attrs"
    "attr_path (l_class_id (lba_list d ! k)) b = attr_path (l_class_id (lba_list d ! i)) a"
    by (simp_all add: file_entries_def)
  from attr_path_inj [OF k(3) attr_names(1) [OF k(2)] attr_names(1) [OF assms(3)]]
  have n: "l_class_id (lba_list d ! k) = l_class_id (lba_list d ! i)" "b = a" by simp_all
  have "distinct (map l_class_id (lba_list d))" using assms(1) by (simp add: names_ok_def)
  then have "k = i" using n(1) k(1) assms(2) nth_eq_iff_index_eq [of "map l_class_id (lba_list d)" k i] by simp
  then show "y = (i, a, sh, st)" using yk n(2) k(2) attr_names(2) [OF assms(3)] by simp
qed simp

lemma demo_sysfs: "sysfs demo_sys"
  unfolding sysfs_def Let_def
  by (auto simp: demo_sys_def find_file_attr counting_tick)

text \<open>Its clock is a steady one.\<close>

lemma demo_steady: "steady demo_sys"
  unfolding steady_def
proof (intro allI impI)
  fix n d j assume inv: "drv_inv d" and j: "j < length (lba_list d)"
  have "advance (dcounts d j) (dcounts (tick d) j)"
  proof (cases "\<exists>l. lba_list d = [l] \<and> l_ops l = chip_ops Apollo_chip")
    case True
    then obtain l where l: "lba_list d = [l]" "l_ops l = chip_ops Apollo_chip" by blast
    with j have j0: "j = 0" by simp
    define a b where "a = l_phys_addr l + reg_off (chip_timer Apollo_chip)"
      and "b = l_phys_addr l + reg_off (chip_cntr Apollo_chip)"
    have ab: "a \<noteq> b" by (simp add: a_def b_def)
    have f: "field_val (l_phys_addr l) (chip_timer Apollo_chip) m = cells m a AND 0xffffffffffff"
      "field_val (l_phys_addr l) (chip_cntr Apollo_chip) m = cells m b AND 0xffffffffffff" for m
      by (simp_all add: field_val_def a_def b_def apollo_regs)
    have c: "dcounts d j = (cells (hw d) a AND 0xffffffffffff, cells (hw d) b AND 0xffffffffffff)"
      "dcounts (tick d) j = (tick_at a b (cells (hw d)) a AND 0xffffffffffff,
         tick_at a b (cells (hw d)) b AND 0xffffffffffff)"
      unfolding dcounts_def tick_list l(1) j0 nth_Cons_0 counts_chip [OF l(2)] f
      by (simp_all add: tick_def l a_def b_def del: chip_ops.simps chip_timer.simps chip_cntr.simps)
    show ?thesis unfolding c advance_def tick_at_def fst_conv snd_conv
      using ab unat_tick [of "cells (hw d) a"] unat_tick [of "cells (hw d) b"] by auto
  next
    case False
    then have "tick d = d" by (auto simp: tick_def split: list.split)
    then show ?thesis by simp
  qed
  then show "advance (dcounts d j) (dcounts (snd (os_sleep demo_sys n d)) j)" by (simp add: demo_sys_def)
qed

section \<open>A tool on that system\<close>

definition demo_drv_tool :: "drv tool" where
  "demo_drv_tool =
     \<lparr>os_st = demo_drv1, prg_name = [NUL], read_buf = False,
      options =
        \<lparr>opt_verbose = 0, opt_debug = 0, opt_show_info = 0, opt_match_bus = - 1, opt_match_domain = - 1,
         opt_match_and = 1, opt_match_or = 0, opt_match_cabinet = None, opt_match_bay = None,
         opt_match_chassis = None, opt_match_slot = None, opt_match_lspci = None, num_lba = 1,
         num_lba_display = 1, nsamples = 3, timeout = 1\<rparr>,
      time_to_quit = 0, host_lba_list = [demo_lba_info ''0000:10:00.0'' 1],
      sys_info = snd (integrity_init_sys_info undefined), tree = demo_tree, collect_buf = False,
      stdout = []\<rparr>"

lemma demo_drv_fits: "l \<in> set (host_lba_list demo_drv_tool) \<Longrightarrow> fits demo_drv_tool l"
proof -
  have "slots_text '', '' demo_tree [0, 1] = Ret ''7, 8''" by code_simp
  moreover assume "l \<in> set (host_lba_list demo_drv_tool)"
  ultimately show ?thesis
    by (auto simp: fits_def demo_drv_tool_def demo_lba_info_def bridge_slots_def demo_tree_def str_arg_def)
qed

lemma demo_drv_lists:
  "lba_list demo_drv1 = [demo_lba]" "host_lba_list demo_drv_tool = [demo_lba_info ''0000:10:00.0'' 1]"
  "os_st demo_drv_tool = demo_drv1"
  by (simp_all add: demo_drv1_def demo_drv_tool_def)

lemma demo_apollo: "\<exists>c. apollo_ops = chip_ops c"
  by (intro exI [of _ Apollo_chip]) simp

lemma demo_linked: "linked 0 0 demo_drv_tool"
  using demo_apollo by (auto simp: linked_def demo_drv_lists names_ok_def known_chip_def demo_lba_def demo_lba_info_def)

lemma demo_all_linked: "all_linked (\<lambda>i. i) demo_drv_tool"
  using demo_linked by (simp add: all_linked_def demo_drv_lists)

lemma demo_drv_inv: "drv_inv demo_drv1"
  using demo_apollo by (auto simp: drv_inv_def demo_drv_lists lba_ok_def hw_agrees_def demo_lba_def)

lemma demo_dcounts: "dcounts demo_drv1 0 = (0, 0)"
  unfolding dcounts_def demo_drv_lists nth_Cons_0 counts_chip [OF demo_ops]
  by (simp add: field_val_def apollo_regs demo_drv1_def demo_hw_def log_event_def demo_lba_def)

section \<open>The properties\<close>

text \<open>
  C12. The tool's commands drive the driver's state machine legally: for an adapter the driver
  knows, in whatever state it is, all commands of a measurement, \<open>hplba_init\<close>, \<open>hplba_reset\<close> and
  then any number of \<open>hplba_start\<close> and \<open>hplba_stop\<close>, are accepted through its \<open>utilization\<close> file.
\<close>

theorem session_commands_accepted:
  assumes "sysfs os" "linked i j t"
  shows "fst (run_cmds (\<lambda>c. tool_op os c i) (session n) t) = replicate (2 * n + 2) 0 \<and>
    linked i j (snd (run_cmds (\<lambda>c. tool_op os c i) (session n) t))"
  using util_machine.session_accepted [OF op_machine [OF assms(1)] assms(2)] .

theorem session_commands_accepted_witness:
  "fst (run_cmds (\<lambda>c. tool_op demo_sys c 0) (session 2) demo_drv_tool) = [0, 0, 0, 0, 0, 0]"
  using session_commands_accepted [OF demo_sysfs demo_linked, of 2] by (simp add: numeral_eq_Suc)




text \<open>One sample, after the adapter was initialised and reset.\<close>

definition demo_reset_tool :: "drv tool" where
  "demo_reset_tool = demo_drv_tool\<lparr>os_st := drv_after LBA_UTILSTATE_RESET 0 (drv_after LBA_UTILSTATE_INIT 0 demo_drv1)\<rparr>"

lemma demo_reset:
  "all_linked (\<lambda>i. i) demo_reset_tool" "ready (\<lambda>i. i) demo_reset_tool" "drv_inv (os_st demo_reset_tool)"
proof -
  have 1: "same_devices demo_drv1 (drv_after LBA_UTILSTATE_INIT 0 demo_drv1)"
    by (rule same_devices_after) (simp add: demo_drv_lists)
  have s1: "length (lba_list (drv_after LBA_UTILSTATE_INIT 0 demo_drv1)) = 1"
    "l_util_state (lba_list (drv_after LBA_UTILSTATE_INIT 0 demo_drv1) ! 0) = LBA_UTILSTATE_INIT"
    by (simp_all add: drv_after_def demo_drv_lists Let_def)
  have 2: "same_devices demo_drv1 (os_st demo_reset_tool)"
    using same_devices_trans [OF 1 same_devices_after] s1 by (simp add: demo_reset_tool_def)
  have h: "host_lba_list demo_reset_tool = host_lba_list demo_drv_tool" by (simp add: demo_reset_tool_def)
  show "all_linked (\<lambda>i. i) demo_reset_tool"
    by (rule all_linked_same [OF demo_all_linked]) (simp_all add: 2 h demo_drv_lists(3))
  show "ready (\<lambda>i. i) demo_reset_tool"
    using s1 by (simp add: ready_def h demo_drv_lists(2) drv_state_def demo_reset_tool_def drv_after_def Let_def)
  have "drv_inv (drv_after LBA_UTILSTATE_INIT 0 demo_drv1)"
    by (rule drv_inv_after [OF demo_drv_inv]) (simp_all add: demo_drv_lists legal_def demo_lba_def)
  then show "drv_inv (os_st demo_reset_tool)"
    unfolding demo_reset_tool_def using s1 by (simp add: drv_inv_after legal_def)
qed


text \<open>
  C17. A row of percentages of the usual width fits the block allocated for it exactly when the
  last adapter of the list is displayed: otherwise a separator follows the last column and the
  row is written two characters past the end of the block.
\<close>

theorem row_fits_block:
  assumes "six average_util ls" "n = shown ls" "0 < n" "n < 2 ^ 20"
  shows "print_line (line_size (word_of_nat n)) (average_columns ls) t =
    (if last_shown ls then Ret (emit (row_of average_util ls @ [newline]) t) else Crash)"
  using row_fits_iff [OF assms] by (simp add: print_line_def average_columns_eq row_of_def)

theorem row_fits_block_witness:
  "print_line (line_size 1) (average_columns (host_lba_list (demo_tool 1 0))) demo_drv_tool = Crash"
proof -
  have "six average_util (host_lba_list (demo_tool 1 0))"
    by (auto simp: six_def demo_tool_def demo_lba_info_def average_util_def zero_lba_def length_percentage)
  then show ?thesis
    using row_fits_block [of "host_lba_list (demo_tool 1 0)" 1 demo_drv_tool]
    by (simp add: shown_def last_shown_def demo_tool_def demo_lba_info_def)
qed

end
