(* ===== verification/Discovery.thy ===== *)
theory Discovery
  imports SysProps
begin

text \<open>
  Discovery of an adapter through the driver: \<open>init_lba\<close> of src/pcitop.c on attribute files that
  run the show functions of drivers/hplba_sysfs.c. What the tool records is what the chip says.
  Then the names: the tool reads the PCI address from the name the driver gave.
\<close>

section \<open>The texts of the attributes\<close>

text \<open>
  The text an attribute shows while the registers are as in \<open>m\<close>, without its newline.
\<close>

definition shows_line :: "(lba \<Rightarrow> mmio \<Rightarrow> string \<times> mmio) \<Rightarrow> lba \<Rightarrow> mmio \<Rightarrow> string \<Rightarrow> bool" where
  "shows_line sh l m line \<longleftrightarrow> cstring line \<and> length line \<le> 60 \<and>
     (\<forall>m'. cells m' = cells m \<longrightarrow>
        fst (sh l m') = line @ [newline] \<and> cells (snd (sh l m')) = cells m)"

lemma field_val_cells: "cells m' = cells m \<Longrightarrow> field_val b r m' = field_val b r m"
  by (simp add: field_val_def)

lemma chip_mode_cells: "cells m' = cells m \<Longrightarrow> chip_mode c b m' = chip_mode c b m"
  by (cases c) (simp_all add: chip_mode_def field_val_def)

lemma chip_speed_cells: "cells m' = cells m \<Longrightarrow> chip_speed c b m' = chip_speed c b m"
  by (cases c) (simp_all add: chip_speed_def field_val_def)

lemma mode_name: "cstring (hplba_bus_op_mode_to_str drv_bus_op_modes_tab v)"
  "length (hplba_bus_op_mode_to_str drv_bus_op_modes_tab v) \<le> 60"
  by (induction v; code_simp)+

lemma speed_name: "cstring (hplba_bus_speed_to_str drv_bus_speeds_tab v)"
  "length (hplba_bus_speed_to_str drv_bus_speeds_tab v) \<le> 60"
  by (induction v; code_simp)+

lemma mode_line:
  assumes "l_ops l = chip_ops c"
  shows "shows_line bus_op_mode_show l m
    (hplba_bus_op_mode_to_str drv_bus_op_modes_tab (chip_mode c (l_phys_addr l) m))"
proof -
  have "fst (bus_op_mode_show l m') = hplba_bus_op_mode_to_str drv_bus_op_modes_tab (chip_mode c (l_phys_addr l) m) @ [newline] \<and>
      cells (snd (bus_op_mode_show l m')) = cells m" if "cells m' = cells m" for m'
    using chip.show_frames(2) [of c] chip_mode_cells [OF that, of c "l_phys_addr l"] that
    by (simp add: bus_op_mode_show_def case_prod_beta assms show_str_def chip_mode_shown reads_only_def)
  then show ?thesis by (simp add: shows_line_def mode_name)
qed

lemma speed_line:
  assumes "l_ops l = chip_ops c"
  shows "shows_line bus_speed_show l m
    (hplba_bus_speed_to_str drv_bus_speeds_tab (chip_speed c (l_phys_addr l) m))"
proof -
  have "fst (bus_speed_show l m') = hplba_bus_speed_to_str drv_bus_speeds_tab (chip_speed c (l_phys_addr l) m) @ [newline] \<and>
      cells (snd (bus_speed_show l m')) = cells m" if "cells m' = cells m" for m'
    using chip.show_frames(3) [of c] chip_speed_cells [OF that, of c "l_phys_addr l"] that
    by (simp add: bus_speed_show_def case_prod_beta assms show_str_def chip_speed_shown reads_only_def)
  then show ?thesis by (simp add: shows_line_def speed_name)
qed

text \<open>The revision text and the rope count of a chip.\<close>

definition revision_text :: "addr \<Rightarrow> mmio \<Rightarrow> string" where
  "revision_text b m =
     show_nat (unat (drop_bit 4 (cells m (b + 8)) AND 0xf)) @ ''.'' @ show_nat (unat (cells m (b + 8) AND 0xf))"

lemma revision_shown: "fst (revision (chip_ops c) b m) = Some (revision_text b m)"
  unfolding revision_text_def
  using revision_fits [of "drop_bit 4 (cells m (b + 8)) AND 0xf" "cells m (b + 8) AND 0xf"]
  by (cases c) (simp_all add: apollo_op_defs gemini_op_defs mercury_op_defs reg_simps
      field_val_def apollo_regs gemini_regs mercury_regs and.assoc)

lemma revision_text_ok: "cstring (revision_text b m)" "length (revision_text b m) \<le> 5"
proof -
  have b: "unat (drop_bit 4 (cells m (b + 8)) AND 0xf) < 100" "unat (cells m (b + 8) AND 0xf) < 100"
    using unat_and_le [of "drop_bit 4 (cells m (b + 8))" "0xf"] unat_and_le [of "cells m (b + 8)" "0xf"]
    by simp_all
  show "length (revision_text b m) \<le> 5"
    using length_show_nat_le2 [OF b(1)] length_show_nat_le2 [OF b(2)] by (simp add: revision_text_def)
  show "cstring (revision_text b m)"
    by (simp add: revision_text_def cstring_def [of "CHR ''.'' # s" for s] NUL_def
        show_nat_cstring [unfolded cstring_def NUL_def] cstring_def)
qed

lemma revision_line:
  assumes "l_ops l = chip_ops c"
  shows "shows_line revision_show l m (revision_text (l_phys_addr l) m)"
proof -
  have "fst (revision_show l m') = revision_text (l_phys_addr l) m @ [newline] \<and>
      cells (snd (revision_show l m')) = cells m" if "cells m' = cells m" for m'
    using chip.show_frames(1) [of c] that
    by (simp add: revision_show_def case_prod_beta assms show_str_def revision_shown reads_only_def revision_text_def)
  then show ?thesis using revision_text_ok [of "l_phys_addr l" m] by (simp add: shows_line_def)
qed

lemma ropes_values: "fst (ropes (chip_ops c) b m) \<in> {1, 2, 4}"
  by (cases c) (auto simp: apollo_op_defs gemini_op_defs mercury_op_defs reg_simps)

lemma ropes_cells: "cells m' = cells m \<Longrightarrow> fst (ropes (chip_ops c) b m') = fst (ropes (chip_ops c) b m)"
  by (cases c) (simp_all add: apollo_op_defs gemini_op_defs mercury_op_defs reg_simps field_val_def)

lemma ropes_line:
  assumes "l_ops l = chip_ops c"
  shows "shows_line ropes_show l m (show_int (fst (ropes (chip_ops c) (l_phys_addr l) m)))"
proof -
  define n where "n = fst (ropes (chip_ops c) (l_phys_addr l) m)"
  have n: "n = 1 \<or> n = 2 \<or> n = 4" using ropes_values [of c "l_phys_addr l" m] by (auto simp: n_def)
  have "cstring (show_int n)" "length (show_int n) \<le> 60"
    using n by (auto simp: show_int_def length_show_nat_1)
  moreover have "fst (ropes_show l m') = show_int n @ [newline] \<and>
      cells (snd (ropes_show l m')) = cells m" if "cells m' = cells m" for m'
    using chip.show_frames(4) [of c] ropes_cells [OF that, of c "l_phys_addr l"] that
    by (simp add: ropes_show_def case_prod_beta assms n_def reads_only_def)
  ultimately show ?thesis by (simp add: shows_line_def n_def)
qed

lemma atoi_show_small: "n = 1 \<or> n = 2 \<or> n = 4 \<Longrightarrow> atoi (show_int n) = n"
  using scan_d_show_nat [of "nat n" "[]"] by (auto simp: show_int_def atoi_def no_digit_def)

text \<open>The function id, printed in hexadecimal with its prefix and read back.\<close>

lemma func_id_bound: "unat (field_val b LBA_FUNC_ID m) < 2 ^ 16"
  using field_val_le [of b LBA_FUNC_ID m] by (simp add: LBA_FUNC_ID_def)

lemma function_id_line:
  "shows_line function_id_show l m (show_alt_hex (unat (field_val (l_phys_addr l) LBA_FUNC_ID m)))"
proof -
  define n where "n = unat (field_val (l_phys_addr l) LBA_FUNC_ID m)"
  have n: "n < 16 ^ 4" using func_id_bound [of "l_phys_addr l" m] by (simp add: n_def)
  have "cstring (show_alt_hex n)" "length (show_alt_hex n) \<le> 60"
    using show_base_cstring [of 16 n] length_show_base_le [of 16 n 4] n
    by (auto simp: show_alt_hex_def cstring_def NUL_def)
  moreover have "fst (function_id_show l m') = show_alt_hex n @ [newline] \<and>
      cells (snd (function_id_show l m')) = cells m" if "cells m' = cells m" for m'
    using that by (simp add: function_id_show_def lba_reg_eq LBA_FUNC_ID_def n_def field_val_def log_event_def)
  ultimately show ?thesis by (simp add: shows_line_def n_def)
qed

section \<open>Discovery of one adapter\<close>

text \<open>The tool after reads: the registers are the same, only the log of accesses has grown.\<close>

definition after_reads :: "drv tool \<Rightarrow> mmio \<Rightarrow> bool \<Rightarrow> drv tool" where
  "after_reads t m rb = t\<lparr>os_st := (os_st t)\<lparr>hw := m\<rparr>, read_buf := rb\<rparr>"

lemma read_step:
  assumes files: "sysfs os" and j: "names_ok (os_st t)" "j < length (lba_list (os_st t))"
    and name: "li_name lba = l_class_id (lba_list (os_st t) ! j)"
    and m: "cells m = cells (hw (os_st t))" and a: "length a = PAGE os"
    and attr: "(attr, sh, st) \<in> set lba_device_attrs"
    and line: "shows_line sh (lba_list (os_st t) ! j) (hw (os_st t)) line"
  shows "\<exists>b m'. read_lba_attribute os lba attr a (after_reads t m rb) = Ret (0, b, after_reads t m' True) \<and>
    length b = PAGE os \<and> c_string b = Some line \<and> cells m' = cells (hw (os_st t))"
proof -
  let ?l = "lba_list (os_st t) ! j" and ?t = "after_reads t m rb"
  have l: "fst (sh ?l m) = line @ [newline]" "cells (snd (sh ?l m)) = cells (hw (os_st t))"
    "cstring line" "length line \<le> 60"
    using line m by (simp_all add: shows_line_def)
  have s: "lba_list (os_st ?t) = lba_list (os_st t)" "hw (os_st ?t) = m" "names_ok (os_st ?t) = names_ok (os_st t)"
    by (simp_all add: after_reads_def names_ok_def)
  have "length attr \<le> 64" using attr by (auto simp: lba_device_attrs_def)
  from read_line [OF files, of ?t j attr sh st lba line a, unfolded s, OF j attr this name l(1,3,4) a]
  obtain b where b: "read_lba_attribute os lba attr a ?t =
      Ret (0, b, ?t\<lparr>os_st := (os_st ?t)\<lparr>hw := snd (sh ?l m)\<rparr>, read_buf := True\<rparr>)"
    "length b = PAGE os" "c_string b = Some line" by blast
  have "?t\<lparr>os_st := (os_st ?t)\<lparr>hw := snd (sh ?l m)\<rparr>, read_buf := True\<rparr> = after_reads t (snd (sh ?l m)) True"
    by (simp add: after_reads_def)
  with b l(2) show ?thesis by auto
qed

definition id_of_name :: "string \<Rightarrow> pci_id \<Rightarrow> pci_id" where
  "id_of_name name junk = snd (name_to_pci_id name junk)"

text \<open>The record \<open>init_lba\<close> makes for an adapter of the driver.\<close>

definition found_lba :: "chip \<Rightarrow> lba \<Rightarrow> mmio \<Rightarrow> pci_id \<Rightarrow> lba_info" where
  "found_lba c l m junk = zero_lba
     \<lparr>li_name := l_class_id l, li_pci_id := id_of_name (l_class_id l) junk, display := 1, in_use := 1,
      bus_type := Some (hplba_bus_op_mode_to_str top_bus_op_modes_tab (chip_mode c (l_phys_addr l) m)),
      li_bus_speed := Some (hplba_bus_speed_to_str top_bus_speeds_tab (chip_speed c (l_phys_addr l) m)),
      li_id := ucast (field_val (l_phys_addr l) LBA_FUNC_ID m),
      li_revision := strncpy (zeroed REV_LEN) (revision_text (l_phys_addr l) m) REV_LEN,
      li_ropes := word_of_int (fst (ropes (chip_ops c) (l_phys_addr l) m))\<rparr>"

lemma scan_id_func:
  "(case scan_id (show_alt_hex (unat (field_val b LBA_FUNC_ID m))) of Some v \<Rightarrow> v | None \<Rightarrow> 0) =
   (ucast (field_val b LBA_FUNC_ID m) :: u32)"
proof (cases "unat (field_val b LBA_FUNC_ID m) = 0")
  case True
  then have "field_val b LBA_FUNC_ID m = 0" by (simp add: unat_eq_0)
  then show ?thesis by (simp add: show_alt_hex_def scan_id_def scan_lits.simps scan_lit_def)
next
  case False
  define n where "n = unat (field_val b LBA_FUNC_ID m)"
  have n: "n < 2 ^ 16" "n \<noteq> 0" using func_id_bound [of b m] False by (simp_all add: n_def)
  have c: "hex_digits (show_base 16 n)"
    using show_base_digits [of 16 n] by (auto simp: hex_digits_def)
  have "scan_x (show_base 16 n) = Some (ucast (clamp_ulong False n), [])"
    using hex_digits_no_space [OF c, of "[]"] read_show_base [of 16 "[]" n]
    by (simp add: scan_x_def scan_hex_body_digits [OF c] no_digit_def)
  moreover have "clamp_ulong False n = word_of_nat n"
    using n by (simp add: clamp_ulong_def)
  moreover have "(ucast (word_of_nat n :: u64) :: u32) = ucast (field_val b LBA_FUNC_ID m)"
    by (simp add: n_def)
  ultimately show ?thesis using n
    by (simp add: n_def [symmetric] show_alt_hex_def scan_id_def scan_lits.simps scan_lit_def)
qed

lemma modes_and_speeds_read:
  "hplba_bus_op_mode_to_value top_bus_op_modes_tab (hplba_bus_op_mode_to_str drv_bus_op_modes_tab v) = v"
  "hplba_bus_speed_to_value top_bus_speeds_tab (hplba_bus_speed_to_str drv_bus_speeds_tab w) = w"
  unfolding bus_op_mode_to_str_drv bus_speed_to_str_drv by (rule mode_names_agree speed_names_agree)+

text \<open>The five attributes of an adapter are read one after the other into the same buffer.\<close>

lemma attributes_read:
  assumes files: "sysfs os" and j: "names_ok (os_st t)" "j < length (lba_list (os_st t))"
    and name: "li_name lba = l_class_id (lba_list (os_st t) ! j)"
    and ops: "l_ops (lba_list (os_st t) ! j) = chip_ops c"
  defines "l \<equiv> lba_list (os_st t) ! j"
  obtains a1 m1 a2 m2 a3 m3 a4 m4 a5 m5 where
    "read_lba_attribute os lba ''bus_mode'' (zeroed (PAGE os)) t = Ret (0, a1, after_reads t m1 True)"
    "c_string a1 = Some (hplba_bus_op_mode_to_str drv_bus_op_modes_tab
       (chip_mode c (l_phys_addr l) (hw (os_st t))))"
    "read_lba_attribute os lba ''bus_speed'' a1 (after_reads t m1 True) = Ret (0, a2, after_reads t m2 True)"
    "c_string a2 = Some (hplba_bus_speed_to_str drv_bus_speeds_tab
       (chip_speed c (l_phys_addr l) (hw (os_st t))))"
    "read_lba_attribute os lba ''function_id'' a2 (after_reads t m2 True) = Ret (0, a3, after_reads t m3 True)"
    "c_string a3 = Some (show_alt_hex (unat (field_val (l_phys_addr l) LBA_FUNC_ID (hw (os_st t)))))"
    "read_lba_attribute os lba ''revision'' a3 (after_reads t m3 True) = Ret (0, a4, after_reads t m4 True)"
    "c_string a4 = Some (revision_text (l_phys_addr l) (hw (os_st t)))"
    "read_lba_attribute os lba ''ropes'' a4 (after_reads t m4 True) = Ret (0, a5, after_reads t m5 True)"
    "c_string a5 = Some (show_int (fst (ropes (chip_ops c) (l_phys_addr l) (hw (os_st t)))))"
    "cells m5 = cells (hw (os_st t))"
proof -
  have mem: "set lba_device_attrs \<supseteq> {(''bus_mode'', bus_op_mode_show, None), (''bus_speed'', bus_speed_show, None),
      (''function_id'', function_id_show, None), (''revision'', revision_show, None), (''ropes'', ropes_show, None)}"
    by (simp add: lba_device_attrs_def)
  note rd = read_step [OF files j name]
  have t0: "after_reads t (hw (os_st t)) (read_buf t) = t" by (simp add: after_reads_def)
  obtain a1 m1 where r1: "read_lba_attribute os lba ''bus_mode'' (zeroed (PAGE os)) t = Ret (0, a1, after_reads t m1 True)"
    "length a1 = PAGE os" "c_string a1 = Some (hplba_bus_op_mode_to_str drv_bus_op_modes_tab
       (chip_mode c (l_phys_addr l) (hw (os_st t))))" "cells m1 = cells (hw (os_st t))"
    using rd [OF refl, of "zeroed (PAGE os)" "''bus_mode''" bus_op_mode_show None _ "read_buf t"] mem mode_line [OF ops]
    unfolding t0 by (fastforce simp: zeroed_def l_def)
  obtain a2 m2 where r2: "read_lba_attribute os lba ''bus_speed'' a1 (after_reads t m1 True) = Ret (0, a2, after_reads t m2 True)"
    "length a2 = PAGE os" "c_string a2 = Some (hplba_bus_speed_to_str drv_bus_speeds_tab
       (chip_speed c (l_phys_addr l) (hw (os_st t))))" "cells m2 = cells (hw (os_st t))"
    using rd [OF r1(4,2), of "''bus_speed''" bus_speed_show None _ True] mem speed_line [OF ops] by (fastforce simp: l_def)
  obtain a3 m3 where r3: "read_lba_attribute os lba ''function_id'' a2 (after_reads t m2 True) = Ret (0, a3, after_reads t m3 True)"
    "length a3 = PAGE os" "c_string a3 = Some (show_alt_hex (unat (field_val (l_phys_addr l) LBA_FUNC_ID (hw (os_st t)))))"
    "cells m3 = cells (hw (os_st t))"
    using rd [OF r2(4,2), of "''function_id''" function_id_show None _ True] mem function_id_line by (fastforce simp: l_def)
  obtain a4 m4 where r4: "read_lba_attribute os lba ''revision'' a3 (after_reads t m3 True) = Ret (0, a4, after_reads t m4 True)"
    "length a4 = PAGE os" "c_string a4 = Some (revision_text (l_phys_addr l) (hw (os_st t)))"
    "cells m4 = cells (hw (os_st t))"
    using rd [OF r3(4,2), of "''revision''" revision_show None _ True] mem revision_line [OF ops] by (fastforce simp: l_def)
  obtain a5 m5 where r5: "read_lba_attribute os lba ''ropes'' a4 (after_reads t m4 True) = Ret (0, a5, after_reads t m5 True)"
    "length a5 = PAGE os" "c_string a5 = Some (show_int (fst (ropes (chip_ops c) (l_phys_addr l) (hw (os_st t)))))"
    "cells m5 = cells (hw (os_st t))"
    using rd [OF r4(4,2), of "''ropes''" ropes_show None _ True] mem ropes_line [OF ops] by (fastforce simp: l_def)
  show thesis
    by (rule that [OF r1(1,3) r2(1,3) r3(1,3) r4(1,3) r5(1,3,4)])
qed

lemma init_lba_eq:
  assumes files: "sysfs os" and j: "names_ok (os_st t)" "j < length (lba_list (os_st t))"
    and ops: "l_ops (lba_list (os_st t) ! j) = chip_ops c"
  shows "\<exists>m. init_lba os (l_class_id (lba_list (os_st t) ! j)) t =
      Ret (Some (length (host_lba_list t)), (after_reads t m True)
        \<lparr>host_lba_list := host_lba_list t @
           [found_lba c (lba_list (os_st t) ! j) (hw (os_st t)) (junk_pci_id os (os_st t))],
         options := (options t)\<lparr>num_lba := num_lba (options t) + 1\<rparr>\<rparr>) \<and>
    cells m = cells (hw (os_st t))"
proof -
  define l name where "l = lba_list (os_st t) ! j" and "name = l_class_id l"
  define i where "i = length (host_lba_list t)"
  have malloc: "os_malloc os n d = (True, d)" for n d using files by (simp add: sysfs_def)
  have "l \<in> set (lba_list (os_st t))" using j(2) by (simp add: l_def)
  then have len: "take PATH_MAX name = name"
    using j(1) by (auto simp: names_ok_def name_def PATH_MAX_def intro!: take_all)
  define lba1 where "lba1 = zero_lba\<lparr>li_name := name, li_pci_id := id_of_name name (junk_pci_id os (os_st t)),
      display := 1, in_use := 1\<rparr>"
  define t3 where "t3 = t\<lparr>host_lba_list := host_lba_list t @ [lba1]\<rparr>"
  have st3: "os_st t3 = os_st t" by (simp add: t3_def)
  have n3: "li_name lba1 = l_class_id (lba_list (os_st t3) ! j)"
    by (simp add: lba1_def name_def l_def st3)
  have reg: "register_lba os name t = Ret (i, t\<lparr>host_lba_list := host_lba_list t @ [zero_lba\<lparr>li_name := name\<rparr>]\<rparr>)"
    by (simp add: register_lba_def malloc i_def)
  have set1: "set_lba i lba1 (t\<lparr>host_lba_list := host_lba_list t @ [zero_lba\<lparr>li_name := name\<rparr>]\<rparr>) = t3"
    by (simp add: set_lba_def i_def t3_def)
  from attributes_read [OF files, of t3 j lba1 c, unfolded st3, OF j n3 [unfolded st3] ops, folded l_def]
  obtain a1 m1 a2 m2 a3 m3 a4 m4 a5 m5 where
    r1: "read_lba_attribute os lba1 ''bus_mode'' (zeroed (PAGE os)) t3 = Ret (0, a1, after_reads t3 m1 True)"
      "c_string a1 = Some (hplba_bus_op_mode_to_str drv_bus_op_modes_tab
         (chip_mode c (l_phys_addr l) (hw (os_st t))))"
    and r2: "read_lba_attribute os lba1 ''bus_speed'' a1 (after_reads t3 m1 True) = Ret (0, a2, after_reads t3 m2 True)"
      "c_string a2 = Some (hplba_bus_speed_to_str drv_bus_speeds_tab
         (chip_speed c (l_phys_addr l) (hw (os_st t))))"
    and r3: "read_lba_attribute os lba1 ''function_id'' a2 (after_reads t3 m2 True) = Ret (0, a3, after_reads t3 m3 True)"
      "c_string a3 = Some (show_alt_hex (unat (field_val (l_phys_addr l) LBA_FUNC_ID (hw (os_st t)))))"
    and r4: "read_lba_attribute os lba1 ''revision'' a3 (after_reads t3 m3 True) = Ret (0, a4, after_reads t3 m4 True)"
      "c_string a4 = Some (revision_text (l_phys_addr l) (hw (os_st t)))"
    and r5: "read_lba_attribute os lba1 ''ropes'' a4 (after_reads t3 m4 True) = Ret (0, a5, after_reads t3 m5 True)"
      "c_string a5 = Some (show_int (fst (ropes (chip_ops c) (l_phys_addr l) (hw (os_st t)))))"
      "cells m5 = cells (hw (os_st t))" .
  have rop: "atoi (show_int (fst (ropes (chip_ops c) (l_phys_addr l) (hw (os_st t))))) =
      fst (ropes (chip_ops c) (l_phys_addr l) (hw (os_st t)))"
    using ropes_values [of c "l_phys_addr l" "hw (os_st t)"] by (intro atoi_show_small) blast
  define lba2 where "lba2 = lba1
    \<lparr>bus_type := Some (hplba_bus_op_mode_to_str top_bus_op_modes_tab (chip_mode c (l_phys_addr l) (hw (os_st t)))),
     li_bus_speed := Some (hplba_bus_speed_to_str top_bus_speeds_tab (chip_speed c (l_phys_addr l) (hw (os_st t)))),
     li_id := ucast (field_val (l_phys_addr l) LBA_FUNC_ID (hw (os_st t))),
     li_revision := strncpy (li_revision lba1) (revision_text (l_phys_addr l) (hw (os_st t))) REV_LEN,
     li_ropes := word_of_int (fst (ropes (chip_ops c) (l_phys_addr l) (hw (os_st t))))\<rparr>"
  have lba2: "lba2 = found_lba c l (hw (os_st t)) (junk_pci_id os (os_st t))"
    by (simp add: lba2_def lba1_def found_lba_def name_def zero_lba_def)
  have i3: "host_lba_list t3 ! i = lba1" "(t\<lparr>host_lba_list := host_lba_list t @ [zero_lba\<lparr>li_name := name\<rparr>]\<rparr>) = t
      \<lparr>host_lba_list := host_lba_list t @ [zero_lba\<lparr>li_name := name\<rparr>]\<rparr>" by (simp_all add: t3_def i_def)
  have id0: "li_id lba1 = 0" "li_revision lba1 = li_revision zero_lba" by (simp_all add: lba1_def zero_lba_def)
  have "init_lba os name t = Ret (Some i, (set_lba i lba2 (after_reads t3 m5 True))
      \<lparr>options := (options t)\<lparr>num_lba := num_lba (options t) + 1\<rparr>\<rparr>)"
    using set1 r1 r2 r3 r4 r5(1,2) scan_id_func [of "l_phys_addr l" "hw (os_st t)"]
    by (cases "scan_id (show_alt_hex (unat (field_val (l_phys_addr l) LBA_FUNC_ID (hw (os_st t)))))")
      (simp_all add: init_lba_def malloc len reg Let_def lba1_def [symmetric] id_of_name_def [symmetric] id0
        modes_and_speeds_read rop lba2_def i_def t3_def after_reads_def)
  moreover have "(set_lba i lba2 (after_reads t3 m5 True))
      \<lparr>options := (options t)\<lparr>num_lba := num_lba (options t) + 1\<rparr>\<rparr> = (after_reads t m5 True)
        \<lparr>host_lba_list := host_lba_list t @ [lba2], options := (options t)\<lparr>num_lba := num_lba (options t) + 1\<rparr>\<rparr>"
    by (simp add: set_lba_def after_reads_def t3_def i_def)
  ultimately show ?thesis using r5(3) lba2 by (auto simp: name_def l_def i_def)
qed

section \<open>Names and addresses\<close>

lemma show_nat_hex1: "f < 8 \<Longrightarrow> show_nat f = show_hex0 1 f"
  by (simp add: show_nat_def show_hex0_def show_base.simps Let_def)

lemma unat_16: "unat (w :: u16) < 16 ^ 4"
  using unsigned_less [of w] by simp

lemma ucast_16_32: "ucast (v :: u16) = (ucast w :: u32) \<longleftrightarrow> v = w"
proof -
  have "unat (ucast x :: u32) = unat x" for x :: u16
    using unat_16 [of x] by (simp add: unsigned_ucast_eq take_bit_nat_def)
  then show ?thesis by (metis word_unat_eq_iff)
qed

definition in_range :: "acpi_pci_id \<Rightarrow> bool" where
  "in_range p \<longleftrightarrow> unat (pid_bus p) < 256 \<and> unat (pid_device p) < 32 \<and> unat (pid_function p) < 8"

lemma device_id_length: "in_range p \<Longrightarrow> length (device_id_str p) = 12"
proof -
  assume "in_range p"
  then have "length (show_hex0 4 (unat (pid_segment p))) = 4" "length (show_hex0 2 (unat (pid_bus p))) = 2"
    "length (show_hex0 2 (unat (pid_device p))) = 2" "length (show_nat (unat (pid_function p))) = 1"
    using unat_16 [of "pid_segment p"] by (auto simp: in_range_def length_show_hex0 length_show_nat_1)
  then show ?thesis by (simp add: device_id_str_def)
qed

lemma scan_device_id:
  assumes "in_range p"
  shows "scan_items lspci_long (device_id_str p) =
    [ucast (pid_segment p), ucast (pid_bus p), ucast (pid_device p), ucast (pid_function p)]"
proof -
  have s: "scan_xw 4 (show_hex0 4 (unat (pid_segment p)) @ r) = Some (ucast (pid_segment p), r)"
    "scan_xw 2 (show_hex0 2 (unat (pid_bus p)) @ r) = Some (ucast (pid_bus p), r)"
    "scan_xw 2 (show_hex0 2 (unat (pid_device p)) @ r) = Some (ucast (pid_device p), r)"
    "scan_xw 1 (show_nat (unat (pid_function p))) = Some (ucast (pid_function p), [])" for r
    using assms unat_16 [of "pid_segment p"] scan_xw_show_hex0 [of "unat (pid_function p)" 1 "[]"]
    by (simp_all add: in_range_def scan_xw_show_hex0 show_nat_hex1)
  show ?thesis
    using s(4) by (simp add: lspci_long_def lspci_short_def device_id_str_def s(1-3) scan_lit_def)
qed

section \<open>The properties\<close>

text \<open>
  C13. What the tool discovers is what the chip says: for an adapter of the driver, \<open>init_lba\<close> adds
  one entry to the list of adapters, whose bus type and speed are the names of the chip's mode
  and rate, whose function id and rope count are the chip's, and whose revision is the chip's
  text; it counts it, and changes no register of the machine.
\<close>

theorem discovery_shows_chip:
  assumes "sysfs os" "names_ok (os_st t)" "j < length (lba_list (os_st t))"
    and "l_ops (lba_list (os_st t) ! j) = chip_ops c"
  shows "\<exists>t' lba. init_lba os (l_class_id (lba_list (os_st t) ! j)) t = Ret (Some (length (host_lba_list t)), t') \<and>
    host_lba_list t' = host_lba_list t @ [lba] \<and> linked (length (host_lba_list t)) j t' \<and>
    lba_list (os_st t') = lba_list (os_st t) \<and> cells (hw (os_st t')) = cells (hw (os_st t)) \<and>
    num_lba (options t') = num_lba (options t) + 1 \<and>
    (let b = l_phys_addr (lba_list (os_st t) ! j); m = hw (os_st t) in
      bus_type lba = Some (hplba_bus_op_mode_to_str top_bus_op_modes_tab (chip_mode c b m)) \<and>
      li_bus_speed lba = Some (hplba_bus_speed_to_str top_bus_speeds_tab (chip_speed c b m)) \<and>
      li_id lba = ucast (field_val b LBA_FUNC_ID m) \<and> buf_str (li_revision lba) = revision_text b m \<and>
      li_ropes lba = word_of_int (fst (ropes (chip_ops c) b m)) \<and>
      in_use lba = 1 \<and> display lba = 1 \<and> timer lba = 0 \<and> counter lba = 0)"
proof -
  define l where "l = lba_list (os_st t) ! j"
  define lba where "lba = found_lba c l (hw (os_st t)) (junk_pci_id os (os_st t))"
  obtain m where m: "init_lba os (l_class_id l) t =
      Ret (Some (length (host_lba_list t)), (after_reads t m True)
        \<lparr>host_lba_list := host_lba_list t @ [lba], options := (options t)\<lparr>num_lba := num_lba (options t) + 1\<rparr>\<rparr>)"
    "cells m = cells (hw (os_st t))"
    using init_lba_eq [OF assms] by (auto simp: l_def lba_def)
  have "length (revision_text (l_phys_addr l) (hw (os_st t))) < REV_LEN"
    using revision_text_ok(2) [of "l_phys_addr l" "hw (os_st t)"] by (simp add: REV_LEN_def)
  then have "buf_str (li_revision lba) = revision_text (l_phys_addr l) (hw (os_st t))"
    by (simp add: lba_def found_lba_def buf_str_strncpy revision_text_ok)
  then show ?thesis
    using m assms(2-4)
    by (intro exI [of _ "(after_reads t m True)\<lparr>host_lba_list := host_lba_list t @ [lba],
          options := (options t)\<lparr>num_lba := num_lba (options t) + 1\<rparr>\<rparr>"] exI [of _ lba])
      (auto simp: l_def lba_def found_lba_def zero_lba_def linked_def after_reads_def names_ok_def
        known_chip_def Let_def)
qed

theorem discovery_shows_chip_witness:
  "\<exists>t' lba. init_lba demo_sys ''0000:10:00.0'' demo_drv_tool = Ret (Some 1, t') \<and>
     host_lba_list t' ! 1 = lba \<and> bus_type lba = Some ''PCIe'' \<and> li_bus_speed lba = Some ''x8'' \<and>
     num_lba (options t') = 2"
proof -
  have n: "hplba_bus_op_mode_to_str top_bus_op_modes_tab LBA_PCIE = ''PCIe''"
    "hplba_bus_speed_to_str top_bus_speeds_tab LBA_X8 = ''x8''"
    by code_simp+
  have d: "l_class_id demo_lba = ''0000:10:00.0''" "names_ok demo_drv1"
    using demo_linked by (simp_all add: demo_lba_def linked_def demo_drv_lists)
  have "chip_mode Apollo_chip (l_phys_addr demo_lba) (hw demo_drv1) = LBA_PCIE"
    "chip_speed Apollo_chip (l_phys_addr demo_lba) (hw demo_drv1) = LBA_X8"
    by (simp_all add: chip_mode_def chip_speed_def field_val_def demo_drv1_def demo_hw_def demo_lba_def
        log_event_def)
  then show ?thesis
    using discovery_shows_chip [OF demo_sysfs, of demo_drv_tool 0 Apollo_chip] d demo_ops n
    by (auto simp: demo_drv_lists Let_def) (auto simp: demo_drv_tool_def)
qed

text \<open>
  C19. Driver and tool agree on addresses: the name the driver gives an adapter is read back by
  \<open>name_to_pci_id\<close> as the numbers it was made of, and selects with \<open>pcicmp\<close> exactly the adapters of
  that segment and bus. The value of \<open>name_to_pci_id\<close> is nevertheless its error value, since it
  expects one conversion more than its format has.
\<close>

theorem driver_names_read_back:
  assumes "in_range p"
  shows "name_to_pci_id (device_id_str p) junk =
      (- 1, \<lparr>pci_domain = ucast (pid_segment p), pci_busid = ucast (pid_bus p),
             pci_addr = ucast (pid_device p), pci_func = ucast (pid_function p)\<rparr>) \<and>
    (pcicmp os s (device_id_str p) d bus = 0 \<longleftrightarrow> d = pid_segment p \<and> bus = ucast (pid_bus p))"
proof -
  have "ucast (pid_segment p) = (ucast d :: u32) \<longleftrightarrow> d = pid_segment p"
    by (auto simp: ucast_16_32)
  then show ?thesis
    using device_id_length [OF assms] scan_device_id [OF assms]
    by (auto simp: name_to_pci_id_def pcicmp_def nth_or_def Let_def)
qed

theorem driver_names_read_back_witness:
  "name_to_pci_id ''0000:10:00.0''
     (\<lparr>pci_domain = 9, pci_busid = 9, pci_addr = 9, pci_func = 9\<rparr>) =
     (- 1, \<lparr>pci_domain = 0, pci_busid = 0x10, pci_addr = 0, pci_func = 0\<rparr>)"
proof -
  have "device_id_str \<lparr>pid_segment = 0, pid_bus = 0x10, pid_device = 0, pid_function = 0\<rparr> = ''0000:10:00.0''"
    by code_simp
  then show ?thesis
    using driver_names_read_back [of "\<lparr>pid_segment = 0, pid_bus = 0x10, pid_device = 0, pid_function = 0\<rparr>"
        "(\<lparr>pci_domain = 9, pci_busid = 9, pci_addr = 9, pci_func = 9\<rparr>)" demo_os 0 0 0]
    by (simp add: in_range_def)
qed

end
