(* ===== verification/Enumerate.thy ===== *)
theory Enumerate
  imports Discovery
begin

text \<open>
  Discovery of all adapters: \<open>init_lbas\<close> of src/pcitop.c over the directory of the driver's class,
  \<open>find_lba_location_info\<close> for each of them, and what the machine description of src/integrity.c
  holds afterwards.
\<close>

section \<open>The location of a slot\<close>

text \<open>The numbers in the name of a slot: cabinet, chassis, bay and slot.\<close>

definition slot_place :: "pci_tree \<Rightarrow> nat \<Rightarrow> int \<times> int \<times> int \<times> int" where
  "slot_place tr k = integrity_parse_slot (buf_str (slot_name (slots tr ! k)))"

definition slot_cabinet :: "pci_tree \<Rightarrow> nat \<Rightarrow> int" where "slot_cabinet tr k = fst (slot_place tr k)"
definition slot_chassis :: "pci_tree \<Rightarrow> nat \<Rightarrow> int" where "slot_chassis tr k = fst (snd (slot_place tr k))"
definition slot_bay :: "pci_tree \<Rightarrow> nat \<Rightarrow> int" where "slot_bay tr k = fst (snd (snd (slot_place tr k)))"

text \<open>A machine description to which the places of a set of slots have been added, and no others.\<close>

definition sees :: "pci_tree \<Rightarrow> nat set \<Rightarrow> integrity_sys_info \<Rightarrow> integrity_sys_info \<Rightarrow> bool" where
  "sees tr K si si' \<longleftrightarrow> (sys_ok si \<longrightarrow> sys_ok si') \<and>
     set (cabinet_list si') = set (cabinet_list si) \<union> slot_cabinet tr ` K \<and>
     set (bay_list si') = set (bay_list si) \<union> slot_bay tr ` K \<and>
     set (chassis_list si') = set (chassis_list si) \<union> slot_chassis tr ` K"

lemma sees_refl: "sees tr {} si si"
  by (simp add: sees_def)

lemma sees_trans: "sees tr K si si' \<Longrightarrow> sees tr K' si' si'' \<Longrightarrow> sees tr (K \<union> K') si si''"
  by (simp add: sees_def image_Un Un_assoc)

lemma update_sees:
  assumes "\<And>n s. os_malloc os n s = (True, s)"
    and "cabinet li = slot_cabinet tr k" "bay li = slot_bay tr k" "chassis li = slot_chassis tr k"
  shows "\<exists>si'. integrity_update_sys_info os li si s = (0, si', s) \<and> sees tr {k} si si'"
proof -
  obtain r si' s' where u: "integrity_update_sys_info os li si s = (r, si', s')"
    by (cases "integrity_update_sys_info os li si s")
  then have "r = 0" "s' = s"
    using assms(1) by (auto simp: integrity_update_sys_info_def Let_def split: if_splits)
  moreover have "set (cabinet_list si) \<subseteq> set (cabinet_list si')" "set (bay_list si) \<subseteq> set (bay_list si')"
    "set (chassis_list si) \<subseteq> set (chassis_list si')"
    using update_sys_extends [OF u] set_take_subset unfolding extends_def by metis+
  ultimately show ?thesis
    using u update_sys_sets [OF u] update_sys_ok [OF u] assms(2-4) by (auto simp: sees_def)
qed

text \<open>The names of a bridge's slots have terminators.\<close>

definition slots_named :: "pci_tree \<Rightarrow> bool" where
  "slots_named tr \<longleftrightarrow> (\<forall>b \<in> set (root_bridges tr). \<forall>k \<in> set (rb_slots b). NUL \<in> set (slot_name (slots tr ! k)))"

text \<open>An adapter ends up where the last slot of its bridge is.\<close>

definition placed :: "pci_tree \<Rightarrow> nat list \<Rightarrow> integrity_lba_info \<Rightarrow> bool" where
  "placed tr ks ar \<longleftrightarrow> ks \<noteq> [] \<longrightarrow>
     cabinet ar = slot_cabinet tr (last ks) \<and> bay ar = slot_bay tr (last ks) \<and> chassis ar = slot_chassis tr (last ks)"

lemma location_loop_eq:
  assumes malloc: "\<And>n s. os_malloc os n s = (True, s)"
  shows "i < length (host_lba_list t) \<Longrightarrow> \<forall>k \<in> set ks. NUL \<in> set (slot_name (slots (tree t) ! k)) \<Longrightarrow>
    \<exists>ar si. location_loop os ks i t =
        Ret (t\<lparr>host_lba_list := (host_lba_list t)[i := (host_lba_list t ! i)\<lparr>arch_info := ar\<rparr>], sys_info := si\<rparr>) \<and>
      placed (tree t) ks ar \<and> sees (tree t) (set ks) (sys_info t) si"
proof (induction ks arbitrary: t)
  case Nil
  then show ?case
    by (intro exI [of _ "arch_info (host_lba_list t ! i)"] exI [of _ "sys_info t"])
      (simp add: placed_def sees_refl)
next
  case (Cons k ks)
  define lba where "lba = host_lba_list t ! i"
  obtain cab chas b n where p: "slot_place (tree t) k = (cab, chas, b, n)" by (cases "slot_place (tree t) k")
  define info where "info = snd (integrity_update_lba_info
      ((arch_info lba)\<lparr>cabinet := cab, bay := b, chassis := chas\<rparr>) n)"
  have info: "cabinet info = slot_cabinet (tree t) k" "bay info = slot_bay (tree t) k"
    "chassis info = slot_chassis (tree t) k"
    by (simp_all add: info_def integrity_update_lba_info_def slot_cabinet_def slot_bay_def slot_chassis_def p)
  obtain si where si: "integrity_update_sys_info os info (sys_info t) (os_st t) = (0, si, os_st t)"
    "sees (tree t) {k} (sys_info t) si"
    using update_sees [where li = info and tr = "tree t" and k = k, OF malloc info] by blast
  define t1 where "t1 = t\<lparr>host_lba_list := (host_lba_list t)[i := lba\<lparr>arch_info := info\<rparr>], sys_info := si\<rparr>"
  have c: "c_string (slot_name (slots (tree t) ! k)) = Some (buf_str (slot_name (slots (tree t) ! k)))"
    using Cons.prems(2) by (simp add: c_string_def)
  have "location_loop os (k # ks) i t = location_loop os ks i t1"
    using p si(1) unfolding slot_place_def
    by (simp add: c info_def integrity_update_lba_info_def lba_def [symmetric] t1_def set_lba_def)
  moreover obtain ar si' where r: "location_loop os ks i t1 =
      Ret (t1\<lparr>host_lba_list := (host_lba_list t1)[i := (host_lba_list t1 ! i)\<lparr>arch_info := ar\<rparr>], sys_info := si'\<rparr>)"
    "placed (tree t) ks ar" "sees (tree t) (set ks) si si'" "ks = [] \<Longrightarrow> ar = info"
  proof (cases ks)
    case Nil
    then show ?thesis
      using that [of si info] Cons.prems(1) by (simp add: t1_def placed_def sees_refl)
  next
    case (Cons a list)
    have "tree t1 = tree t" "sys_info t1 = si" "length (host_lba_list t1) = length (host_lba_list t)"
      by (simp_all add: t1_def)
    with Cons.IH [of t1] Cons.prems Cons show ?thesis using that by auto
  qed
  moreover have "placed (tree t) (k # ks) ar"
    using r(2,4) info by (cases "ks = []") (simp_all add: placed_def)
  moreover have "sees (tree t) (set (k # ks)) (sys_info t) si'"
    using sees_trans [OF si(2) r(3)] by simp
  ultimately show ?case
    using Cons.prems(1) by (intro exI [of _ ar] exI [of _ si']) (simp add: t1_def lba_def)
qed

section \<open>One adapter\<close>

text \<open>
  The tool's record of the \<open>j\<close>th adapter of the driver: what \<open>init_lba\<close> reads from the chip, the root
  bridge of its name, and the place of that bridge's last slot.
\<close>

definition bridge_of :: "pci_tree \<Rightarrow> string \<Rightarrow> nat list" where
  "bridge_of tr name =
     (case get_sysfs_root_bridge name tr of None \<Rightarrow> [] | Some b \<Rightarrow> rb_slots (root_bridges tr ! b))"

definition describes :: "drv \<Rightarrow> pci_tree \<Rightarrow> nat \<Rightarrow> lba_info \<Rightarrow> bool" where
  "describes d tr j lba \<longleftrightarrow> (\<exists>c junk ar. l_ops (lba_list d ! j) = chip_ops c \<and>
     placed tr (bridge_of tr (li_name lba)) ar \<and>
     lba = (found_lba c (lba_list d ! j) (hw d) junk)
       \<lparr>sysfs_root_bridge := get_sysfs_root_bridge (l_class_id (lba_list d ! j)) tr, arch_info := ar\<rparr>)"

lemma found_lba_cells: "cells m' = cells m \<Longrightarrow> found_lba c l m' junk = found_lba c l m junk"
  by (simp add: found_lba_def chip_mode_cells [of m' m] chip_speed_cells [of m' m] field_val_cells [of m' m]
      ropes_cells [of m' m] revision_text_def)

lemma describes_cells:
  "lba_list d' = lba_list d \<Longrightarrow> cells (hw d') = cells (hw d) \<Longrightarrow> describes d' tr j lba = describes d tr j lba"
  by (simp add: describes_def found_lba_cells [of "hw d'" "hw d"])

text \<open>What the tool knows after finding more adapters, with the rest as in \<open>t\<close>.\<close>

definition found_more :: "drv tool \<Rightarrow> mmio \<Rightarrow> bool \<Rightarrow> lba_info list \<Rightarrow> integrity_sys_info \<Rightarrow> drv tool" where
  "found_more t m rb lbas si = (after_reads t m rb)
     \<lparr>host_lba_list := host_lba_list t @ lbas, sys_info := si,
      options := (options t)\<lparr>num_lba := num_lba (options t) + word_of_nat (length lbas)\<rparr>\<rparr>"

lemma found_more_simps [simp]:
  "os_st (found_more t m rb ls si) = (os_st t)\<lparr>hw := m\<rparr>" "tree (found_more t m rb ls si) = tree t"
  "sys_info (found_more t m rb ls si) = si" "host_lba_list (found_more t m rb ls si) = host_lba_list t @ ls"
  "stdout (found_more t m rb ls si) = stdout t" "time_to_quit (found_more t m rb ls si) = time_to_quit t"
  "options (found_more t m rb ls si) = (options t)\<lparr>num_lba := num_lba (options t) + word_of_nat (length ls)\<rparr>"
  by (simp_all add: found_more_def after_reads_def)

lemma found_more_none: "found_more t (hw (os_st t)) (read_buf t) [] (sys_info t) = t"
  by (simp add: found_more_def after_reads_def)

lemma found_more_trans:
  "found_more (found_more t m rb ls si) m' rb' ls' si' = found_more t m' rb' (ls @ ls') si'"
  by (simp add: found_more_def after_reads_def add.assoc)

definition find_adapter :: "drv os \<Rightarrow> string \<Rightarrow> drv tool \<Rightarrow> drv tool outcome" where
  "find_adapter os name t =
     bind_o (init_lba os name t) (\<lambda>(lba, t1). bind_o (find_lba_location_info os lba t1) (\<lambda>(_, t2). Ret t2))"

lemma find_adapter_eq:
  assumes files: "sysfs os" and j: "names_ok (os_st t)" "j < length (lba_list (os_st t))"
    and chip: "known_chip (lba_list (os_st t) ! j)" and named: "slots_named (tree t)"
  defines "name \<equiv> l_class_id (lba_list (os_st t) ! j)"
  shows "\<exists>m lba si. find_adapter os name t = Ret (found_more t m True [lba] si) \<and>
    cells m = cells (hw (os_st t)) \<and> describes (os_st t) (tree t) j lba \<and>
    sees (tree t) (set (bridge_of (tree t) name)) (sys_info t) si"
proof -
  have malloc: "os_malloc os n s = (True, s)" for n s using files by (simp add: sysfs_def)
  obtain c where c: "l_ops (lba_list (os_st t) ! j) = chip_ops c" using chip by (auto simp: known_chip_def)
  define i where "i = length (host_lba_list t)"
  define lba where "lba = found_lba c (lba_list (os_st t) ! j) (hw (os_st t)) (junk_pci_id os (os_st t))"
  obtain m where m: "init_lba os name t = Ret (Some i, found_more t m True [lba] (sys_info t))"
    "cells m = cells (hw (os_st t))"
    using init_lba_eq [OF files j c] by (auto simp: name_def lba_def i_def found_more_def after_reads_def)
  define t1 where "t1 = found_more t m True [lba] (sys_info t)"
  define rb where "rb = get_sysfs_root_bridge name (tree t)"
  define lba1 where "lba1 = lba\<lparr>sysfs_root_bridge := rb\<rparr>"
  define t2 where "t2 = found_more t m True [lba1] (sys_info t)"
  have n: "li_name lba = name" by (simp add: lba_def found_lba_def name_def)
  have i1: "host_lba_list t1 ! i = lba" "host_lba_list t2 ! i = lba1" "i < length (host_lba_list t2)"
    by (simp_all add: t1_def t2_def i_def)
  have s1: "set_lba i lba1 t1 = t2"
    by (simp add: t1_def t2_def i_def set_lba_def found_more_def after_reads_def)
  have upd: "t2\<lparr>host_lba_list := (host_lba_list t2)[i := lba1\<lparr>arch_info := ar\<rparr>], sys_info := si\<rparr> =
      found_more t m True [lba1\<lparr>arch_info := ar\<rparr>] si" for ar si
    by (simp add: t2_def i_def found_more_def after_reads_def)
  have d: "describes (os_st t) (tree t) j (lba1\<lparr>arch_info := ar\<rparr>)" if "placed (tree t) (bridge_of (tree t) name) ar" for ar
    using that c n unfolding describes_def
    by (intro exI [of _ c] exI [of _ "junk_pci_id os (os_st t)"] exI [of _ ar])
      (simp add: lba1_def lba_def rb_def name_def)
  have tr: "tree t1 = tree t" "tree t2 = tree t" "sys_info t2 = sys_info t" by (simp_all add: t1_def t2_def)
  show ?thesis
  proof (cases rb)
    case None
    then have b: "bridge_of (tree t) name = []" by (simp add: bridge_of_def rb_def)
    have "find_adapter os name t = Ret t2"
      using m(1) s1 None unfolding find_adapter_def t1_def [symmetric] lba1_def rb_def
      by (simp add: find_lba_location_info_def i1 n tr)
    moreover have "lba1\<lparr>arch_info := arch_info lba1\<rparr> = lba1" by simp
    moreover have "describes (os_st t) (tree t) j lba1"
      using d [of "arch_info lba1"] b by (simp add: placed_def)
    ultimately show ?thesis using m(2) b sees_refl unfolding t2_def by fastforce
  next
    case (Some b)
    then have ks: "bridge_of (tree t) name = rb_slots (root_bridges (tree t) ! b)"
      by (simp add: bridge_of_def rb_def)
    have "root_bridges (tree t) ! b \<in> set (root_bridges (tree t))"
      using get_sysfs_root_bridge_Some(1) [of name "tree t" b] Some by (simp add: rb_def)
    then have "\<forall>k \<in> set (bridge_of (tree t) name). NUL \<in> set (slot_name (slots (tree t2) ! k))"
      using named by (simp add: slots_named_def ks tr)
    from location_loop_eq [OF malloc i1(3) this]
    obtain ar si where l: "location_loop os (bridge_of (tree t) name) i t2 =
        Ret (found_more t m True [lba1\<lparr>arch_info := ar\<rparr>] si)"
      "placed (tree t) (bridge_of (tree t) name) ar"
      "sees (tree t) (set (bridge_of (tree t) name)) (sys_info t) si"
      unfolding i1(2) upd tr by blast
    have "find_adapter os name t = Ret (found_more t m True [lba1\<lparr>arch_info := ar\<rparr>] si)"
      using m(1) s1 Some l(1) unfolding find_adapter_def t1_def [symmetric] lba1_def rb_def
      by (simp add: find_lba_location_info_def i1 n tr ks)
    then show ?thesis using m(2) d [OF l(2)] l(3) by blast
  qed
qed

section \<open>All adapters\<close>

definition class_entries :: "string list \<Rightarrow> string list" where
  "class_entries ds = filter (\<lambda>d. d \<noteq> ''.'' \<and> d \<noteq> ''..'') ds"

lemma init_lbas_loop_step:
  "init_lbas_loop os (d # ds) t =
     (if d = ''.'' \<or> d = ''..'' then init_lbas_loop os ds t
      else bind_o (find_adapter os d t) (init_lbas_loop os ds))"
proof -
  have "bind_o (find_adapter os d t) k = bind_o (init_lba os d t) (\<lambda>(lba, t1).
      bind_o (find_lba_location_info os lba t1) (\<lambda>(_, t2). k t2))" for k :: "drv tool \<Rightarrow> drv tool outcome"
  proof (cases "init_lba os d t")
    case (Ret x)
    then show ?thesis
      by (cases "find_lba_location_info os (fst x) (snd x)") (auto simp: find_adapter_def case_prod_beta)
  qed (simp_all add: find_adapter_def)
  then show ?thesis by (simp add: streq_iff)
qed

text \<open>The driver's adapters, named in the directory in some order.\<close>

lemma init_lbas_loop_eq:
  assumes files: "sysfs os"
  shows "names_ok (os_st t) \<Longrightarrow> \<forall>l \<in> set (lba_list (os_st t)). known_chip l \<Longrightarrow> slots_named (tree t) \<Longrightarrow>
    class_entries ds = map (\<lambda>j. l_class_id (lba_list (os_st t) ! j)) js \<Longrightarrow>
    set js \<subseteq> {..<length (lba_list (os_st t))} \<Longrightarrow>
    \<exists>m rb lbas si. init_lbas_loop os ds t = Ret (found_more t m rb lbas si) \<and>
      cells m = cells (hw (os_st t)) \<and> list_all2 (describes (os_st t) (tree t)) js lbas \<and>
      sees (tree t) (\<Union>lba \<in> set lbas. set (bridge_of (tree t) (li_name lba))) (sys_info t) si"
proof (induction ds arbitrary: t js)
  case Nil
  then have "js = []" by (simp add: class_entries_def)
  then show ?case
    by (intro exI [of _ "hw (os_st t)"] exI [of _ "read_buf t"] exI [of _ "[]"] exI [of _ "sys_info t"])
      (simp add: found_more_none sees_refl)
next
  case (Cons d ds)
  show ?case
  proof (cases "d = ''.'' \<or> d = ''..''")
    case True
    then have "class_entries ds = class_entries (d # ds)" by (auto simp: class_entries_def)
    then show ?thesis using Cons.IH [of t js] Cons.prems True by (simp only: init_lbas_loop_step if_True)
  next
    case False
    then obtain j ks where js: "js = j # ks" "d = l_class_id (lba_list (os_st t) ! j)"
      "class_entries ds = map (\<lambda>j. l_class_id (lba_list (os_st t) ! j)) ks"
      using Cons.prems(4) by (cases js) (auto simp: class_entries_def)
    have j: "j < length (lba_list (os_st t))" "set ks \<subseteq> {..<length (lba_list (os_st t))}"
      using Cons.prems(5) js(1) by auto
    have k: "known_chip (lba_list (os_st t) ! j)" using Cons.prems(2) j(1) by simp
    obtain m lba si where a: "find_adapter os d t = Ret (found_more t m True [lba] si)"
      "cells m = cells (hw (os_st t))" "describes (os_st t) (tree t) j lba"
      "sees (tree t) (set (bridge_of (tree t) d)) (sys_info t) si"
      using find_adapter_eq [OF files Cons.prems(1) j(1) k Cons.prems(3)] js(2) by auto
    define t1 where "t1 = found_more t m True [lba] si"
    have t1: "lba_list (os_st t1) = lba_list (os_st t)" "tree t1 = tree t" "sys_info t1 = si"
      "cells (hw (os_st t1)) = cells (hw (os_st t))" "names_ok (os_st t1)"
      using a(2) Cons.prems(1) names_ok_cong [of "os_st t1" "os_st t"] by (simp_all add: t1_def)
    have IH: "\<exists>m rb lbas si'. init_lbas_loop os ds t1 = Ret (found_more t1 m rb lbas si') \<and>
      cells m = cells (hw (os_st t1)) \<and> list_all2 (describes (os_st t1) (tree t1)) ks lbas \<and>
      sees (tree t1) (\<Union>lba \<in> set lbas. set (bridge_of (tree t1) (li_name lba))) (sys_info t1) si'"
      using Cons.prems(2,3) j(2) js(3) by (intro Cons.IH) (simp_all add: t1)
    have ds: "describes (os_st t1) (tree t) = describes (os_st t) (tree t)"
      by (intro ext describes_cells t1)
    obtain m' rb lbas si' where b: "init_lbas_loop os ds t1 = Ret (found_more t1 m' rb lbas si')"
      "cells m' = cells (hw (os_st t))" "list_all2 (describes (os_st t) (tree t)) ks lbas"
      "sees (tree t) (\<Union>lba \<in> set lbas. set (bridge_of (tree t) (li_name lba))) si si'"
      using IH unfolding t1 ds by blast
    have n: "li_name lba = d" using a(3) js(2) by (auto simp: describes_def found_lba_def)
    have "init_lbas_loop os (d # ds) t = Ret (found_more t m' rb (lba # lbas) si')"
      using False a(1) b(1) unfolding init_lbas_loop_step
      by (simp add: t1_def found_more_trans del: init_lbas_loop.simps)
    moreover have "list_all2 (describes (os_st t) (tree t)) js (lba # lbas)"
      using a(3) b(3) by (simp add: js(1))
    moreover have "sees (tree t) (\<Union>lba \<in> set (lba # lbas). set (bridge_of (tree t) (li_name lba))) (sys_info t) si'"
      using sees_trans [OF a(4) b(4)] n by simp
    ultimately show ?thesis using b(2) by blast
  qed
qed

lemma describes_name: "describes d tr j lba \<Longrightarrow> li_name lba = l_class_id (lba_list d ! j)"
  by (auto simp: describes_def found_lba_def)

lemma describes_facts:
  assumes "describes d tr j lba"
  shows "display lba = 1" "in_use lba = 1" "timer lba = 0" "counter lba = 0" "prev_timer lba = 0"
    "prev_counter lba = 0" "sysfs_root_bridge lba = get_sysfs_root_bridge (li_name lba) tr"
    "placed tr (bridge_of tr (li_name lba)) (arch_info lba)"
  using assms by (auto simp: describes_def found_lba_def zero_lba_def)

text \<open>Described adapters are linked to those of the driver.\<close>

lemma found_linked:
  assumes "list_all2 (describes (os_st t) (tree t)) js (host_lba_list t)" "distinct js"
    and "set js \<subseteq> {..<length (lba_list (os_st t))}" "names_ok (os_st t)"
    and "\<forall>l \<in> set (lba_list (os_st t)). known_chip l"
  shows "all_linked (\<lambda>i. js ! i) t"
proof -
  have len: "length (host_lba_list t) = length js" using assms(1) by (simp add: list_all2_lengthD)
  have "linked i (js ! i) t" if i: "i < length js" for i
  proof -
    have "js ! i < length (lba_list (os_st t))" using assms(3) i nth_mem by blast
    then show ?thesis
      using assms(4,5) i len describes_name [OF list_all2_nthD [OF assms(1) i]] by (simp add: linked_def)
  qed
  then show ?thesis
    using len assms(2) by (auto simp: all_linked_def inj_on_def nth_eq_iff_index_eq)
qed

lemma class_dir: "path_buf (SYSFS_CLASS_DIR @ ''/'' @ LBA_DRIVER_NAME) = ''/sys/class/hplba''"
  by (simp add: path_buf_def PATH_MAX_def SYSFS_CLASS_DIR_def LBA_DRIVER_NAME_def)

text \<open>The whole discovery, from an empty list of adapters.\<close>

lemma init_lbas_eq:
  assumes files: "sysfs os" and drv: "names_ok (os_st t)" "\<forall>l \<in> set (lba_list (os_st t)). known_chip l"
    and named: "slots_named (tree t)" and start: "host_lba_list t = []"
    and dir: "os_dir os ''/sys/class/hplba'' (os_st t) = Some ds"
      "class_entries ds = map (\<lambda>j. l_class_id (lba_list (os_st t) ! j)) js"
    and js: "distinct js" "set js \<subseteq> {..<length (lba_list (os_st t))}"
  shows "\<exists>m rb lbas si. init_lbas os t = Ret (0, found_more t m rb lbas si) \<and>
    cells m = cells (hw (os_st t)) \<and> list_all2 (describes (os_st t) (tree t)) js lbas \<and>
    all_linked (\<lambda>i. js ! i) (found_more t m rb lbas si) \<and>
    sees (tree t) (\<Union>lba \<in> set lbas. set (bridge_of (tree t) (li_name lba))) (sys_info t) si"
proof -
  obtain m rb lbas si where l: "init_lbas_loop os ds t = Ret (found_more t m rb lbas si)"
    "cells m = cells (hw (os_st t))" "list_all2 (describes (os_st t) (tree t)) js lbas"
    "sees (tree t) (\<Union>lba \<in> set lbas. set (bridge_of (tree t) (li_name lba))) (sys_info t) si"
    using init_lbas_loop_eq [OF files drv named dir(2) js(2)] by blast
  define t' where "t' = found_more t m rb lbas si"
  have t': "lba_list (os_st t') = lba_list (os_st t)" "tree t' = tree t" "host_lba_list t' = lbas"
    "cells (hw (os_st t')) = cells (hw (os_st t))" "names_ok (os_st t')"
    using l(2) start drv(1) names_ok_cong [of "os_st t'" "os_st t"] by (simp_all add: t'_def)
  have "describes (os_st t') (tree t) = describes (os_st t) (tree t)"
    by (intro ext describes_cells t')
  then have "all_linked (\<lambda>i. js ! i) t'"
    using l(3) js drv(2) t'(5) by (intro found_linked) (simp_all add: t')
  moreover have "init_lbas os t = Ret (0, t')"
    using l(1) dir(1) unfolding init_lbas_def class_dir by (simp add: t'_def)
  ultimately show ?thesis using l(2-4) unfolding t'_def by blast
qed

section \<open>A machine with one root bridge\<close>

text \<open>The concrete operating system of before, with the directories of the PCI tree.\<close>

definition demo_machine :: "drv os" where
  "demo_machine = demo_sys
     \<lparr>os_dir := (\<lambda>p d.
        if p = ''/sys/class/hplba'' then Some ([''.'', ''..''] @ map l_class_id (lba_list d))
        else if p = SYSFS_DEV_DIR then Some [''.'', ''..'', ''system'', ''pci0000:10'']
        else if p = SYSFS_BUS_DIR then Some [''.'', ''..'', ''0000:10'']
        else if p = SYSFS_SLOTS_DIR then Some [''.'', ''..'']
        else None),
      os_readlink := (\<lambda>p d. Some ''../../../devices/pci0000:10'')\<rparr>"

lemma demo_machine_sysfs: "sysfs demo_machine"
  using demo_sysfs unfolding sysfs_def demo_machine_def by simp

lemma demo_machine_steady: "steady demo_machine"
  using demo_steady by (simp add: steady_def demo_machine_def)

definition demo_start :: "drv tool" where
  "demo_start = (start_tool demo_drv1)\<lparr>tree := demo_tree\<rparr>"

lemma demo_entries:
  "os_dir demo_machine ''/sys/class/hplba'' demo_drv1 = Some [''.'', ''..'', ''0000:10:00.0'']"
  "class_entries [''.'', ''..'', ''0000:10:00.0''] = [''0000:10:00.0'']"
  by (simp_all add: demo_machine_def demo_drv_lists demo_lba_def class_entries_def)

lemma demo_drv_known: "names_ok demo_drv1" "\<forall>l \<in> set (lba_list demo_drv1). known_chip l"
  using demo_linked by (simp_all add: linked_def demo_drv_lists)

lemma demo_slots_named: "slots_named demo_tree"
proof -
  have "\<forall>k \<in> {0, 1}. NUL \<in> set (slot_name (slots demo_tree ! k))" by code_simp
  then show ?thesis by (simp add: slots_named_def demo_tree_def)
qed

section \<open>The properties\<close>

text \<open>
  C8. Discovery finds every adapter: when the directory of the class names the driver's adapters in
  some order, \<open>init_lbas\<close> returns 0 with one entry for each of them in that order. Each entry holds
  what its chip says, the root bridge of its name and the place of that bridge's last slot, and
  is linked to its adapter; the adapters are counted, and neither the driver's list nor any
  register of the machine has changed.
\<close>

theorem discovery_finds_all:
  assumes "sysfs os" "names_ok (os_st t)" "\<forall>l \<in> set (lba_list (os_st t)). known_chip l"
    and "slots_named (tree t)" "host_lba_list t = []"
    and "os_dir os ''/sys/class/hplba'' (os_st t) = Some ds"
    and "class_entries ds = map (\<lambda>j. l_class_id (lba_list (os_st t) ! j)) js"
    and "distinct js" "set js \<subseteq> {..<length (lba_list (os_st t))}"
  shows "\<exists>t'. init_lbas os t = Ret (0, t') \<and>
    list_all2 (describes (os_st t) (tree t)) js (host_lba_list t') \<and> all_linked (\<lambda>i. js ! i) t' \<and>
    num_lba (options t') = num_lba (options t) + word_of_nat (length js) \<and>
    lba_list (os_st t') = lba_list (os_st t) \<and> cells (hw (os_st t')) = cells (hw (os_st t)) \<and>
    tree t' = tree t \<and> stdout t' = stdout t"
proof -
  obtain m rb lbas si where i: "init_lbas os t = Ret (0, found_more t m rb lbas si)"
    "cells m = cells (hw (os_st t))" "list_all2 (describes (os_st t) (tree t)) js lbas"
    "all_linked (\<lambda>i. js ! i) (found_more t m rb lbas si)"
    using init_lbas_eq [OF assms] by blast
  then show ?thesis
    using assms(5) by (intro exI [of _ "found_more t m rb lbas si"]) (simp add: list_all2_lengthD)
qed

theorem discovery_finds_all_witness:
  "\<exists>t' lba. init_lbas demo_machine demo_start = Ret (0, t') \<and> host_lba_list t' = [lba] \<and>
     li_name lba = ''0000:10:00.0'' \<and> sysfs_root_bridge lba = Some 0 \<and> num_lba (options t') = 1"
proof -
  have t: "os_st demo_start = demo_drv1" "tree demo_start = demo_tree" "host_lba_list demo_start = []"
    "num_lba (options demo_start) = 0"
    by (simp_all add: demo_start_def start_tool_def)
  have c: "class_entries [''.'', ''..'', ''0000:10:00.0''] = map (\<lambda>j. l_class_id (lba_list demo_drv1 ! j)) [0]"
    by (simp add: demo_entries demo_drv_lists demo_lba_def)
  have g: "get_sysfs_root_bridge ''0000:10:00.0'' demo_tree = Some 0"
    by (simp add: get_sysfs_root_bridge_def demo_tree_def strneq_iff ROOT_BRIDGE_NAME_LEN_def)
  obtain t' where t': "init_lbas demo_machine demo_start = Ret (0, t')" "num_lba (options t') = 1"
    "list_all2 (describes demo_drv1 demo_tree) [0] (host_lba_list t')"
    using discovery_finds_all [OF demo_machine_sysfs, of demo_start "[''.'', ''..'', ''0000:10:00.0'']" "[0]"]
      demo_drv_known demo_slots_named demo_entries(1) c
    by (auto simp: t demo_drv_lists(1))
  then obtain lba where l: "host_lba_list t' = [lba]" "describes demo_drv1 demo_tree 0 lba"
    by (auto simp: list_all2_Cons1)
  then have "li_name lba = ''0000:10:00.0''"
    using describes_name [OF l(2)] by (simp add: demo_drv_lists demo_lba_def)
  with g l t' describes_facts(7) [OF l(2)] show ?thesis by auto
qed

text \<open>
  C11. The machine description lists the places of the adapters' slots: after the discovery of
  all adapters its cabinets, bays and chassis are exactly those in the names of the slots of the
  adapters' root bridges, each listed once and counted.
\<close>

theorem machine_lists_places:
  assumes "sysfs os" "names_ok (os_st t)" "\<forall>l \<in> set (lba_list (os_st t)). known_chip l"
    and "slots_named (tree t)" "host_lba_list t = []"
    and "os_dir os ''/sys/class/hplba'' (os_st t) = Some ds"
    and "class_entries ds = map (\<lambda>j. l_class_id (lba_list (os_st t) ! j)) js"
    and "distinct js" "set js \<subseteq> {..<length (lba_list (os_st t))}"
    and "sys_info t = snd (integrity_init_sys_info si0)"
  shows "\<exists>t'. init_lbas os t = Ret (0, t') \<and> sys_ok (sys_info t') \<and>
    (let K = \<Union>j \<in> set js. set (bridge_of (tree t) (l_class_id (lba_list (os_st t) ! j))) in
     set (cabinet_list (sys_info t')) = slot_cabinet (tree t) ` K \<and>
     set (bay_list (sys_info t')) = slot_bay (tree t) ` K \<and>
     set (chassis_list (sys_info t')) = slot_chassis (tree t) ` K)"
proof -
  obtain m rb lbas si where i: "init_lbas os t = Ret (0, found_more t m rb lbas si)"
    "list_all2 (describes (os_st t) (tree t)) js lbas"
    "sees (tree t) (\<Union>lba \<in> set lbas. set (bridge_of (tree t) (li_name lba))) (sys_info t) si"
    using init_lbas_eq [OF assms(1-9)] by blast
  have "map li_name lbas = map (\<lambda>j. l_class_id (lba_list (os_st t) ! j)) js"
    using i(2) describes_name by (intro nth_equalityI) (auto simp: list_all2_conv_all_nth)
  then have n: "li_name ` set lbas = (\<lambda>j. l_class_id (lba_list (os_st t) ! j)) ` set js"
    by (metis set_map)
  have "(\<Union>lba \<in> set lbas. set (bridge_of (tree t) (li_name lba))) =
      (\<Union>n \<in> li_name ` set lbas. set (bridge_of (tree t) n))" by simp
  then have "(\<Union>lba \<in> set lbas. set (bridge_of (tree t) (li_name lba))) =
      (\<Union>j \<in> set js. set (bridge_of (tree t) (l_class_id (lba_list (os_st t) ! j))))"
    unfolding n by simp
  then show ?thesis
    using i(1,3) init_sys_ok [of si0]
    by (intro exI [of _ "found_more t m rb lbas si"])
      (simp add: sees_def Let_def assms(10) integrity_init_sys_info_def)
qed

text \<open>The slots 7 and 12308 of the one bridge.\<close>

theorem machine_lists_places_witness:
  "\<exists>t'. init_lbas demo_machine demo_start = Ret (0, t') \<and> sys_ok (sys_info t') \<and>
     set (cabinet_list (sys_info t')) = {0, 1} \<and> set (bay_list (sys_info t')) = {0, 2} \<and>
     set (chassis_list (sys_info t')) = {0, 3}"
proof -
  have t: "os_st demo_start = demo_drv1" "tree demo_start = demo_tree" "host_lba_list demo_start = []"
    "sys_info demo_start = snd (integrity_init_sys_info undefined)"
    by (simp_all add: demo_start_def start_tool_def integrity_init_sys_info_def)
  have c: "class_entries [''.'', ''..'', ''0000:10:00.0''] = map (\<lambda>j. l_class_id (lba_list demo_drv1 ! j)) [0]"
    by (simp add: demo_entries demo_drv_lists demo_lba_def)
  have b: "bridge_of demo_tree ''0000:10:00.0'' = [0, 1]"
    by (simp add: bridge_of_def get_sysfs_root_bridge_def demo_tree_def strneq_iff ROOT_BRIDGE_NAME_LEN_def)
  have p: "slot_place demo_tree 0 = (0, 0, 0, 7)" "slot_place demo_tree 1 = (1, 3, 2, 8)" by code_simp+
  show ?thesis
    using machine_lists_places [OF demo_machine_sysfs, of demo_start "[''.'', ''..'', ''0000:10:00.0'']" "[0]" undefined]
      demo_drv_known demo_slots_named demo_entries(1) c b p
    by (auto simp: t demo_drv_lists(1) demo_lba_def slot_cabinet_def slot_bay_def slot_chassis_def Let_def)
qed

end
