(* ===== verification/TopProps.thy ===== *)
theory TopProps
  imports Discovery
begin

text \<open>
  Properties of the tool of src/pcitop.c by itself: the checks at the start, the command line, the
  filters, and the search for a network interface.
\<close>

section \<open>Drivers and command line\<close>

lemma driver_loaded_eq:
  assumes "length n \<le> 16"
  shows "driver_loaded os n t = (if os_stat os (''/sys/module/'' @ n) (os_st t) then 1 else 0)"
proof -
  have "take (PATH_MAX - 2) (''/sys/module/'' @ n) = ''/sys/module/'' @ n"
    using assms by (intro take_all) (simp add: PATH_MAX_def)
  then show ?thesis unfolding driver_loaded_def by simp
qed

lemma drivers_loaded_eq:
  "drivers_loaded os t =
     Ret (if os_stat os ''/sys/module/hplba'' (os_st t) \<and>
            (os_stat os ''/sys/module/acpiphp'' (os_st t) \<or> os_stat os ''/sys/module/pci_slot'' (os_st t))
          then 1 else 0)"
  by (simp add: drivers_loaded_def driver_loaded_eq SLOT_DRIVER_NAMES_def LBA_DRIVER_NAME_def)

text \<open>
  \<open>drivers_loaded\<close> always returns, and accepts exactly when the modules hplba and one of the
  two slot drivers are loaded; the text of its message fits its buffer.
\<close>

theorem drivers_loaded_decides:
  "drivers_loaded os t =
     Ret (if os_stat os ''/sys/module/hplba'' (os_st t) \<and>
            (os_stat os ''/sys/module/acpiphp'' (os_st t) \<or> os_stat os ''/sys/module/pci_slot'' (os_st t))
          then 1 else 0)"
  by (rule drivers_loaded_eq)

text \<open>The last of the options \<open>-a\<close> and \<open>-o\<close> on the command line is an \<open>-o\<close>.\<close>

fun last_is_or :: "bool \<Rightarrow> opt_item list \<Rightarrow> bool" where
  "last_is_or b [] = b"
| "last_is_or b (Opt_char ch x # cs) = last_is_or (if ch = CHR ''a'' then False else if ch = CHR ''o'' then True else b) cs"
| "last_is_or b (_ # cs) = last_is_or b cs"

text \<open>What one option does to the choice between the two filters.\<close>

lemma take_option_filter:
  assumes "take_option os c t = Ret t'"
  shows "(opt_match_and (options t'), opt_match_or (options t')) =
    (case c of
       Opt_char ch x \<Rightarrow> (if ch = CHR ''a'' then (1, 0) else if ch = CHR ''o'' then (0, 1)
                        else (opt_match_and (options t), opt_match_or (options t)))
     | _ \<Rightarrow> (opt_match_and (options t), opt_match_or (options t))) \<and>
    host_lba_list t' = host_lba_list t \<and> tree t' = tree t"
  using assms
  by (auto simp: take_option_def set_options_def strdup_def bind_o_Ret_iff
      split: opt_item.splits if_splits prod.splits)

lemma take_options_filter:
  "take_options os cs t = Ret t' \<Longrightarrow> (opt_match_and (options t), opt_match_or (options t)) = (if b then (0, 1) else (1, 0)) \<Longrightarrow>
   (opt_match_and (options t'), opt_match_or (options t')) = (if last_is_or b cs then (0, 1) else (1, 0)) \<and>
   host_lba_list t' = host_lba_list t \<and> tree t' = tree t"
proof (induction cs arbitrary: t b)
  case (Cons c cs)
  obtain t1 where t1: "take_option os c t = Ret t1" "take_options os cs t1 = Ret t'"
    using Cons.prems(1) by (auto simp: bind_o_Ret_iff)
  show ?case
  proof (cases c)
    case (Opt_char ch x)
    then have "(opt_match_and (options t1), opt_match_or (options t1)) =
        (if (if ch = CHR ''a'' then False else if ch = CHR ''o'' then True else b) then (0, 1) else (1, 0))"
      using take_option_filter [OF t1(1)] Cons.prems(2) by auto
    from Cons.IH [OF t1(2) this] take_option_filter [OF t1(1)] Opt_char show ?thesis by simp
  qed (use Cons.IH [OF t1(2), of b] take_option_filter [OF t1(1)] Cons.prems(2) in auto)
qed simp

text \<open>
  After the command line exactly one of the two ways to combine the filters is chosen: "or" when
  the last of \<open>-a\<close> and \<open>-o\<close> is an \<open>-o\<close>, else "and", the default; and the command line touches neither
  the adapters nor the PCI tree.
\<close>

theorem one_filter_chosen:
  assumes "take_options os args (set_options init_options t) = Ret t'"
  shows "opt_match_and (options t') = (if last_is_or False args then 0 else 1) \<and>
    opt_match_or (options t') = (if last_is_or False args then 1 else 0) \<and>
    host_lba_list t' = host_lba_list t \<and> tree t' = tree t"
  using take_options_filter [OF assms, of False] by (auto simp: set_options_def init_options_def)

theorem one_filter_chosen_witness:
  "\<exists>t'. take_options demo_os [Opt_char (CHR ''o'') [], Opt_char (CHR ''v'') []] (set_options init_options (demo_tool 1 1)) = Ret t' \<and>
     opt_match_and (options t') = 0 \<and> opt_match_or (options t') = 1"
proof -
  define t where "t = set_options init_options (demo_tool 1 1)"
  obtain t' where t': "take_options demo_os [Opt_char (CHR ''o'') [], Opt_char (CHR ''v'') []] t = Ret t'"
    by (simp add: take_option_def)
  from one_filter_chosen [OF this [unfolded t_def]] t' show ?thesis by (auto simp: t_def)
qed

section \<open>The results of main\<close>

text \<open>Code that calls \<open>exit\<close> with no other code than 1.\<close>

definition exits_1 :: "'a outcome \<Rightarrow> bool" where
  "exits_1 x \<longleftrightarrow> (\<forall>k. x = Exit k \<longrightarrow> k = 1)"

lemma exits_1_simps [simp]:
  "exits_1 (Ret x)" "exits_1 Crash" "exits_1 (Exit k) \<longleftrightarrow> k = 1" "exits_1 (or_crash r)"
  by (auto simp: exits_1_def or_crash_def split: option.splits)

lemma exits_1_bind: "exits_1 x \<Longrightarrow> (\<And>y. x = Ret y \<Longrightarrow> exits_1 (f y)) \<Longrightarrow> exits_1 (bind_o x f)"
  by (cases x) auto

lemma exits_1_if: "(b \<Longrightarrow> exits_1 x) \<Longrightarrow> (\<not> b \<Longrightarrow> exits_1 y) \<Longrightarrow> exits_1 (if b then x else y)"
  by simp

lemmas exits_1_rules = exits_1_bind exits_1_if

lemma exits_1_read [simp]: "exits_1 (read_lba_attribute os lba attr a t)"
  by (simp add: read_lba_attribute_def)

lemma exits_1_collect [simp]: "exits_1 (hplba_collect os i t)"
  unfolding hplba_collect_def Let_def
  by (auto intro!: exits_1_rules split: prod.splits list.splits)

lemma exits_1_init_lba [simp]: "exits_1 (init_lba os name t)"
  unfolding init_lba_def register_lba_def Let_def
  by (auto intro!: exits_1_rules split: prod.splits)

lemma exits_1_location [simp]: "exits_1 (location_loop os ks i t)"
  by (induction ks arbitrary: t) (auto intro!: exits_1_rules split: prod.splits simp: Let_def)

lemma exits_1_find_location [simp]: "exits_1 (find_lba_location_info os lba t)"
  unfolding find_lba_location_info_def Let_def
  by (auto intro!: exits_1_rules split: option.splits)

lemma exits_1_init_loop [simp]: "exits_1 (init_lbas_loop os ds t)"
  by (induction ds arbitrary: t) (auto intro!: exits_1_rules split: prod.splits)

lemma exits_1_init_lbas [simp]: "exits_1 (init_lbas os t)"
  unfolding init_lbas_def by (auto intro!: exits_1_rules split: option.splits)

lemma exits_1_match_loop [simp]: "exits_1 (match_slot_loop tr n ks)"
  by (induction ks) (auto intro!: exits_1_rules)

lemma exits_1_match [simp]: "exits_1 (match_slot lba n t)"
  by (simp add: match_slot_def split: option.split)

lemma exits_1_filter_and [simp]: "exits_1 (filter_match_and os i t)"
  unfolding filter_match_and_def Let_def
  by (auto intro!: exits_1_rules split: option.splits)

lemma exits_1_filter_or [simp]: "exits_1 (filter_match_or os i t)"
  unfolding filter_match_or_def Let_def
  by (auto intro!: exits_1_rules split: option.splits)

lemma exits_1_filter [simp]: "exits_1 (filter_lbas os t)"
proof -
  have "exits_1 (filter_loop os is t)" for "is" and t :: "'a tool"
    by (induction "is" arbitrary: t) (auto intro!: exits_1_rules)
  then show ?thesis by (simp add: filter_lbas_def)
qed

lemma exits_1_slots_text [simp]: "exits_1 (slots_text sep tr ks)"
  by (induction ks) (auto intro!: exits_1_rules)

lemma exits_1_bridge_slots [simp]: "exits_1 (bridge_slots l t)"
  by (simp add: bridge_slots_def split: option.split)

lemma exits_1_root_info [simp]: "exits_1 (show_all_root_info t)"
proof -
  have "exits_1 (root_info_line l t)" for l and t :: "'a tool"
    unfolding root_info_line_def Let_def by (auto intro!: exits_1_rules)
  then have "exits_1 (root_info_loop ls t)" for ls and t :: "'a tool"
    by (induction ls arbitrary: t) (auto intro!: exits_1_rules)
  then show ?thesis by (simp add: show_all_root_info_def)
qed

lemma exits_1_rows: "(\<And>l b. exits_1 (f l b)) \<Longrightarrow> exits_1 (row_columns f ls)"
  by (induction ls) (auto intro!: exits_1_rules)

lemma exits_1_banner [simp]: "exits_1 (build_banner os n t)"
proof -
  have "exits_1 (slots_column t l b)" "exits_1 (text_column g l b)" "exits_1 (ropes_column l b)" for l b g
    and t :: "'a tool"
    unfolding slots_column_def text_column_def ropes_column_def by (auto intro!: exits_1_rules)
  then have "exits_1 (banner_text n t)" for t :: "'a tool"
    unfolding banner_text_def Let_def by (auto intro!: exits_1_rules exits_1_rows)
  then show ?thesis
    unfolding build_banner_def Let_def by (auto intro!: exits_1_rules split: prod.splits)
qed

lemma exits_1_puts [simp]: "exits_1 (puts b t)"
  unfolding puts_def by (auto intro!: exits_1_rules)

lemma exits_1_print_line [simp]: "exits_1 (print_line sz x t)"
  by (simp add: print_line_def Let_def)

lemma exits_1_collect_all [simp]: "exits_1 (collect_displayed os is t)"
  by (induction "is" arbitrary: t) (auto intro!: exits_1_rules split: prod.splits)

lemma exits_1_sample [simp]: "exits_1 (sample os b sz n t)"
  unfolding sample_def Let_def by (auto intro!: exits_1_rules split: prod.splits)

lemma exits_1_sample_loop [simp]: "exits_1 (sample_loop os b sz k n t)"
  by (induction k arbitrary: n t) (auto intro!: exits_1_rules split: prod.splits)

lemma exits_1_measure [simp]: "exits_1 (measure_utilization os t)"
  unfolding measure_utilization_def Let_def
  by (auto intro!: exits_1_rules split: prod.splits option.splits)

lemma exits_1_main: "exits_1 (main_body os t)"
  unfolding main_body_def Let_def drivers_loaded_eq build_tree_def
  by (auto intro!: exits_1_rules split: prod.splits)

text \<open>A returning \<open>main\<close> returns 0.\<close>

lemma main_returns_0: "main_body os t = Ret (r, t') \<Longrightarrow> r = 0"
  unfolding main_body_def Let_def
  by (auto simp: bind_o_Ret_iff split: if_splits)



section \<open>The filters\<close>

text \<open>
  C6. The filters select what was asked for: when every adapter's bridge is known, exactly the
  adapters remain displayed that meet every given criterion ("and"), or some given criterion
  ("or"), the number of displayed adapters goes up by their number, and nothing else changes.
\<close>

theorem filters_select:
  assumes "\<forall>l \<in> set (host_lba_list t). located t l"
  shows "filter_lbas os t =
    Ret (t\<lparr>host_lba_list := map (\<lambda>l. l\<lparr>display := if selected os t l then 1 else 0\<rparr>) (host_lba_list t),
           options := (options t)\<lparr>num_lba_display := num_lba_display (options t) +
             word_of_nat (length (filter (selected os t) (host_lba_list t)))\<rparr>\<rparr>)"
  using filter_lbas_eq [OF assms, of os] by (simp add: mark_def [abs_def] count_display_def)

text \<open>Of two adapters the filter keeps the one whose name was given.\<close>

theorem filters_select_witness:
  "filter_lbas demo_os ((demo_tool 0 0)\<lparr>options := (options (demo_tool 0 0))\<lparr>opt_match_bus := 0x20\<rparr>\<rparr>) =
     Ret ((demo_tool 0 0)\<lparr>options := (options (demo_tool 0 0))\<lparr>opt_match_bus := 0x20\<rparr>\<rparr>)"
proof -
  define t where "t = (demo_tool 0 0)\<lparr>options := (options (demo_tool 0 0))\<lparr>opt_match_bus := 0x20\<rparr>\<rparr>"
  have h: "host_lba_list t = [demo_lba_info ''0000:10:00.0'' 0, demo_lba_info ''0000:20:00.0'' 0]"
    by (simp add: t_def demo_tool_def)
  have "\<forall>k \<in> {0, 1}. NUL \<in> set (slot_name (slots demo_tree ! k))" by code_simp
  then have loc: "\<forall>l \<in> set (host_lba_list t). located t l"
    by (auto simp: h located_def demo_lba_info_def t_def demo_tool_def demo_tree_def)
  have sel: "\<not> selected demo_os t (demo_lba_info n 0)" for n
    by (simp add: selected_def criteria_def crit_bus_def t_def demo_tool_def demo_lba_info_def)
  show ?thesis
    using filters_select [OF loc, of demo_os] sel
    by (simp add: h t_def [symmetric]) (simp add: t_def demo_tool_def demo_lba_info_def)
qed

section \<open>The search for a network interface\<close>

text \<open>
  What \<open>find_interface\<close> finds: the address of a directory of \<open>/sys/devices\<close> whose name its format
  reads, built from the numbers it read.
\<close>

definition interface_address :: "int \<Rightarrow> u32 \<Rightarrow> string" where
  "interface_address domain bus =
     show_hex0 4 (unat (word_of_int domain :: u32)) @ '':'' @ show_hex0 2 (unat bus) @ '':00,0''"

lemma devices_loop_found:
  "devices_loop os ds ifname t = Ret (1, a) \<Longrightarrow>
   \<exists>d \<in> set ds. \<exists>domain bus. scan_pci_dir d = Some (domain, bus) \<and> a = interface_address domain bus \<and> length a \<le> 12"
proof (induction ds)
  case (Cons d ds)
  show ?case
  proof (cases "scan_pci_dir d")
    case None
    then show ?thesis using Cons by auto
  next
    case (Some x)
    obtain domain bus where x: "x = (domain, bus)" by (cases x)
    have z: "show_hex0 2 0 = ''00''" "show_hex0 1 0 = ''0''" by code_simp+
    from Cons.prems Some x z show ?thesis
      using Cons.IH
      by (auto simp: bind_o_Ret_iff Let_def interface_address_def split: option.splits if_splits)
  qed
qed simp

text \<open>The address it builds selects the adapters of its numbers.\<close>

lemma interface_address_scan:
  assumes "unat (word_of_int domain :: u32) < 65536" "unat bus < 256"
  shows "length (interface_address domain bus) = 12"
    and "scan_items lspci_long (interface_address domain bus) = [word_of_int domain, bus, 0]"
proof -
  show "length (interface_address domain bus) = 12"
    using assms by (simp add: interface_address_def length_show_hex0)
  have s: "scan_xw 4 (show_hex0 4 (unat (word_of_int domain :: u32)) @ r) = Some (word_of_int domain, r)"
    "scan_xw 2 (show_hex0 2 (unat bus) @ r) = Some (bus, r)" for r
    using assms scan_xw_show_hex0 [of "unat (word_of_int domain :: u32)" 4 r] scan_xw_show_hex0 [of "unat bus" 2 r]
    by simp_all
  have "scan_xw 2 ''00,0'' = Some (0, '',0'')"
    using scan_xw_show_hex0 [of 0 2 "'',0''"] by (simp add: show_hex0_def show_base.simps Let_def digit_char_0)
  then show "scan_items lspci_long (interface_address domain bus) = [word_of_int domain, bus, 0]"
    by (simp add: lspci_long_def lspci_short_def interface_address_def s scan_lit_def)
qed


text \<open>A network interface on bus 16 of domain 0.\<close>

definition net_dir :: string where "net_dir = ''/sys/devices/pci0000:10''"

definition net_os :: "nat os" where
  "net_os = demo_os\<lparr>os_dir := (\<lambda>p k. if p = ''/sys/devices'' then Some [''system'', ''pci0000:10'']
     else if p = net_dir then Some [''power'', ''0000:10:01.0'']
     else if p = net_dir @ ''/0000:10:01.0'' then Some [''irq'', ''net:eth0''] else None)\<rparr>"

lemma scan_x_hex0:
  assumes "n < 16 ^ w" "0 < w" "n < 2 ^ 32"
  shows "scan_x (show_hex0 w n) = Some (word_of_nat n, [])"
proof -
  have "clamp_ulong False n = word_of_nat n"
    using assms(3) by (simp add: clamp_ulong_def)
  then have "(ucast (clamp_ulong False n) :: u32) = word_of_nat n"
    using assms(3) by (simp add: unsigned_of_nat take_bit_nat_def)
  then show ?thesis
    using hex_digits_no_space [OF hex_digits_show_hex0, of w n "[]"] read_show_hex0 [of w n]
    by (simp add: scan_x_def scan_hex_body_digits [OF hex_digits_show_hex0])
qed

lemma scan_pci_text:
  assumes "bus < 256" "scan_d (x @ '':'' @ show_hex0 2 bus) = Some (d, '':'' @ show_hex0 2 bus)"
  shows "scan_pci_dir (''pci'' @ x @ '':'' @ show_hex0 2 bus) = Some (d, word_of_nat bus)"
  using assms scan_x_hex0 [of bus 2] by (simp add: scan_pci_dir_def scan_lits.simps scan_lit_def)

lemma scan_d_domains:
  "d < 10 \<Longrightarrow> scan_d (show_hex0 4 d @ '':'' @ r) = Some (int d, '':'' @ r)"
  "scan_d (show_hex0 4 16 @ '':'' @ r) = Some (10, '':'' @ r)"
  "scan_d (show_hex0 4 10 @ '':'' @ r) = Some (0, ''a:'' @ r)"
proof -
  have h: "show_hex0 4 d = ''000'' @ [digit_char d]" if "d < 16" for d
    using that by (simp add: show_hex0_def show_base.simps Let_def numeral_eq_Suc digit_char_0)
  have h16: "show_hex0 4 16 = ''0010''" by code_simp
  have c: "to_int (clamp_long False n) = int n" if "n < 100" for n
    using that by (simp add: clamp_long_def to_int_def signed_take_bit_int_eq_self)
  have rb: "read_base 10 0 (''000'' @ [digit_char d] @ '':'' @ r) = (d, '':'' @ r)" if "d < 10" for d
    using that by (simp add: is_digit_def digit_val_def [of "CHR ''0''"] digit_val_def [of "CHR '':''"])
  show "d < 10 \<Longrightarrow> scan_d (show_hex0 4 d @ '':'' @ r) = Some (int d, '':'' @ r)"
    using rb [of d] by (simp add: h scan_d_def skip_space_def is_space_def read_sign_def no_digit_def is_digit_def
        c digit_val_def [of "CHR ''0''"])
  show "scan_d (show_hex0 4 16 @ '':'' @ r) = Some (10, '':'' @ r)"
    by (simp add: h16 scan_d_def skip_space_def is_space_def read_sign_def no_digit_def is_digit_def c digit_val_def)
  have "digit_char 10 = CHR ''a''" by code_simp
  then show "scan_d (show_hex0 4 10 @ '':'' @ r) = Some (0, ''a:'' @ r)"
    by (simp add: h scan_d_def skip_space_def is_space_def read_sign_def no_digit_def is_digit_def c digit_val_def)
qed

text \<open>
  C31. The domain of a PCI directory is read as a decimal number although the kernel prints it as a
  hexadecimal one: the directory of a domain below ten is read right, that of domain 16, named
  \<open>pci0010\<close>, is taken for domain 10, and that of domain 10, named \<open>pci000a\<close>, is not read at all.
\<close>

theorem interface_domain_decimal:
  assumes "bus < 256"
  shows "(d < 10 \<longrightarrow>
      scan_pci_dir (''pci'' @ show_hex0 4 d @ '':'' @ show_hex0 2 bus) = Some (int d, word_of_nat bus)) \<and>
    scan_pci_dir (''pci'' @ show_hex0 4 16 @ '':'' @ show_hex0 2 bus) = Some (10, word_of_nat bus) \<and>
    scan_pci_dir (''pci'' @ show_hex0 4 10 @ '':'' @ show_hex0 2 bus) = None"
proof -
  have "scan_pci_dir (''pci'' @ show_hex0 4 10 @ '':'' @ show_hex0 2 bus) = None"
    using scan_d_domains(3) [of "show_hex0 2 bus"]
    by (simp add: scan_pci_dir_def scan_lits.simps scan_lit_def)
  then show ?thesis
    using scan_pci_text [OF assms scan_d_domains(1) [of d]] scan_pci_text [OF assms scan_d_domains(2)] by simp
qed

theorem interface_domain_decimal_witness:
  "scan_pci_dir ''pci0010:20'' = Some (10, 0x20) \<and> scan_pci_dir ''pci000a:20'' = None"
proof -
  have "show_hex0 4 16 = ''0010''" "show_hex0 4 10 = ''000a''" "show_hex0 2 32 = ''20''" by code_simp+
  then show ?thesis using interface_domain_decimal [of 32] by simp
qed


end
