(* ===== verification/MainProps.thy ===== *)
theory MainProps
  imports Enumerate TopProps
begin

text \<open>
  The whole program: \<open>main\<close> of src/pcitop.c from its command line on, with the driver
  behind the attribute files. The tree is built, the adapters are found and filtered, and then
  listed or measured.
\<close>

section \<open>Up to the filters\<close>

text \<open>The tool when \<open>main\<close> starts to look at the machine.\<close>

definition prepared :: "'s tool \<Rightarrow> 's tool" where
  "prepared t =
     (let t1 = (if nsamples (options t) = 0 then set_options (nsamples_update (\<lambda>_. 60)) t else t)
      in t1\<lparr>sys_info := snd (integrity_init_sys_info (sys_info t1))\<rparr>)"

lemma prepared_simps [simp]:
  "os_st (prepared t) = os_st t" "host_lba_list (prepared t) = host_lba_list t" "stdout (prepared t) = stdout t"
  "time_to_quit (prepared t) = time_to_quit t" "num_lba (options (prepared t)) = num_lba (options t)"
  "num_lba_display (options (prepared t)) = num_lba_display (options t)"
  "opt_show_info (options (prepared t)) = opt_show_info (options t)"
  "nsamples (options (prepared t)) \<noteq> 0"
  by (simp_all add: prepared_def set_options_def Let_def)

text \<open>The tool after building the tree from sysfs, when that reads no file of the driver.\<close>

definition with_tree :: "'s tool \<Rightarrow> pci_tree \<Rightarrow> bool \<Rightarrow> 's tool" where
  "with_tree t tr rb = (prepared t)\<lparr>tree := tr, read_buf := rb\<rparr>"

text \<open>An adapter of the driver the tool can show: its bridge is in the tree and its texts fit.\<close>

definition showable :: "pci_tree \<Rightarrow> lba \<Rightarrow> bool" where
  "showable tr l \<longleftrightarrow> get_sysfs_root_bridge (l_class_id l) tr \<noteq> None \<and> length (l_class_id l) \<le> 16 \<and>
     (\<exists>x. slots_text '', '' tr (bridge_of tr (l_class_id l)) = Ret x \<and> length x < 16)"

lemma mode_text_short: "length (hplba_bus_op_mode_to_str top_bus_op_modes_tab v) \<le> 16"
  by (induction v; code_simp)

lemma speed_text_short: "length (hplba_bus_speed_to_str top_bus_speeds_tab v) \<le> 16"
  by (induction v; code_simp)

lemma describes_fits:
  assumes d: "describes d tr j lba" and s: "showable tr (lba_list d ! j)" and t: "tree t = tr"
  shows "fits t lba"
proof -
  obtain c junk ar where lba: "lba = (found_lba c (lba_list d ! j) (hw d) junk)
       \<lparr>sysfs_root_bridge := get_sysfs_root_bridge (l_class_id (lba_list d ! j)) tr, arch_info := ar\<rparr>"
    using d by (auto simp: describes_def)
  have n: "li_name lba = l_class_id (lba_list d ! j)" using describes_name [OF d] .
  have r: "sysfs_root_bridge lba = get_sysfs_root_bridge (l_class_id (lba_list d ! j)) tr"
    using describes_facts(7) [OF d] n by simp
  have b: "bridge_slots lba t = Ret (bridge_of tr (l_class_id (lba_list d ! j)))"
    using s r t by (auto simp: bridge_slots_def bridge_of_def showable_def split: option.split)
  have "length (str_arg (bus_type lba)) \<le> 16" "length (str_arg (li_bus_speed lba)) \<le> 16"
    using mode_text_short speed_text_short by (simp_all add: lba found_lba_def str_arg_def)
  then show ?thesis using b n s t by (auto simp: fits_def showable_def)
qed

lemma describes_located:
  assumes "describes d tr j lba" "showable tr (lba_list d ! j)" "tree t = tr" "slots_named tr"
  shows "located t lba"
proof -
  have r: "sysfs_root_bridge lba = get_sysfs_root_bridge (li_name lba) tr"
    using describes_facts(7) [OF assms(1)] .
  obtain b where b: "get_sysfs_root_bridge (li_name lba) tr = Some b"
    using assms(2) describes_name [OF assms(1)] by (auto simp: showable_def)
  have "root_bridges tr ! b \<in> set (root_bridges tr)"
    using get_sysfs_root_bridge_Some(1) [OF b] by simp
  then show ?thesis using assms(3,4) b r by (simp add: located_def slots_named_def)
qed

text \<open>
  A driver that was loaded on a machine whose adapters have register windows of their own, and used in
  whatever way since.
\<close>

definition loaded :: "drv \<Rightarrow> bool" where
  "loaded d \<longleftrightarrow> (\<exists>env d0 d1. hplba_init env d0 = Some (0, d1) \<and> lba_list d0 = [] \<and>
     sorted_wrt apart (map l_phys_addr (lba_list d1)) \<and> drv_step\<^sup>*\<^sup>* d1 d)"

lemma loaded_inv: "loaded d \<Longrightarrow> drv_inv d"
  unfolding loaded_def using drv_steps_inv fresh_inv hplba_init_fresh by blast

text \<open>
  The machine, and the state of the program after the command line: the user is root, the drivers are loaded, the directory
  of the class names the adapters \<open>js\<close> of the driver, and \<open>build_tree\<close> makes the tree \<open>tr\<close>.
\<close>

definition on_machine :: "drv os \<Rightarrow> drv tool \<Rightarrow> pci_tree \<Rightarrow> bool \<Rightarrow> nat list \<Rightarrow> bool" where
  "on_machine os t tr rb js \<longleftrightarrow> os_euid os = 0 \<and> drivers_loaded os t = Ret 1 \<and>
     build_tree os (prepared t) = Ret (with_tree t tr rb) \<and>
     names_ok (os_st t) \<and> loaded (os_st t) \<and> slots_named tr \<and>
     distinct js \<and> set js \<subseteq> {..<length (lba_list (os_st t))} \<and>
     (\<exists>ds. os_dir os ''/sys/class/hplba'' (os_st t) = Some ds \<and>
        class_entries ds = map (\<lambda>j. l_class_id (lba_list (os_st t) ! j)) js) \<and>
     (\<forall>j \<in> set js. showable tr (lba_list (os_st t) ! j))"

definition started :: "drv os \<Rightarrow> drv tool \<Rightarrow> pci_tree \<Rightarrow> bool \<Rightarrow> nat list \<Rightarrow> bool" where
  "started os t tr rb js \<longleftrightarrow> on_machine os t tr rb js \<and>
     host_lba_list t = [] \<and> num_lba (options t) = 0 \<and> num_lba_display (options t) = 0"

text \<open>The command line sets options and nothing else of the tool.\<close>

definition commanded :: "'s os \<Rightarrow> string \<Rightarrow> opt_item list \<Rightarrow> 's \<Rightarrow> 's tool \<Rightarrow> bool" where
  "commanded os argv0 args d t \<longleftrightarrow>
     take_options os args (set_options init_options (set_program_name argv0 (start_tool d))) = Ret t"

definition same_start :: "'s tool \<Rightarrow> 's tool \<Rightarrow> bool" where
  "same_start t t' \<longleftrightarrow> host_lba_list t' = host_lba_list t \<and> stdout t' = stdout t \<and> time_to_quit t' = time_to_quit t \<and>
     num_lba (options t') = num_lba (options t) \<and> num_lba_display (options t') = num_lba_display (options t)"

lemma take_options_start: "take_options os cs t = Ret t' \<Longrightarrow> same_start t t'"
proof (induction cs arbitrary: t)
  case (Cons c cs)
  then obtain t1 where t1: "take_option os c t = Ret t1" "take_options os cs t1 = Ret t'"
    by (auto simp: bind_o_Ret_iff)
  then have "same_start t t1"
    by (auto simp: take_option_def set_options_def strdup_def bind_o_Ret_iff same_start_def
        split: opt_item.splits if_splits prod.splits)
  with Cons.IH [OF t1(2)] show ?case by (simp add: same_start_def)
qed (simp add: same_start_def)

lemma commandedD:
  assumes "commanded os argv0 args d t"
  shows "main_prog os argv0 args (start_tool d) = main_body os t" "time_to_quit t = 0" "stdout t = []"
    "on_machine os t tr rb js \<Longrightarrow> started os t tr rb js"
  using take_options_start [OF assms [unfolded commanded_def]] assms
  by (auto simp: commanded_def main_prog_def same_start_def started_def start_tool_def set_options_def
      init_options_def set_program_name_def)

text \<open>
  The tool after the filters: the adapters as discovered, displayed when they are selected, and
  counted; the driver is as it was.
\<close>

definition filtered :: "drv os \<Rightarrow> drv tool \<Rightarrow> pci_tree \<Rightarrow> nat list \<Rightarrow> drv tool \<Rightarrow> bool" where
  "filtered os t tr js t5 \<longleftrightarrow> all_linked (\<lambda>i. js ! i) t5 \<and>
     length (host_lba_list t5) = length js \<and>
     (\<forall>i < length js. \<exists>lba. describes (os_st t) tr (js ! i) lba \<and>
        host_lba_list t5 ! i = mark (selected os t5 (host_lba_list t5 ! i)) lba) \<and>
     lba_list (os_st t5) = lba_list (os_st t) \<and> cells (hw (os_st t5)) = cells (hw (os_st t)) \<and>
     tree t5 = tr \<and> stdout t5 = stdout t \<and> time_to_quit t5 = time_to_quit t \<and>
     options t5 = (options (prepared t))
       \<lparr>num_lba := word_of_nat (length js), num_lba_display := word_of_nat (shown (host_lba_list t5))\<rparr>"

text \<open>The rest of \<open>main\<close>.\<close>

definition after_filters :: "'s os \<Rightarrow> 's tool \<Rightarrow> (int \<times> 's tool) outcome" where
  "after_filters os t5 =
     (if opt_show_info (options t5) \<noteq> 0
      then bind_o (show_all_root_info t5) (\<lambda>t6. Ret (0, t6))
      else if num_lba (options t5) = 0 then Exit 1
      else let t6 = (if timeout (options t5) = 0
                     then set_options (timeout_update (\<lambda>_. 1)) t5 else t5)
           in if num_lba_display (options t6) = 0 then Exit 1
              else bind_o (measure_utilization os t6) (\<lambda>t7. Ret (0, t7)))"

lemma main_body_eq:
  "os_euid os = 0 \<Longrightarrow> drivers_loaded os t = Ret 1 \<Longrightarrow> build_tree os (prepared t) = Ret t3 \<Longrightarrow>
   init_lbas os t3 = Ret (0, t4) \<Longrightarrow> filter_lbas os t4 = Ret t5 \<Longrightarrow> main_body os t = after_filters os t5"
  by (simp add: main_body_def prepared_def after_filters_def Let_def)

lemma shown_marked: "shown (map (\<lambda>l. mark (p l) l) ls) = length (filter p ls)"
  by (induction ls) (simp_all add: shown_def mark_def)

lemma drv_inv_known: "drv_inv d \<Longrightarrow> \<forall>l \<in> set (lba_list d). known_chip l"
  by (auto simp: drv_inv_def lba_ok_def known_chip_def)

lemma reaches_filters:
  assumes files: "sysfs os" and start: "started os t tr rb js"
  shows "\<exists>t5. main_body os t = after_filters os t5 \<and> filtered os t tr js t5"
proof -
  define t3 where "t3 = with_tree t tr rb"
  have t3: "os_st t3 = os_st t" "tree t3 = tr" "host_lba_list t3 = []" "options t3 = options (prepared t)"
    "stdout t3 = stdout t" "time_to_quit t3 = time_to_quit t"
    using start by (simp_all add: t3_def with_tree_def started_def on_machine_def)
  have st: "os_euid os = 0" "drivers_loaded os t = Ret 1" "build_tree os (prepared t) = Ret t3"
    "names_ok (os_st t3)" "drv_inv (os_st t3)" "slots_named (tree t3)" "distinct js"
    "set js \<subseteq> {..<length (lba_list (os_st t3))}" "num_lba (options t) = 0" "num_lba_display (options t) = 0"
    "\<forall>j \<in> set js. showable tr (lba_list (os_st t) ! j)"
    using start by (simp_all add: started_def on_machine_def loaded_inv t3_def [symmetric] t3)
  obtain ds where ds: "os_dir os ''/sys/class/hplba'' (os_st t3) = Some ds"
    "class_entries ds = map (\<lambda>j. l_class_id (lba_list (os_st t3) ! j)) js"
    using start by (auto simp: started_def on_machine_def t3)
  obtain m r lbas si where i: "init_lbas os t3 = Ret (0, found_more t3 m r lbas si)"
    "cells m = cells (hw (os_st t3))" "list_all2 (describes (os_st t3) (tree t3)) js lbas"
    "all_linked (\<lambda>i. js ! i) (found_more t3 m r lbas si)"
    using init_lbas_eq [OF files st(4) drv_inv_known [OF st(5)] st(6) t3(3) ds st(7,8)] by blast
  define t4 where "t4 = found_more t3 m r lbas si"
  have t4: "os_st t4 = (os_st t)\<lparr>hw := m\<rparr>" "tree t4 = tr" "host_lba_list t4 = lbas" "stdout t4 = stdout t"
    "time_to_quit t4 = time_to_quit t"
    "options t4 = (options (prepared t))\<lparr>num_lba := word_of_nat (length js)\<rparr>"
    using i(3) st(9) by (simp_all add: t4_def t3 list_all2_lengthD [of _ js lbas])
  have d: "describes (os_st t) tr (js ! k) (lbas ! k)" if "k < length js" for k
    using list_all2_nthD [OF i(3) that] by (simp add: t3)
  have len: "length lbas = length js" using i(3) by (simp add: list_all2_lengthD)
  have "\<forall>l \<in> set (host_lba_list t4). located t4 l"
  proof
    fix l assume "l \<in> set (host_lba_list t4)"
    then obtain k where k: "k < length js" "l = lbas ! k" by (auto simp: in_set_conv_nth t4(3) len)
    show "located t4 l"
      using describes_located [OF d [OF k(1)], of t4] st(6,11) k by (simp add: t4 t3)
  qed
  note f = filter_lbas_eq [OF this, of os, unfolded t4(3)]
  define t5 where "t5 = t4\<lparr>host_lba_list := map (\<lambda>l. mark (selected os t4 l) l) lbas,
      options := count_display (length (filter (selected os t4) lbas)) (options t4)\<rparr>"
  have t5: "options t5 = count_display (length (filter (selected os t4) lbas)) (options t4)" "tree t5 = tree t4"
    "os_st t5 = os_st t4" by (simp_all add: t5_def)
  have h5: "host_lba_list t5 = map (\<lambda>l. mark (selected os t4 l) l) lbas" by (simp add: t5_def)
  have "\<exists>lba. describes (os_st t) tr (js ! k) lba \<and>
      host_lba_list t5 ! k = mark (selected os t5 (host_lba_list t5 ! k)) lba" if "k < length js" for k
    using d [OF that] that criteria_cong_mark(2) [OF t5, of os]
    by (intro exI [of _ "lbas ! k"]) (simp add: h5 len)
  moreover have "all_linked (\<lambda>i. js ! i) t5"
    by (rule all_linked_same [OF i(4) [folded t4_def]]) (simp_all add: t5 h5 t4(3) mark_def)
  moreover have "options t5 = (options (prepared t))
       \<lparr>num_lba := word_of_nat (length js), num_lba_display := word_of_nat (shown (host_lba_list t5))\<rparr>"
    using st(10) by (simp add: h5 shown_marked t5(1) count_display_def t4(6))
  moreover have "main_body os t = after_filters os t5"
    using main_body_eq [OF st(1-3) i(1) [folded t4_def] f [folded t4_def t5_def]] by simp
  ultimately show ?thesis
    unfolding filtered_def using i(2)
    by (intro exI [of _ t5]) (simp add: t5 t4 h5 len t3 count_display_def t5_def)
qed

section \<open>The measurement\<close>

lemma drv_inv_same:
  assumes "lba_list d' = lba_list d" "cells (hw d') = cells (hw d)"
  shows "drv_inv d' = drv_inv d"
  using lba_ok_cells [OF assms(2)] by (simp add: drv_inv_def assms(1))

lemma dcounts_same:
  assumes "lba_list d' = lba_list d" "cells (hw d') = cells (hw d)" "known_chip (lba_list d ! j)"
  shows "dcounts d' j = dcounts d j"
  using counts_cells [OF assms(2,3)] by (simp add: dcounts_def assms(1))

lemma measure_overflows:
  assumes files: "sysfs os" and fit: "\<forall>l \<in> set (host_lba_list t). display l \<noteq> 0 \<longrightarrow> fits t l"
    and n: "n = shown (host_lba_list t)" "0 < n" "n < 2 ^ 20" and last: "\<not> last_shown (host_lba_list t)"
    and num: "num_lba_display (options t) = word_of_nat n"
  shows "measure_utilization os t = Crash"
proof -
  have w: "(ucast (num_lba_display (options t)) :: u32) = word_of_nat n"
    using n(3) by (simp add: num unsigned_of_nat take_bit_nat_def)
  have "os_malloc os k d = (True, d)" for k d using files by (simp add: sysfs_def)
  then have "build_banner os (word_of_nat n) t = Crash"
    using build_banner_overflows [OF fit n last] by blast
  then show ?thesis by (simp add: measure_utilization_def Let_def w)
qed

text \<open>What is displayed after the filters can be shown and measured.\<close>

lemma filtered_facts:
  assumes files: "sysfs os" and start: "started os t tr rb js" and flt: "filtered os t tr js t5"
  shows "drv_inv (os_st t5)"
    and "\<forall>l \<in> set (host_lba_list t5). display l \<noteq> 0 \<longrightarrow> fits t5 l"
    and "i < length js \<Longrightarrow> uncounted (host_lba_list t5 ! i) \<and>
      dcounts (os_st t5) (js ! i) = dcounts (os_st t) (js ! i)"
    and "shown (host_lba_list t5) \<le> length js"
proof -
  have same: "lba_list (os_st t5) = lba_list (os_st t)" "cells (hw (os_st t5)) = cells (hw (os_st t))"
    "tree t5 = tr" "length (host_lba_list t5) = length js"
    using flt by (simp_all add: filtered_def)
  have inv: "drv_inv (os_st t)" "set js \<subseteq> {..<length (lba_list (os_st t))}"
    "\<forall>j \<in> set js. showable tr (lba_list (os_st t) ! j)"
    using start by (simp_all add: started_def on_machine_def loaded_inv)
  show "drv_inv (os_st t5)" using drv_inv_same [OF same(1,2)] inv(1) by simp
  have d: "\<exists>lba b. describes (os_st t) tr (js ! i) lba \<and> host_lba_list t5 ! i = mark b lba"
    if "i < length js" for i
    using flt that unfolding filtered_def by blast
  show "uncounted (host_lba_list t5 ! i) \<and>
      dcounts (os_st t5) (js ! i) = dcounts (os_st t) (js ! i)" if i: "i < length js"
  proof -
    obtain lba b where l: "describes (os_st t) tr (js ! i) lba" "host_lba_list t5 ! i = mark b lba"
      using d [OF i] by blast
    have "js ! i < length (lba_list (os_st t))" using inv(2) i nth_mem by blast
    then have "known_chip (lba_list (os_st t) ! (js ! i))" using drv_inv_known [OF inv(1)] by simp
    then show ?thesis
      using describes_facts [OF l(1)] dcounts_same [OF same(1,2)] by (simp add: l(2) mark_def uncounted_def)
  qed
  show "\<forall>l \<in> set (host_lba_list t5). display l \<noteq> 0 \<longrightarrow> fits t5 l"
  proof (intro ballI impI)
    fix l assume "l \<in> set (host_lba_list t5)"
    then obtain i where i: "i < length js" "l = host_lba_list t5 ! i"
      by (auto simp: in_set_conv_nth same(4))
    obtain lba b where l: "describes (os_st t) tr (js ! i) lba" "l = mark b lba"
      using d [OF i(1)] i(2) by blast
    have "fits t5 lba" using describes_fits [OF l(1) _ same(3)] inv(3) i(1) by simp
    moreover have "bridge_slots (mark b lba) t5 = bridge_slots lba t5"
      by (simp add: bridge_slots_def mark_def)
    ultimately show "fits t5 l" by (simp add: fits_def l(2)) (simp add: mark_def)
  qed
  show "shown (host_lba_list t5) \<le> length js"
    unfolding same(4) [symmetric] shown_def by (rule length_filter_le)
qed

lemma measured:
  assumes files: "sysfs os" and st: "steady os" and fresh: "\<And>k d. os_fresh os k d = zeroed k"
    and start: "started os t tr rb js" and flt: "filtered os t tr js t5"
    and size: "length js < 2 ^ 20" and quit: "time_to_quit t = 0"
    and adv: "\<forall>j \<in> set js. advance (0, 0) (dcounts (os_st t) j)"
    and info: "opt_show_info (options t) = 0"
  shows "shown (host_lba_list t5) = 0 \<Longrightarrow> after_filters os t5 = Exit 1"
    and "0 < shown (host_lba_list t5) \<Longrightarrow> \<not> last_shown (host_lba_list t5) \<Longrightarrow> after_filters os t5 = Crash"
    and "last_shown (host_lba_list t5) \<Longrightarrow> \<exists>t' x. after_filters os t5 = Ret (0, t') \<and>
      left (os_early_sigint os) (\<lambda>i. js ! i) t' \<and> drv_inv (os_st t') \<and>
      map display (host_lba_list t') = map display (host_lba_list t5) \<and>
      stdout t' = stdout t @ x @ row_of average_util (host_lba_list t') @ [newline]"
proof -
  define n where "n = shown (host_lba_list t5)"
  define t6 where "t6 = (if timeout (options t5) = 0 then set_options (timeout_update (\<lambda>_. 1)) t5 else t5)"
  have t6: "os_st t6 = os_st t5" "host_lba_list t6 = host_lba_list t5" "tree t6 = tree t5" "stdout t6 = stdout t5"
    "time_to_quit t6 = time_to_quit t5" "num_lba_display (options t6) = num_lba_display (options t5)"
    "nsamples (options t6) = nsamples (options t5)"
    by (simp_all add: t6_def set_options_def)
  have f: "all_linked (\<lambda>i. js ! i) t5" "length (host_lba_list t5) = length js"
    "opt_show_info (options t5) = 0" "nsamples (options t5) \<noteq> 0" "num_lba (options t5) = word_of_nat (length js)"
    "num_lba_display (options t5) = word_of_nat n" "stdout t5 = stdout t" "time_to_quit t5 = 0"
    using flt info quit by (simp_all add: filtered_def n_def)
  note g = filtered_facts [OF files start flt, folded n_def]
  have fit6: "\<forall>l \<in> set (host_lba_list t6). display l \<noteq> 0 \<longrightarrow> fits t6 l"
    using g(2) unfolding t6 fits_def bridge_slots_def by simp
  have l6: "all_linked (\<lambda>i. js ! i) t6" using f(1) by (simp add: all_linked_def linked_def t6)
  have small: "n < 2 ^ 20" "n \<le> length js" using g(4) size by linarith+
  have zero: "(word_of_nat k :: u64) = 0 \<longleftrightarrow> k = 0" if "k < 2 ^ 20" for k
    using that by (auto simp: word_of_nat_eq_0_iff dest: nat_dvd_not_less)
  have e: "after_filters os t5 = (if length js = 0 then Exit 1 else if n = 0 then Exit 1
      else bind_o (measure_utilization os t6) (\<lambda>t7. Ret (0, t7)))"
    using f(3,5,6) zero [OF size] zero [OF small(1)]
    by (simp add: after_filters_def t6_def [symmetric] t6 Let_def)
  then have go: "after_filters os t5 = bind_o (measure_utilization os t6) (\<lambda>t7. Ret (0, t7))" if "0 < n"
    using that small(2) by auto
  show "after_filters os t5 = Exit 1" if "shown (host_lba_list t5) = 0"
    using that e by (simp add: n_def)
  show "after_filters os t5 = Crash" if "0 < shown (host_lba_list t5)" "\<not> last_shown (host_lba_list t5)"
    using measure_overflows [OF files fit6, of n] that small(1) go f(6) by (simp add: t6 n_def)
  show "\<exists>t' x. after_filters os t5 = Ret (0, t') \<and> left (os_early_sigint os) (\<lambda>i. js ! i) t' \<and> drv_inv (os_st t') \<and>
      map display (host_lba_list t') = map display (host_lba_list t5) \<and>
      stdout t' = stdout t @ x @ row_of average_util (host_lba_list t') @ [newline]"
    if last: "last_shown (host_lba_list t5)"
  proof -
    have "last (host_lba_list t5) \<in> set (filter (\<lambda>l. display l \<noteq> 0) (host_lba_list t5))"
      using last by (auto simp: last_shown_def)
    then have n: "0 < n" unfolding n_def shown_def by (rule length_pos_if_in_set)
    have "\<exists>t' x. measure_utilization os t6 = Ret t' \<and> left (os_early_sigint os) (\<lambda>i. js ! i) t' \<and> drv_inv (os_st t') \<and>
        map display (host_lba_list t') = map display (host_lba_list t6) \<and>
        stdout t' = stdout t6 @ x @ row_of average_util (host_lba_list t') @ [newline]"
    proof (rule measurement_returns [OF files st l6 _ fit6 _ n small(1)])
      show "drv_inv (os_st t6)" using g(1) by (simp add: t6)
      show "n = shown (host_lba_list t6)" "last_shown (host_lba_list t6)"
        "num_lba_display (options t6) = word_of_nat n" "time_to_quit t6 = 0" "nsamples (options t6) \<noteq> 0"
        using last f by (simp_all add: n_def t6)
      show "os_fresh os k d = zeroed k" for k d by (rule fresh)
      show "uncounted (host_lba_list t6 ! i) \<and>
          advance (0, 0) (dcounts (os_st t6) (js ! i))" if "i < length (host_lba_list t6)" for i
        using g(3) [of i] that adv f(2) by (simp add: t6)
    qed
    then show ?thesis using go n f(7) by (auto simp: t6)
  qed
qed

section \<open>The listing\<close>

lemma slots_text_returns:
  "\<forall>k \<in> set ks. NUL \<in> set (slot_name (slots tr ! k)) \<Longrightarrow> \<exists>x. slots_text sep tr ks = Ret x"
  by (induction ks) (auto simp: c_string_def)

lemma root_info_line_returns:
  assumes "located t l" "NUL \<in> set (li_revision l)"
  shows "\<exists>x. root_info_line l t = Ret x"
proof -
  obtain b where b: "sysfs_root_bridge l = Some b" using assms(1) by (auto simp: located_def split: option.splits)
  define ks where "ks = rb_slots (root_bridges (tree t) ! b)"
  have ks: "bridge_slots l t = Ret ks" by (simp add: bridge_slots_def b ks_def)
  have "\<forall>k \<in> set ks. NUL \<in> set (slot_name (slots (tree t) ! k))"
    using assms(1) b by (simp add: located_def ks_def)
  then obtain x where x: "slots_text '','' (tree t) ks = Ret x" using slots_text_returns by blast
  have "c_string (li_revision l) = Some (buf_str (li_revision l))" using assms(2) by (simp add: c_string_def)
  then show ?thesis using ks x by (simp add: root_info_line_def Let_def)
qed

lemma root_info_line_emit: "root_info_line l (emit x t) = root_info_line l t"
proof -
  have s: "tree (emit x t) = tree t" "sys_info (emit x t) = sys_info t" "options (emit x t) = options t"
    by (simp_all add: emit_def)
  have b: "bridge_slots l (emit x t) = bridge_slots l t" unfolding bridge_slots_def s(1) by (rule refl)
  show ?thesis unfolding root_info_line_def b s by (rule refl)
qed

lemma root_info_loop_eq:
  "\<forall>l \<in> set ls. display l \<noteq> 0 \<longrightarrow> root_info_line l t = Ret (f l) \<Longrightarrow>
   root_info_loop ls t = Ret (emit (concat (map f (filter (\<lambda>l. display l \<noteq> 0) ls))) t)"
proof (induction ls arbitrary: t)
  case (Cons l ls)
  then show ?case
    using Cons.IH [of "emit (f l) t"] Cons.IH [of t] by (auto simp: root_info_line_emit) (simp add: emit_def)
qed (simp add: emit_def)

lemma strncpy_has_NUL: "length s < n \<Longrightarrow> length b = n \<Longrightarrow> NUL \<in> set (strncpy b s n)"
  by (simp add: strncpy_def)

lemma filtered_lines:
  assumes start: "started os t tr rb js" and flt: "filtered os t tr js t5" and l: "l \<in> set (host_lba_list t5)"
  shows "\<exists>x. root_info_line l t5 = Ret x"
proof -
  have f: "length (host_lba_list t5) = length js" "tree t5 = tr" using flt by (simp_all add: filtered_def)
  obtain i where i: "i < length js" "l = host_lba_list t5 ! i" using l by (auto simp: in_set_conv_nth f)
  obtain lba b where lba: "describes (os_st t) tr (js ! i) lba" "l = mark b lba"
    using flt i unfolding filtered_def by blast
  have "showable tr (lba_list (os_st t) ! (js ! i))" "slots_named tr"
    using start i(1) by (simp_all add: started_def on_machine_def)
  then have "located t5 lba" using describes_located [OF lba(1) _ f(2)] by blast
  then have "located t5 l" by (simp add: located_def lba(2) mark_def)
  moreover have "NUL \<in> set (li_revision lba)"
  proof -
    have "length (revision_text a m) < REV_LEN" for a m
      using revision_text_ok(2) [of a m] by (simp add: REV_LEN_def)
    then show ?thesis
      using lba(1) strncpy_has_NUL by (auto simp: describes_def found_lba_def zeroed_def)
  qed
  then have "NUL \<in> set (li_revision l)" by (simp add: lba(2) mark_def)
  ultimately show ?thesis by (rule root_info_line_returns)
qed

section \<open>The concrete machine\<close>

definition demo_bridge_tree :: pci_tree where
  "demo_bridge_tree =
     \<lparr>root_bridges = [\<lparr>rb_name = ''0000:10'', rb_slots = []\<rparr>],
      buses = [\<lparr>bus_name = strncpy (zeroed BUS_NAME_LEN) ''0000:10'' BUS_NAME_LEN, bus_bridge = Some 0\<rparr>],
      slots = []\<rparr>"

text \<open>The program as started with three samples, at the end of the command line.\<close>

definition demo_main :: "int \<Rightarrow> drv tool" where
  "demo_main info = (start_tool demo_drv1)
     \<lparr>prg_name := prg_name (set_program_name ''pcitop'' (start_tool demo_drv1)), options := (options (start_tool demo_drv1))\<lparr>opt_match_bus := - 1, opt_match_domain := - 1, opt_match_and := 1,
        opt_show_info := info, nsamples := 3\<rparr>\<rparr>"

lemma demo_build_tree:
  "build_tree demo_machine (prepared (demo_main info)) = Ret (with_tree (demo_main info) demo_bridge_tree False)"
proof -
  have a1: "scan_bridge ''system'' = []" by (simp add: scan_bridge_def scan_lit_def)
  have h: "show_hex0 4 0 = ''0000''" "show_hex0 2 0x10 = ''10''" by code_simp+
  have a2: "scan_bridge ''pci0000:10'' = [0, 0x10]" "bridge_name 0 0x10 = ''0000:10''"
    using scan_bridge_kernel_name [of 0 "0x10"] bridge_name_kernel [of 0 "0x10"] by (simp_all add: h)
  have a3: "scan_link ''../../../devices/pci0000:10'' = Some ''0000:10''" by code_simp
  have a4: "take (PATH_MAX - Suc 0) ''../../../devices/pci0000:10'' = ''../../../devices/pci0000:10''"
    by (simp add: PATH_MAX_def)
  have p: "prepared (demo_main info) = demo_main info"
    by (simp add: prepared_def demo_main_def start_tool_def integrity_init_sys_info_def)
  have t: "tree (demo_main info) = empty_tree" "os_st (demo_main info) = demo_drv1"
    by (simp_all add: demo_main_def start_tool_def)
  have os: "os_malloc demo_machine n d = (True, d)" "os_readlink demo_machine x d = Some ''../../../devices/pci0000:10''"
    "os_dir demo_machine SYSFS_DEV_DIR d = Some [''.'', ''..'', ''system'', ''pci0000:10'']"
    "os_dir demo_machine SYSFS_BUS_DIR d = Some [''.'', ''..'', ''0000:10'']"
    "os_dir demo_machine SYSFS_SLOTS_DIR d = Some [''.'', ''..'']" for n d x
    by (simp_all add: demo_machine_def demo_sys_def SYSFS_DEV_DIR_def SYSFS_BUS_DIR_def SYSFS_SLOTS_DIR_def)
  have same: "(demo_main info)\<lparr>os_st := demo_drv1\<rparr> = demo_main info"
    by (simp add: demo_main_def start_tool_def)
  define tr1 where "tr1 = empty_tree\<lparr>root_bridges := [\<lparr>rb_name = ''0000:10'', rb_slots = []\<rparr>]\<rparr>"
  have 1: "create_root_bridge_list demo_machine empty_tree (demo_main info) = (0, tr1, demo_main info)"
    by (simp add: create_root_bridge_list_def os a1 a2 skip_entry_def streq_iff t same tr1_def)
      (simp add: empty_tree_def)
  have 2: "create_pci_bus_list demo_machine tr1 (demo_main info) = (0, demo_bridge_tree, demo_main info)"
    by (simp add: create_pci_bus_list_def os a3 a4 skip_entry_def streq_iff t same tr1_def strneq_iff
        ROOT_BRIDGE_NAME_LEN_def demo_bridge_tree_def) (simp add: empty_tree_def)
  have 3: "create_sysfs_slot_list demo_machine a demo_bridge_tree (demo_main info) =
      Some (0, demo_bridge_tree, demo_main info)" for a
    by (simp add: create_sysfs_slot_list_def os skip_entry_def streq_iff)
  have "create_sysfs_pci_tree demo_machine a empty_tree (demo_main info) =
      Some (0, demo_bridge_tree, demo_main info)" for a
    by (simp add: create_sysfs_pci_tree_def 1 2 3)
  then show ?thesis
    unfolding build_tree_def p with_tree_def t by (simp add: demo_main_def start_tool_def)
qed

lemma demo_commanded:
  "commanded demo_machine ''pcitop'' [Opt_char (CHR ''c'') ''3''] demo_drv1 (demo_main 0)"
  "commanded demo_machine ''pcitop'' [Opt_char (CHR ''c'') ''3'', Opt_char (CHR ''i'') []] demo_drv1 (demo_main 1)"
proof -
  have "show_nat 3 = ''3''" by code_simp
  then have n: "strtoul10 ''3'' = 3"
    using scan_lu_show_nat [of 3 "[]"] by (simp add: strtoul10_def no_digit_def)
  obtain P where P: "set_program_name ''pcitop'' (start_tool demo_drv1) = (start_tool demo_drv1)\<lparr>prg_name := P\<rparr>"
    by (auto simp only: set_program_name_def)
  then have "prg_name (set_program_name ''pcitop'' (start_tool demo_drv1)) = P" by simp
  with n P show "commanded demo_machine ''pcitop'' [Opt_char (CHR ''c'') ''3''] demo_drv1 (demo_main 0)"
    "commanded demo_machine ''pcitop'' [Opt_char (CHR ''c'') ''3'', Opt_char (CHR ''i'') []] demo_drv1 (demo_main 1)"
    by (simp_all add: commanded_def take_option_def set_options_def init_options_def demo_main_def)
      (simp_all add: start_tool_def)
qed

lemma demo_started: "started demo_machine (demo_main info) demo_bridge_tree False [0]"
proof -
  have "get_sysfs_root_bridge ''0000:10:00.0'' demo_bridge_tree = Some 0"
    by (simp add: get_sysfs_root_bridge_def demo_bridge_tree_def strneq_iff ROOT_BRIDGE_NAME_LEN_def)
  then have "showable demo_bridge_tree demo_lba"
    by (simp add: showable_def demo_lba_def bridge_of_def demo_bridge_tree_def)
  moreover have "os_st (demo_main info) = demo_drv1" "host_lba_list (demo_main info) = []"
    "num_lba (options (demo_main info)) = 0" "num_lba_display (options (demo_main info)) = 0"
    by (simp_all add: demo_main_def start_tool_def)
  moreover have "drivers_loaded demo_machine (demo_main info) = Ret 1" "os_euid demo_machine = 0"
    unfolding drivers_loaded_eq by (simp_all add: demo_machine_def demo_sys_def)
  moreover have "slots_named demo_bridge_tree" by (simp add: slots_named_def demo_bridge_tree_def)
  moreover have "loaded demo_drv1"
    unfolding loaded_def by (intro exI conjI) (rule demo_init, simp_all add: demo_drv_def demo_drv_lists(1))
  ultimately show ?thesis
    using demo_build_tree [of info] demo_drv_known(1) demo_entries
    by (simp add: started_def on_machine_def demo_drv_lists(1)) (simp add: demo_lba_def)
qed

text \<open>Its adapter is displayed.\<close>

lemma demo_displayed:
  assumes "filtered demo_machine (demo_main info) demo_bridge_tree [0] t5"
  shows "\<exists>l. host_lba_list t5 = [l] \<and> display l \<noteq> 0 \<and> li_name l = ''0000:10:00.0''" "last_shown (host_lba_list t5)"
proof -
  obtain l where l: "host_lba_list t5 = [l]"
    using assms by (auto simp: filtered_def length_Suc_conv)
  obtain lba where lba: "describes demo_drv1 demo_bridge_tree 0 lba" "l = mark (selected demo_machine t5 l) lba"
    using assms by (auto simp: filtered_def l demo_main_def start_tool_def)
  obtain a b where "options t5 = (options (prepared (demo_main info)))\<lparr>num_lba := a, num_lba_display := b\<rparr>"
    using assms by (auto simp: filtered_def)
  then have "opt_match_and (options t5) = 1" "opt_match_bus (options t5) = - 1" "opt_match_domain (options t5) = - 1"
    "opt_match_lspci (options t5) = None" "opt_match_cabinet (options t5) = None" "opt_match_bay (options t5) = None"
    "opt_match_chassis (options t5) = None" "opt_match_slot (options t5) = None"
    by (simp_all add: prepared_def demo_main_def start_tool_def set_options_def Let_def)
  then have "selected demo_machine t5 l"
    by (simp add: selected_def criteria_def crit_domain_def crit_bus_def crit_lspci_def crit_layout_def crit_slot_def)
  moreover have "li_name lba = ''0000:10:00.0''"
    using describes_name [OF lba(1)] by (simp add: demo_drv_lists demo_lba_def)
  ultimately have "display l \<noteq> 0" "li_name l = ''0000:10:00.0''" using lba(2) by (simp_all add: mark_def)
  with l show "\<exists>l. host_lba_list t5 = [l] \<and> display l \<noteq> 0 \<and> li_name l = ''0000:10:00.0''"
    "last_shown (host_lba_list t5)" by (auto simp: last_shown_def)
qed

section \<open>The properties\<close>





end
