(* ===== verification/Talloc.thy ===== *)
theory Talloc
  imports Util "HOL-Library.Monad_Syntax"
begin

unbundle bit_operations_syntax

text \<open>
  The hierarchical allocator of src/talloc.c, which src/string.c is written for: every block has a
  header, the chunk, which links it to its parent, its children and its siblings, so that freeing
  a block frees everything below it. Blocks may be referenced from a second parent, and may have
  a destructor.

  The heap maps the address of a chunk to the chunk. The pointer handed to the user is the
  chunk's address plus the size of the header, and the code converts between the two all the
  time; here a block has one name for both. \<open>malloc\<close>, \<open>realloc\<close>, the external allocator of a
  program (\<open>t_external\<close>: context, old block, size) and the destructors of users are parameters, and sizes leave the header out.
  A function has the result \<open>None\<close> when it follows a pointer to memory that is not
  allocated, aborts on a bad magic number, or does not return.

  The functions a program calls take the lock of the program (\<open>tc_lock\<close>) around the internal ones they are
  made of, and give it back on every way out. Between the two only the library runs, so the pair shows
  where the library takes the lock again while it holds it (\<open>relock\<close>). What a format makes of its arguments is
  a parameter.
\<close>

section \<open>Chunks\<close>

type_synonym ptr = nat

text \<open>
  A block holds one cell per byte. A pointer is kept in the first of the eight cells it occupies,
  an integer in the first of its own.
\<close>

datatype cell = Undef | Byte char | Pointer "ptr option" | Num int

datatype destructor = Destr_none | Destr_busy | Destr_ref | Destr_autofree | Destr_user nat

datatype tname = Name_null | Name_ref | Name_const string | Name_at ptr

record chunk =
  tc_next :: "ptr option"
  tc_prev :: "ptr option"
  tc_parent :: "ptr option"
  tc_child :: "ptr option"
  tc_refs :: "ptr option"
  tc_destructor :: destructor
  tc_name :: tname
  tc_size :: nat
  tc_flags :: u32
  tc_data :: "cell list"

record theap =
  chunks :: "ptr \<Rightarrow> chunk option"
  null_context :: "ptr option"
  autofree_context :: "ptr option"

text \<open>
  A lock a program sets with \<open>talloc_locksafe\<close>: one that waits until nobody holds it, or one that its holder may take again.
\<close>

datatype lock_hook = Waits | Recursive

record tenv =
  tc_lock :: "lock_hook option"
  t_malloc :: "nat \<Rightarrow> theap \<Rightarrow> ptr option"
  t_realloc :: "ptr \<Rightarrow> nat \<Rightarrow> theap \<Rightarrow> ptr option"
  t_external :: "ptr option \<Rightarrow> ptr option \<Rightarrow> nat \<Rightarrow> theap \<Rightarrow> ptr option"
  t_destructor :: "nat \<Rightarrow> ptr \<Rightarrow> theap \<Rightarrow> int \<times> theap"

definition talloc_locksafe :: "lock_hook option \<Rightarrow> tenv \<Rightarrow> tenv" where
  "talloc_locksafe hooks env = env\<lparr>tc_lock := hooks\<rparr>"

text \<open>A function that takes the lock, called by one that holds it.\<close>

definition relock :: "tenv \<Rightarrow> 'a option \<Rightarrow> 'a option" where
  "relock env result = (if tc_lock env = Some Waits then None else result)"

lemma relock_Some [simp]: "relock env r = Some x \<longleftrightarrow> tc_lock env \<noteq> Some Waits \<and> r = Some x"
  by (simp add: relock_def)

lemma relock_free [simp]: "tc_lock env \<noteq> Some Waits \<Longrightarrow> relock env r = r"
  by (simp add: relock_def)

definition MAX_TALLOC_SIZE :: nat where "MAX_TALLOC_SIZE = 0x10000000"
definition TALLOC_MAGIC :: u32 where "TALLOC_MAGIC = 0xe814ec70"
definition TALLOC_FLAG_FREE :: u32 where "TALLOC_FLAG_FREE = 0x01"
definition TALLOC_FLAG_LOOP :: u32 where "TALLOC_FLAG_LOOP = 0x02"
definition TALLOC_FLAG_EXT_ALLOC :: u32 where "TALLOC_FLAG_EXT_ALLOC = 0x04"

definition talloc_chunk_from_ptr :: "ptr \<Rightarrow> theap \<Rightarrow> chunk option" where
  "talloc_chunk_from_ptr p h =
     do { c \<leftarrow> chunks h p;
          if tc_flags c AND (TALLOC_FLAG_FREE OR NOT 0xF) \<noteq> TALLOC_MAGIC then None else Some c }"

text \<open>A write to a chunk.\<close>

definition upd :: "ptr \<Rightarrow> (chunk \<Rightarrow> chunk) \<Rightarrow> theap \<Rightarrow> theap option" where
  "upd p f h = do { c \<leftarrow> chunks h p; Some (h\<lparr>chunks := (chunks h)(p \<mapsto> f c)\<rparr>) }"

text \<open>The same through a pointer that is tested for null first.\<close>

definition upd_opt :: "ptr option \<Rightarrow> (chunk \<Rightarrow> chunk) \<Rightarrow> theap \<Rightarrow> theap option" where
  "upd_opt q f h = (case q of None \<Rightarrow> Some h | Some p \<Rightarrow> upd p f h)"

definition has_flag :: "u32 \<Rightarrow> chunk \<Rightarrow> bool" where
  "has_flag f c \<longleftrightarrow> tc_flags c AND f \<noteq> 0"

definition set_flag :: "u32 \<Rightarrow> chunk \<Rightarrow> chunk" where
  "set_flag f c = c\<lparr>tc_flags := tc_flags c OR f\<rparr>"

definition clear_flag :: "u32 \<Rightarrow> chunk \<Rightarrow> chunk" where
  "clear_flag f c = c\<lparr>tc_flags := tc_flags c AND NOT f\<rparr>"

section \<open>Contents of blocks\<close>

definition load_ptr :: "ptr \<Rightarrow> nat \<Rightarrow> theap \<Rightarrow> ptr option option" where
  "load_ptr p off h =
     do { c \<leftarrow> chunks h p;
          if off + 8 \<le> length (tc_data c)
          then (case tc_data c ! off of Pointer q \<Rightarrow> Some q | _ \<Rightarrow> None) else None }"

definition store_ptr :: "ptr \<Rightarrow> nat \<Rightarrow> ptr option \<Rightarrow> theap \<Rightarrow> theap option" where
  "store_ptr p off q h =
     do { c \<leftarrow> chunks h p;
          if off + 8 \<le> length (tc_data c)
          then upd p (tc_data_update (\<lambda>d. d[off := Pointer q])) h else None }"

definition put_cells :: "nat \<Rightarrow> cell list \<Rightarrow> cell list \<Rightarrow> cell list" where
  "put_cells off cs d = take off d @ cs @ drop (off + length cs) d"

text \<open>\<open>memcpy\<close> to, and \<open>memset\<close> of, a part of a block.\<close>

definition store_cells :: "ptr \<Rightarrow> nat \<Rightarrow> cell list \<Rightarrow> theap \<Rightarrow> theap option" where
  "store_cells p off cs h =
     do { c \<leftarrow> chunks h p;
          if off + length cs \<le> length (tc_data c)
          then upd p (tc_data_update (put_cells off cs)) h else None }"

definition store_bytes :: "ptr \<Rightarrow> nat \<Rightarrow> char list \<Rightarrow> theap \<Rightarrow> theap option" where
  "store_bytes p off bs h = store_cells p off (map Byte bs) h"

text \<open>The string at the start of some cells, if it ends there.\<close>

fun cell_string :: "cell list \<Rightarrow> string option" where
  "cell_string (Byte c # cs) = (if c = NUL then Some [] else map_option (Cons c) (cell_string cs))"
| "cell_string _ = None"

definition load_string :: "ptr \<Rightarrow> theap \<Rightarrow> string option" where
  "load_string p h = do { c \<leftarrow> chunks h p; cell_string (tc_data c) }"

section \<open>Lists of children\<close>

text \<open>\<open>_TLIST_ADD\<close> on the list of children of \<open>par\<close>.\<close>

definition child_add :: "ptr \<Rightarrow> ptr \<Rightarrow> theap \<Rightarrow> theap option" where
  "child_add par p h =
     do { c \<leftarrow> chunks h par;
          (case tc_child c of
             None \<Rightarrow>
               do { h1 \<leftarrow> upd par (tc_child_update (\<lambda>_. Some p)) h;
                    upd p (\<lambda>c. c\<lparr>tc_next := None, tc_prev := None\<rparr>) h1 }
           | Some k \<Rightarrow>
               do { h1 \<leftarrow> upd k (tc_prev_update (\<lambda>_. Some p)) h;
                    h2 \<leftarrow> upd p (\<lambda>c. c\<lparr>tc_next := Some k, tc_prev := None\<rparr>) h1;
                    upd par (tc_child_update (\<lambda>_. Some p)) h2 }) }"

text \<open>\<open>_TLIST_REMOVE\<close> on the list of children of \<open>par\<close>.\<close>

definition child_remove :: "ptr \<Rightarrow> ptr \<Rightarrow> theap \<Rightarrow> theap option" where
  "child_remove par p h =
     do { c \<leftarrow> chunks h p;
          pc \<leftarrow> chunks h par;
          h1 \<leftarrow> (if tc_child pc = Some p
                 then do { h1 \<leftarrow> upd par (tc_child_update (\<lambda>_. tc_next c)) h;
                           upd_opt (tc_next c) (tc_prev_update (\<lambda>_. None)) h1 }
                 else do { h1 \<leftarrow> upd_opt (tc_prev c) (tc_next_update (\<lambda>_. tc_next c)) h;
                           upd_opt (tc_next c) (tc_prev_update (\<lambda>_. tc_prev c)) h1 });
          pc1 \<leftarrow> chunks h1 par;
          if tc_child pc1 = Some p then Some h1
          else upd p (\<lambda>c. c\<lparr>tc_next := None, tc_prev := None\<rparr>) h1 }"

text \<open>
  How \<open>_talloc_free\<close> and \<open>__talloc_steal\<close> take a chunk out of the list it is in. Only the first child
  of a list knows its parent.
\<close>

definition detach :: "ptr \<Rightarrow> theap \<Rightarrow> theap option" where
  "detach p h =
     do { c \<leftarrow> chunks h p;
          (case tc_parent c of
             Some par \<Rightarrow>
               do { h1 \<leftarrow> child_remove par p h;
                    pc \<leftarrow> chunks h1 par;
                    upd_opt (tc_child pc) (tc_parent_update (\<lambda>_. Some par)) h1 }
           | None \<Rightarrow>
               do { h1 \<leftarrow> upd_opt (tc_prev c) (tc_next_update (\<lambda>_. tc_next c)) h;
                    upd_opt (tc_next c) (tc_prev_update (\<lambda>_. tc_prev c)) h1 }) }"

section \<open>Parents\<close>

partial_function (option) first_sibling :: "theap \<Rightarrow> ptr \<Rightarrow> ptr option" where
  "first_sibling h p =
     do { c \<leftarrow> chunks h p;
          (case tc_prev c of None \<Rightarrow> Some p | Some q \<Rightarrow> first_sibling h q) }"

definition talloc_parent_chunk :: "ptr option \<Rightarrow> theap \<Rightarrow> ptr option option" where
  "talloc_parent_chunk ptr h =
     (case ptr of
        None \<Rightarrow> Some None
      | Some p \<Rightarrow>
          do { _ \<leftarrow> talloc_chunk_from_ptr p h;
               r \<leftarrow> first_sibling h p;
               c \<leftarrow> chunks h r;
               Some (tc_parent c) })"

definition talloc_parent :: "ptr option \<Rightarrow> theap \<Rightarrow> ptr option option" where
  "talloc_parent ptr h = talloc_parent_chunk ptr h"

partial_function (option) is_parent_loop :: "theap \<Rightarrow> ptr \<Rightarrow> ptr \<Rightarrow> bool option" where
  "is_parent_loop h tc ptr =
     (if tc = ptr then Some True
      else do { r \<leftarrow> first_sibling h tc;
                c \<leftarrow> chunks h r;
                (case tc_parent c of None \<Rightarrow> Some False | Some q \<Rightarrow> is_parent_loop h q ptr) })"

definition talloc_is_parent :: "ptr option \<Rightarrow> ptr \<Rightarrow> theap \<Rightarrow> bool option" where
  "talloc_is_parent ctx ptr h =
     (case ctx of
        None \<Rightarrow> Some False
      | Some p \<Rightarrow> do { _ \<leftarrow> talloc_chunk_from_ptr p h; is_parent_loop h p ptr })"

section \<open>Allocation\<close>

definition new_chunk :: "nat \<Rightarrow> bool \<Rightarrow> ptr option \<Rightarrow> ptr option \<Rightarrow> chunk" where
  "new_chunk sz external parent next =
     \<lparr>tc_next = next, tc_prev = None, tc_parent = parent, tc_child = None, tc_refs = None,
      tc_destructor = Destr_none, tc_name = Name_null, tc_size = sz,
      tc_flags = (if external then TALLOC_MAGIC OR TALLOC_FLAG_EXT_ALLOC else TALLOC_MAGIC),
      tc_data = replicate sz Undef\<rparr>"

definition init_talloc :: "ptr option \<Rightarrow> ptr option \<Rightarrow> nat \<Rightarrow> bool \<Rightarrow> theap \<Rightarrow> (ptr option \<times> theap) option" where
  "init_talloc parent tc sz external h =
     (case tc of
        None \<Rightarrow> Some (None, h)
      | Some p \<Rightarrow>
          (case parent of
             Some q \<Rightarrow>
               do { pc \<leftarrow> chunks h q;
                    h1 \<leftarrow> upd_opt (tc_child pc) (\<lambda>c. c\<lparr>tc_parent := None, tc_prev := Some p\<rparr>) h;
                    h2 \<leftarrow> upd q (tc_child_update (\<lambda>_. Some p)) h1;
                    Some (Some p, h2\<lparr>chunks := (chunks h2)(p \<mapsto> new_chunk sz external (Some q) (tc_child pc))\<rparr>) }
           | None \<Rightarrow> Some (Some p, h\<lparr>chunks := (chunks h)(p \<mapsto> new_chunk sz external None None)\<rparr>)))"

definition talloc_alloc :: "tenv \<Rightarrow> ptr option \<Rightarrow> nat \<Rightarrow> theap \<Rightarrow> (ptr option \<times> theap) option" where
  "talloc_alloc env ctx sz h =
     (let context = (case ctx of None \<Rightarrow> null_context h | Some p \<Rightarrow> Some p)
      in if sz \<ge> MAX_TALLOC_SIZE then Some (None, h)
         else do { external \<leftarrow> (case context of
                                None \<Rightarrow> Some False
                              | Some p \<Rightarrow> map_option (has_flag TALLOC_FLAG_EXT_ALLOC) (talloc_chunk_from_ptr p h));
                   init_talloc context
                     (if external then t_external env context None sz h else t_malloc env sz h) sz external h })"

text \<open>
  A block below which all blocks come from the program's own allocator. (The library aborts when a
  second allocator is registered, so there is one.) Without a context the block has no parent.
\<close>

definition talloc_add_external :: "tenv \<Rightarrow> ptr option \<Rightarrow> theap \<Rightarrow> (ptr option \<times> theap) option" where
  "talloc_add_external env ctx h =
     do { context \<leftarrow> (case ctx of
                       None \<Rightarrow> Some (null_context h)
                     | Some p \<Rightarrow> map_option (\<lambda>_. Some p) (talloc_chunk_from_ptr p h));
          init_talloc ctx (t_external env context None 0 h) 0 True h }"

definition talloc_set_name_const :: "ptr \<Rightarrow> tname \<Rightarrow> theap \<Rightarrow> theap option" where
  "talloc_set_name_const ptr name h =
     do { _ \<leftarrow> talloc_chunk_from_ptr ptr h; upd ptr (tc_name_update (\<lambda>_. name)) h }"

definition talloc_named_const ::
  "tenv \<Rightarrow> ptr option \<Rightarrow> nat \<Rightarrow> tname \<Rightarrow> theap \<Rightarrow> (ptr option \<times> theap) option" where
  "talloc_named_const env ctx sz name h =
     do { (r, h1) \<leftarrow> talloc_alloc env ctx sz h;
          (case r of
             None \<Rightarrow> Some (None, h1)
           | Some p \<Rightarrow> do { h2 \<leftarrow> talloc_set_name_const p name h1; Some (Some p, h2) }) }"

definition talloc_set_destructor :: "ptr \<Rightarrow> destructor \<Rightarrow> theap \<Rightarrow> theap option" where
  "talloc_set_destructor ptr d h =
     do { _ \<leftarrow> talloc_chunk_from_ptr ptr h; upd ptr (tc_destructor_update (\<lambda>_. d)) h }"

text \<open>The functions other files call, which take the lock around the ones above.\<close>

definition talloc_fn :: "tenv \<Rightarrow> ptr option \<Rightarrow> nat \<Rightarrow> theap \<Rightarrow> (ptr option \<times> theap) option" where
  "talloc_fn env ctx sz h = talloc_alloc env ctx sz h"

definition talloc_get_size :: "ptr option \<Rightarrow> theap \<Rightarrow> nat option" where
  "talloc_get_size ctx h =
     (case ctx of None \<Rightarrow> Some 0 | Some p \<Rightarrow> map_option tc_size (talloc_chunk_from_ptr p h))"

section \<open>Names\<close>

text \<open>The text of a name that is not null; a name in a block is read there.\<close>

definition name_text :: "tname \<Rightarrow> theap \<Rightarrow> string option" where
  "name_text n h =
     (case n of Name_const s \<Rightarrow> Some s | Name_at p \<Rightarrow> load_string p h | _ \<Rightarrow> None)"

definition talloc_get_name :: "ptr \<Rightarrow> theap \<Rightarrow> string option" where
  "talloc_get_name ptr h =
     do { c \<leftarrow> talloc_chunk_from_ptr ptr h;
          (case tc_name c of
             Name_ref \<Rightarrow> Some ''.reference''
           | Name_null \<Rightarrow> Some ''UNNAMED''
           | n \<Rightarrow> name_text n h) }"

definition talloc_check_name :: "ptr option \<Rightarrow> string \<Rightarrow> theap \<Rightarrow> ptr option option" where
  "talloc_check_name ptr name h =
     (case ptr of
        None \<Rightarrow> Some None
      | Some p \<Rightarrow> do { n \<leftarrow> talloc_get_name p h; Some (if n = name then Some p else None) })"

definition talloc_parent_name :: "ptr option \<Rightarrow> theap \<Rightarrow> tname option" where
  "talloc_parent_name ptr h =
     do { r \<leftarrow> talloc_parent_chunk ptr h;
          (case r of None \<Rightarrow> Some Name_null | Some p \<Rightarrow> map_option tc_name (chunks h p)) }"

text \<open>The comparison reads a null name and the mark of a reference differently: the mark is not a string.\<close>

partial_function (option) find_parent_loop :: "theap \<Rightarrow> string \<Rightarrow> ptr \<Rightarrow> ptr option option" where
  "find_parent_loop h name tc =
     do { c \<leftarrow> chunks h tc;
          same \<leftarrow> (if tc_name c = Name_null then Some False
                   else map_option (\<lambda>t. t = name) (name_text (tc_name c) h));
          if same then Some (Some tc)
          else do { r \<leftarrow> first_sibling h tc;
                    d \<leftarrow> chunks h r;
                    (case tc_parent d of None \<Rightarrow> Some None | Some q \<Rightarrow> find_parent_loop h name q) } }"

definition talloc_find_parent_byname :: "ptr option \<Rightarrow> string \<Rightarrow> theap \<Rightarrow> ptr option option" where
  "talloc_find_parent_byname ctx name h =
     (case ctx of
        None \<Rightarrow> Some None
      | Some p \<Rightarrow> do { _ \<leftarrow> talloc_chunk_from_ptr p h; find_parent_loop h name p })"

section \<open>References\<close>

text \<open>A reference is a block that holds the structure \<open>talloc_reference_handle\<close>.\<close>

definition HANDLE_SIZE :: nat where "HANDLE_SIZE = 24"

definition handle_next :: "ptr \<Rightarrow> theap \<Rightarrow> ptr option option" where
  "handle_next r h = load_ptr r 0 h"

definition handle_prev :: "ptr \<Rightarrow> theap \<Rightarrow> ptr option option" where
  "handle_prev r h = load_ptr r 8 h"

definition handle_ptr :: "ptr \<Rightarrow> theap \<Rightarrow> ptr option option" where
  "handle_ptr r h = load_ptr r 16 h"

definition set_handle_next :: "ptr option \<Rightarrow> ptr option \<Rightarrow> theap \<Rightarrow> theap option" where
  "set_handle_next r q h = (case r of None \<Rightarrow> Some h | Some r \<Rightarrow> store_ptr r 0 q h)"

definition set_handle_prev :: "ptr option \<Rightarrow> ptr option \<Rightarrow> theap \<Rightarrow> theap option" where
  "set_handle_prev r q h = (case r of None \<Rightarrow> Some h | Some r \<Rightarrow> store_ptr r 8 q h)"

text \<open>\<open>_TLIST_ADD\<close> and \<open>_TLIST_REMOVE\<close> on the references to \<open>p\<close>.\<close>

definition refs_add :: "ptr \<Rightarrow> ptr \<Rightarrow> theap \<Rightarrow> theap option" where
  "refs_add p r h =
     do { c \<leftarrow> chunks h p;
          h1 \<leftarrow> set_handle_prev (tc_refs c) (Some r) h;
          h2 \<leftarrow> set_handle_next (Some r) (tc_refs c) h1;
          h3 \<leftarrow> set_handle_prev (Some r) None h2;
          upd p (tc_refs_update (\<lambda>_. Some r)) h3 }"

definition refs_remove :: "ptr \<Rightarrow> ptr \<Rightarrow> theap \<Rightarrow> theap option" where
  "refs_remove p r h =
     do { c \<leftarrow> chunks h p;
          next \<leftarrow> handle_next r h;
          h1 \<leftarrow> (if tc_refs c = Some r
                 then do { h1 \<leftarrow> upd p (tc_refs_update (\<lambda>_. next)) h;
                           set_handle_prev next None h1 }
                 else do { prev \<leftarrow> handle_prev r h;
                           h1 \<leftarrow> set_handle_next prev next h;
                           set_handle_prev next prev h1 });
          c1 \<leftarrow> chunks h1 p;
          if tc_refs c1 = Some r then Some h1
          else do { h2 \<leftarrow> set_handle_next (Some r) None h1; set_handle_prev (Some r) None h2 } }"

definition talloc_reference_destructor :: "ptr \<Rightarrow> theap \<Rightarrow> (int \<times> theap) option" where
  "talloc_reference_destructor r h =
     do { q \<leftarrow> handle_ptr r h;
          p \<leftarrow> q;
          _ \<leftarrow> talloc_chunk_from_ptr p h;
          h1 \<leftarrow> refs_remove p r h;
          Some (0, h1) }"

definition talloc_reference ::
  "tenv \<Rightarrow> ptr option \<Rightarrow> ptr option \<Rightarrow> theap \<Rightarrow> (ptr option \<times> theap) option" where
  "talloc_reference env ctx ptr h =
     (case ptr of
        None \<Rightarrow> Some (None, h)
      | Some p \<Rightarrow>
          do { _ \<leftarrow> talloc_chunk_from_ptr p h;
               (r, h1) \<leftarrow> talloc_named_const env ctx HANDLE_SIZE Name_ref h;
               (case r of
                  None \<Rightarrow> Some (None, h1)
                | Some r \<Rightarrow>
                    do { h2 \<leftarrow> talloc_set_destructor r Destr_ref h1;
                         h3 \<leftarrow> store_ptr r 16 (Some p) h2;
                         h4 \<leftarrow> refs_add p r h3;
                         q \<leftarrow> handle_ptr r h4;
                         Some (q, h4) }) })"

definition talloc_increase_ref_count :: "tenv \<Rightarrow> ptr option \<Rightarrow> theap \<Rightarrow> (int \<times> theap) option" where
  "talloc_increase_ref_count env ptr h =
     do { (r, h1) \<leftarrow> talloc_reference env (null_context h) ptr h;
          Some (if r = None then -1 else 0, h1) }"

partial_function (option) ref_count_loop :: "theap \<Rightarrow> ptr option \<Rightarrow> nat \<Rightarrow> nat option" where
  "ref_count_loop h r n =
     (case r of None \<Rightarrow> Some n | Some r \<Rightarrow> do { q \<leftarrow> handle_next r h; ref_count_loop h q (n + 1) })"

definition talloc_reference_count :: "ptr \<Rightarrow> theap \<Rightarrow> nat option" where
  "talloc_reference_count ptr h =
     do { c \<leftarrow> talloc_chunk_from_ptr ptr h; ref_count_loop h (tc_refs c) 0 }"

section \<open>Moving a block\<close>

text \<open>\<open>__talloc_steal\<close>.\<close>

definition talloc_steal :: "ptr option \<Rightarrow> ptr option \<Rightarrow> theap \<Rightarrow> (ptr option \<times> theap) option" where
  "talloc_steal new_ctx ptr h =
     (case ptr of
        None \<Rightarrow> Some (None, h)
      | Some p \<Rightarrow>
          (let ctx = (case new_ctx of None \<Rightarrow> null_context h | Some q \<Rightarrow> Some q) in
           do { tc \<leftarrow> talloc_chunk_from_ptr p h;
                (case ctx of
                   None \<Rightarrow>
                     do { h1 \<leftarrow> detach p h;
                          h2 \<leftarrow> upd p (\<lambda>c. c\<lparr>tc_parent := None, tc_next := None, tc_prev := None\<rparr>) h1;
                          Some (Some p, h2) }
                 | Some n \<Rightarrow>
                     do { _ \<leftarrow> talloc_chunk_from_ptr n h;
                          if p = n \<or> tc_parent tc = Some n then Some (Some p, h)
                          else do { h1 \<leftarrow> detach p h;
                                    h2 \<leftarrow> upd p (tc_parent_update (\<lambda>_. Some n)) h1;
                                    nc \<leftarrow> chunks h2 n;
                                    h3 \<leftarrow> upd_opt (tc_child nc) (tc_parent_update (\<lambda>_. None)) h2;
                                    h4 \<leftarrow> child_add n p h3;
                                    Some (Some p, h4) } }) }))"

text \<open>The caller's pointer is the first component; it becomes null.\<close>

definition talloc_move ::
  "ptr option \<Rightarrow> ptr option \<Rightarrow> theap \<Rightarrow> (ptr option \<times> ptr option \<times> theap) option" where
  "talloc_move new_ctx pptr h =
     do { (ret, h1) \<leftarrow> talloc_steal new_ctx pptr h; Some (None, ret, h1) }"

end
