(* ===== verification/TallocOps.thy ===== *)
theory TallocOps
  imports Talloc
begin

text \<open>
  The operations of src/talloc.c that free, resize and measure blocks, and the ones built on
  them: \<open>talloc_free\<close> with destructors and references, \<open>talloc_unlink\<close>, \<open>talloc_realloc\<close>,
  the totals and the report of a hierarchy, tracking of blocks without a parent, strings and
  arrays.

  Functions of C that call each other recursively are one function over a type of jobs here.
\<close>

section \<open>Freeing\<close>

text \<open>The functions a destructor may be; a user's may do to the heap what it likes.\<close>

definition run_destructor :: "tenv \<Rightarrow> destructor \<Rightarrow> ptr \<Rightarrow> theap \<Rightarrow> (int \<times> theap) option" where
  "run_destructor env d p h =
     (case d of
        Destr_ref \<Rightarrow> talloc_reference_destructor p h
      | Destr_autofree \<Rightarrow> Some (0, h\<lparr>autofree_context := None\<rparr>)
      | Destr_user n \<Rightarrow> Some (t_destructor env n p h)
      | _ \<Rightarrow> None)"

text \<open>The block is marked while its destructor runs, so that a second free in it is refused.\<close>

definition destroy :: "tenv \<Rightarrow> ptr \<Rightarrow> theap \<Rightarrow> (int \<times> theap) option" where
  "destroy env p h =
     do { c \<leftarrow> chunks h p;
          (case tc_destructor c of
             Destr_none \<Rightarrow> Some (0, h)
           | Destr_busy \<Rightarrow> Some (-1, h)
           | d \<Rightarrow>
               do { h1 \<leftarrow> upd p (tc_destructor_update (\<lambda>_. Destr_busy)) h;
                    (r, h2) \<leftarrow> run_destructor env d p h1;
                    if r = -1 then do { h3 \<leftarrow> upd p (tc_destructor_update (\<lambda>_. d)) h2; Some (-1, h3) }
                    else do { h3 \<leftarrow> upd p (tc_destructor_update (\<lambda>_. Destr_none)) h2; Some (0, h3) } }) }"

text \<open>\<open>free\<close>, or the external allocator asked for size 0: the flag the code sets just before goes with the chunk.\<close>

definition release :: "ptr \<Rightarrow> theap \<Rightarrow> theap option" where
  "release p h = do { _ \<leftarrow> chunks h p; Some (h\<lparr>chunks := (chunks h)(p := None)\<rparr>) }"

text \<open>Who gets a child that cannot be freed.\<close>

definition adopter :: "ptr \<Rightarrow> theap \<Rightarrow> ptr option option" where
  "adopter k h =
     do { c \<leftarrow> chunks h k;
          (case tc_refs c of
             None \<Rightarrow> Some (null_context h)
           | Some r \<Rightarrow>
               do { q \<leftarrow> talloc_parent_chunk (Some r) h;
                    Some (case q of None \<Rightarrow> null_context h | Some q \<Rightarrow> Some q) }) }"

definition adopt :: "ptr option \<Rightarrow> ptr \<Rightarrow> ptr \<Rightarrow> theap \<Rightarrow> theap option" where
  "adopt new_parent p k h =
     do { np \<leftarrow> (if new_parent = null_context h
                 then do { q \<leftarrow> talloc_parent_chunk (Some p) h;
                           Some (case q of None \<Rightarrow> new_parent | Some q \<Rightarrow> Some q) }
                 else Some new_parent);
          (_, h1) \<leftarrow> talloc_steal np (Some k) h;
          Some h1 }"

text \<open>\<open>_talloc_free\<close> on a pointer that is not null, and its loop over the children.\<close>

datatype free_job = Free ptr | Children ptr

partial_function (option) free_run :: "tenv \<Rightarrow> free_job \<Rightarrow> theap \<Rightarrow> (int \<times> theap) option" where
  "free_run env job h =
     (case job of
        Free p \<Rightarrow>
          do { c \<leftarrow> talloc_chunk_from_ptr p h;
               (case tc_refs c of
                  Some r \<Rightarrow>
                    do { is_child \<leftarrow> talloc_is_parent (Some r) p h;
                         (_, h1) \<leftarrow> free_run env (Free r) h;
                         if is_child then free_run env (Free p) h1 else Some (-1, h1) }
                | None \<Rightarrow>
                    if has_flag TALLOC_FLAG_LOOP c then Some (0, h)
                    else do { (r, h1) \<leftarrow> destroy env p h;
                              if r = -1 then Some (-1, h1)
                              else do { c1 \<leftarrow> chunks h1 p;
                                        oldparent \<leftarrow> (if has_flag TALLOC_FLAG_EXT_ALLOC c1
                                                     then relock env (talloc_parent (Some p) h1) else Some None);
                                        h2 \<leftarrow> detach p h1;
                                        h3 \<leftarrow> upd p (set_flag TALLOC_FLAG_LOOP) h2;
                                        (_, h4) \<leftarrow> free_run env (Children p) h3;
                                        h5 \<leftarrow> release p h4;
                                        Some (0, h5) } }) }
      | Children p \<Rightarrow>
          do { c \<leftarrow> chunks h p;
               (case tc_child c of
                  None \<Rightarrow> Some (0, h)
                | Some k \<Rightarrow>
                    do { new_parent \<leftarrow> adopter k h;
                         (r, h1) \<leftarrow> free_run env (Free k) h;
                         h2 \<leftarrow> (if r = -1 then adopt new_parent p k h1 else Some h1);
                         free_run env (Children p) h2 }) })"

definition talloc_free :: "tenv \<Rightarrow> ptr option \<Rightarrow> theap \<Rightarrow> (int \<times> theap) option" where
  "talloc_free env ptr h =
     (case ptr of None \<Rightarrow> Some (-1, h) | Some p \<Rightarrow> free_run env (Free p) h)"

partial_function (option) find_reference :: "theap \<Rightarrow> ptr option \<Rightarrow> ptr option \<Rightarrow> ptr option option" where
  "find_reference h ctx r =
     (case r of
        None \<Rightarrow> Some None
      | Some q \<Rightarrow>
          do { p \<leftarrow> talloc_parent_chunk (Some q) h;
               if p = ctx then Some (Some q)
               else do { n \<leftarrow> handle_next q h; find_reference h ctx n } })"

definition talloc_unreference :: "tenv \<Rightarrow> ptr option \<Rightarrow> ptr \<Rightarrow> theap \<Rightarrow> (int \<times> theap) option" where
  "talloc_unreference env ctx ptr h =
     (let context = (case ctx of None \<Rightarrow> null_context h | Some p \<Rightarrow> Some p) in
      do { c \<leftarrow> talloc_chunk_from_ptr ptr h;
           r \<leftarrow> find_reference h context (tc_refs c);
           (case r of None \<Rightarrow> Some (-1, h) | Some q \<Rightarrow> talloc_free env (Some q) h) })"

definition talloc_unlink :: "tenv \<Rightarrow> ptr option \<Rightarrow> ptr option \<Rightarrow> theap \<Rightarrow> (int \<times> theap) option" where
  "talloc_unlink env ctx ptr h =
     (case ptr of
        None \<Rightarrow> Some (-1, h)
      | Some p \<Rightarrow>
          (let context = (case ctx of None \<Rightarrow> null_context h | Some q \<Rightarrow> Some q) in
           do { (r, h1) \<leftarrow> talloc_unreference env context p h;
                if r = 0 then Some (0, h1)
                else do {
                  _ \<leftarrow> (case context of None \<Rightarrow> Some None | Some q \<Rightarrow> map_option Some (talloc_chunk_from_ptr q h1));
                  par \<leftarrow> talloc_parent_chunk (Some p) h1;
                  if par \<noteq> context then Some (-1, h1)
                  else do {
                    tc \<leftarrow> talloc_chunk_from_ptr p h1;
                    (case tc_refs tc of
                       None \<Rightarrow> talloc_free env (Some p) h1
                     | Some q \<Rightarrow>
                         do { new_parent \<leftarrow> talloc_parent_chunk (Some q) h1;
                              (r2, h2) \<leftarrow> talloc_unreference env new_parent p h1;
                              if r2 \<noteq> 0 then Some (-1, h2)
                              else do { (_, h3) \<leftarrow> talloc_steal new_parent (Some p) h2;
                                        Some (0, h3) } }) } } }))"

section \<open>Resizing\<close>

definition resize_cells :: "nat \<Rightarrow> cell list \<Rightarrow> cell list" where
  "resize_cells n d = take n d @ replicate (n - length d) Undef"

text \<open>\<open>realloc\<close>: the block may move, and keeps what fits.\<close>

definition relocate :: "ptr \<Rightarrow> ptr \<Rightarrow> nat \<Rightarrow> theap \<Rightarrow> theap option" where
  "relocate p q sz h =
     do { c \<leftarrow> chunks h p;
          Some (h\<lparr>chunks := (chunks h)(p := None, q \<mapsto> c\<lparr>tc_data := resize_cells sz (tc_data c)\<rparr>)\<rparr>) }"

definition talloc_realloc ::
  "tenv \<Rightarrow> ptr option \<Rightarrow> ptr option \<Rightarrow> nat \<Rightarrow> tname \<Rightarrow> theap \<Rightarrow> (ptr option \<times> theap) option" where
  "talloc_realloc env ctx ptr sz name h =
     (if sz = 0 then do { (_, h1) \<leftarrow> talloc_free env ptr h; Some (None, h1) }
      else if sz \<ge> MAX_TALLOC_SIZE then Some (None, h)
      else (case ptr of
              None \<Rightarrow> talloc_named_const env ctx sz name h
            | Some p \<Rightarrow>
                do { tc \<leftarrow> talloc_chunk_from_ptr p h;
                     if tc_refs tc \<noteq> None then Some (None, h)
                     else do {
                       parent \<leftarrow> (if has_flag TALLOC_FLAG_EXT_ALLOC tc then relock env (talloc_parent (Some p) h)
                                 else Some None);
                       h1 \<leftarrow> upd p (set_flag TALLOC_FLAG_FREE) h;
                       (case (if has_flag TALLOC_FLAG_EXT_ALLOC tc then t_external env parent (Some p) sz h1
                              else t_realloc env p sz h1) of
                          None \<Rightarrow> do { h2 \<leftarrow> upd p (clear_flag TALLOC_FLAG_FREE) h1; Some (None, h2) }
                        | Some q \<Rightarrow>
                            do { h2 \<leftarrow> relocate p q sz h1;
                                 h3 \<leftarrow> upd q (clear_flag TALLOC_FLAG_FREE) h2;
                                 c \<leftarrow> chunks h3 q;
                                 h4 \<leftarrow> upd_opt (tc_parent c) (tc_child_update (\<lambda>_. Some q)) h3;
                                 h5 \<leftarrow> upd_opt (tc_child c) (tc_parent_update (\<lambda>_. Some q)) h4;
                                 h6 \<leftarrow> upd_opt (tc_prev c) (tc_next_update (\<lambda>_. Some q)) h5;
                                 h7 \<leftarrow> upd_opt (tc_next c) (tc_prev_update (\<lambda>_. Some q)) h6;
                                 h8 \<leftarrow> upd q (tc_size_update (\<lambda>_. sz)) h7;
                                 h9 \<leftarrow> talloc_set_name_const q name h8;
                                 Some (Some q, h9) }) } }))"

section \<open>Totals\<close>

text \<open>
  \<open>_talloc_total_size\<close> and \<open>_talloc_total_blocks\<close> differ in what they add for a chunk; a chunk is marked
  while its children are counted. \<open>Siblings\<close> is the loop over the children, \<open>f\<close> what is added.
\<close>

datatype total_job = Block ptr | Siblings "ptr option"

partial_function (option) total_run ::
  "(chunk \<Rightarrow> u64) \<Rightarrow> total_job \<Rightarrow> theap \<Rightarrow> (u64 \<times> theap) option" where
  "total_run f job h =
     (case job of
        Block p \<Rightarrow>
          do { tc \<leftarrow> talloc_chunk_from_ptr p h;
               if has_flag TALLOC_FLAG_LOOP tc then Some (0, h)
               else do { h1 \<leftarrow> upd p (set_flag TALLOC_FLAG_LOOP) h;
                         (t, h2) \<leftarrow> total_run f (Siblings (tc_child tc)) h1;
                         h3 \<leftarrow> upd p (clear_flag TALLOC_FLAG_LOOP) h2;
                         Some (f tc + t, h3) } }
      | Siblings q \<Rightarrow>
          (case q of
             None \<Rightarrow> Some (0, h)
           | Some c \<Rightarrow>
               do { (t, h1) \<leftarrow> total_run f (Block c) h;
                    cc \<leftarrow> chunks h1 c;
                    (t', h2) \<leftarrow> total_run f (Siblings (tc_next cc)) h1;
                    Some (t + t', h2) }))"

definition talloc_total_size_run :: "ptr \<Rightarrow> theap \<Rightarrow> (u64 \<times> theap) option" where
  "talloc_total_size_run p h = total_run (\<lambda>c. of_nat (tc_size c)) (Block p) h"

definition talloc_total_size :: "ptr option \<Rightarrow> theap \<Rightarrow> (u64 \<times> theap) option" where
  "talloc_total_size ptr h =
     (case (case ptr of None \<Rightarrow> null_context h | Some p \<Rightarrow> Some p) of
        None \<Rightarrow> Some (0, h)
      | Some p \<Rightarrow> talloc_total_size_run p h)"

definition talloc_total_blocks :: "ptr \<Rightarrow> theap \<Rightarrow> (u64 \<times> theap) option" where
  "talloc_total_blocks p h = total_run (\<lambda>c. 1) (Block p) h"

section \<open>Reports\<close>

text \<open>
  \<open>_talloc_report_depth_cb\<close> with the callback \<open>cb\<close>, which gets a block, its depth, the depth of the
  report, and whether the block is referenced there, and changes its own data and the heap.
  \<open>Reports\<close> is the loop over the children of a chunk.
\<close>

datatype report_job = Report ptr int | Reports "ptr option" int

type_synonym 'a report_cb = "ptr option \<Rightarrow> int \<Rightarrow> int \<Rightarrow> bool \<Rightarrow> 'a \<Rightarrow> theap \<Rightarrow> ('a \<times> theap) option"

partial_function (option) report_run ::
  "'a report_cb \<Rightarrow> int \<Rightarrow> report_job \<Rightarrow> 'a \<Rightarrow> theap \<Rightarrow> ('a \<times> theap) option" where
  "report_run cb max_depth job a h =
     (case job of
        Report p depth \<Rightarrow>
          do { tc \<leftarrow> talloc_chunk_from_ptr p h;
               if has_flag TALLOC_FLAG_LOOP tc then Some (a, h)
               else do {
                 (a1, h1) \<leftarrow> cb (Some p) depth max_depth False a h;
                 if max_depth \<ge> 0 \<and> depth \<ge> max_depth then Some (a1, h1)
                 else do { h2 \<leftarrow> upd p (set_flag TALLOC_FLAG_LOOP) h1;
                           tc1 \<leftarrow> chunks h2 p;
                           (a2, h3) \<leftarrow> report_run cb max_depth (Reports (tc_child tc1) (depth + 1)) a1 h2;
                           h4 \<leftarrow> upd p (clear_flag TALLOC_FLAG_LOOP) h3;
                           Some (a2, h4) } } }
      | Reports q depth \<Rightarrow>
          (case q of
             None \<Rightarrow> Some (a, h)
           | Some k \<Rightarrow>
               do { c \<leftarrow> chunks h k;
                    (a1, h1) \<leftarrow> (if tc_name c = Name_ref
                                then do { r \<leftarrow> handle_ptr k h; cb r depth max_depth True a h }
                                else report_run cb max_depth (Report k depth) a h);
                    c1 \<leftarrow> chunks h1 k;
                    report_run cb max_depth (Reports (tc_next c1) depth) a1 h1 }))"

definition talloc_report_depth_cb ::
  "'a report_cb \<Rightarrow> ptr option \<Rightarrow> int \<Rightarrow> int \<Rightarrow> 'a \<Rightarrow> theap \<Rightarrow> ('a \<times> theap) option" where
  "talloc_report_depth_cb cb ptr depth max_depth a h =
     (case (case ptr of None \<Rightarrow> null_context h | Some p \<Rightarrow> Some p) of
        None \<Rightarrow> Some (a, h)
      | Some p \<Rightarrow> report_run cb max_depth (Report p depth) a h)"

text \<open>
  The callback that prints. Its data is the text written to the file so far; \<open>show_ptr\<close> is what \<open>%p\<close>
  prints, which the C library decides. It runs under the lock of the report, and the totals and the number
  of references it asks for take the lock.
\<close>

definition talloc_report_depth_FILE_helper :: "tenv \<Rightarrow> (ptr \<Rightarrow> string) \<Rightarrow> string report_cb" where
  "talloc_report_depth_FILE_helper env show_ptr ptr depth max_depth is_ref f h =
     do { p \<leftarrow> ptr;
          name \<leftarrow> talloc_get_name p h;
          if is_ref
          then Some (f @ pad_str (depth * 4) '''' @ ''reference to: '' @ name @ [newline], h)
          else do {
            (size, h1) \<leftarrow> relock env (talloc_total_size ptr h);
            (num, h2) \<leftarrow> relock env (talloc_total_blocks p h1);
            let amount = pad_str 6 (show_nat (unat size)) @ '' bytes in '' @ pad_str 3 (show_nat (unat num)) @ '' blocks'' in
            if depth = 0
            then Some (f @ (if max_depth < 0 then ''full '' else '''') @ ''talloc report on '' @ [CHR 0x27] @ name @
                       [CHR 0x27] @ '' (total '' @ amount @ '')'' @ [newline], h2)
            else do { refs \<leftarrow> relock env (talloc_reference_count p h2);
                      Some (f @ pad_str (depth * 4) '''' @ pad_str (- 30) name @ '' contains '' @ amount @
                            '' (ref '' @ show_nat refs @ '') '' @ show_ptr p @ [newline], h2) } } }"

definition talloc_report_depth_file ::
  "tenv \<Rightarrow> (ptr \<Rightarrow> string) \<Rightarrow> ptr option \<Rightarrow> int \<Rightarrow> int \<Rightarrow> string \<Rightarrow> theap \<Rightarrow> (string \<times> theap) option" where
  "talloc_report_depth_file env show_ptr ptr depth max_depth f h =
     talloc_report_depth_cb (talloc_report_depth_FILE_helper env show_ptr) ptr depth max_depth f h"

definition talloc_report_full :: "tenv \<Rightarrow> (ptr \<Rightarrow> string) \<Rightarrow> ptr option \<Rightarrow> string \<Rightarrow> theap \<Rightarrow> (string \<times> theap) option" where
  "talloc_report_full env show_ptr ptr f h = talloc_report_depth_file env show_ptr ptr 0 (- 1) f h"

definition talloc_report :: "tenv \<Rightarrow> (ptr \<Rightarrow> string) \<Rightarrow> ptr option \<Rightarrow> string \<Rightarrow> theap \<Rightarrow> (string \<times> theap) option" where
  "talloc_report env show_ptr ptr f h = talloc_report_depth_file env show_ptr ptr 0 1 f h"

text \<open>What \<open>talloc_enable_leak_report\<close> and its full variant run at the end of the program; \<open>f\<close> is stderr.\<close>

definition talloc_report_null :: "tenv \<Rightarrow> (ptr \<Rightarrow> string) \<Rightarrow> string \<Rightarrow> theap \<Rightarrow> (string \<times> theap) option" where
  "talloc_report_null env show_ptr f h =
     do { (n, h1) \<leftarrow> talloc_total_size (null_context h) h;
          if n \<noteq> 0 then talloc_report env show_ptr (null_context h1) f h1 else Some (f, h1) }"

definition talloc_report_null_full :: "tenv \<Rightarrow> (ptr \<Rightarrow> string) \<Rightarrow> string \<Rightarrow> theap \<Rightarrow> (string \<times> theap) option" where
  "talloc_report_null_full env show_ptr f h =
     do { (n, h1) \<leftarrow> talloc_total_size (null_context h) h;
          if n \<noteq> 0 then talloc_report_full env show_ptr (null_context h1) f h1 else Some (f, h1) }"

text \<open>The names from a block up to the root, one to a line.\<close>

partial_function (option) show_parents_loop :: "theap \<Rightarrow> ptr \<Rightarrow> string \<Rightarrow> string option" where
  "show_parents_loop h tc f =
     do { n \<leftarrow> talloc_get_name tc h;
          let f1 = f @ [CHR 0x09, CHR 0x27] @ n @ [CHR 0x27, newline];
          r \<leftarrow> first_sibling h tc;
          c \<leftarrow> chunks h r;
          (case tc_parent c of None \<Rightarrow> Some f1 | Some q \<Rightarrow> show_parents_loop h q f1) }"

definition talloc_show_parents :: "ptr option \<Rightarrow> string \<Rightarrow> theap \<Rightarrow> string option" where
  "talloc_show_parents ctx f h =
     (case ctx of
        None \<Rightarrow> Some (f @ ''talloc no parents for NULL'' @ [newline])
      | Some p \<Rightarrow>
          do { _ \<leftarrow> talloc_chunk_from_ptr p h;
               n \<leftarrow> talloc_get_name p h;
               show_parents_loop h p (f @ ''talloc parents of '' @ [CHR 0x27] @ n @ [CHR 0x27, newline]) })"

end
