(* ===== verification/TallocTree.thy ===== *)
theory TallocTree
  imports TallocOps
begin

unbundle bit_operations_syntax

text \<open>
  What the links of the chunks stand for: a tree of blocks. \<open>hierarchy h t\<close> says that the heap
  \<open>h\<close> holds the tree \<open>t\<close>. Freeing a block takes its subtree out of the tree and gives back exactly
  the memory of the subtree; the totals add up the tree and leave the heap as it was.

  The trees here have no references and no destructors, which is what a program that only
  allocates and frees builds.
\<close>

section \<open>Trees of blocks\<close>

datatype hier = Hier ptr "hier list"

text \<open>The blocks of some trees, parents before their children.\<close>

fun blocks :: "hier list \<Rightarrow> ptr list" where
  "blocks [] = []"
| "blocks (Hier p us # ts) = p # blocks us @ blocks ts"

definition plain :: "chunk \<Rightarrow> bool" where
  "plain c \<longleftrightarrow> tc_flags c = TALLOC_MAGIC \<and> tc_refs c = None \<and> tc_destructor c = Destr_none"

text \<open>
  \<open>kids h par prev ts q\<close>: the list of siblings that starts at \<open>q\<close>, after \<open>prev\<close>, under the block \<open>par\<close>,
  is the list of trees \<open>ts\<close>.
\<close>

fun kids :: "theap \<Rightarrow> ptr \<Rightarrow> ptr option \<Rightarrow> hier list \<Rightarrow> ptr option \<Rightarrow> bool" where
  "kids h par prev [] q \<longleftrightarrow> q = None"
| "kids h par prev (Hier p us # ts) q \<longleftrightarrow> q = Some p \<and>
     (case chunks h p of
        None \<Rightarrow> False
      | Some c \<Rightarrow> plain c \<and> tc_prev c = prev \<and> tc_parent c = (if prev = None then Some par else None) \<and>
                  kids h p None us (tc_child c) \<and> kids h par (Some p) ts (tc_next c))"

lemma kids_Cons:
  "kids h par prev (Hier p us # ts) q \<longleftrightarrow> q = Some p \<and>
     (\<exists>c. chunks h p = Some c \<and> plain c \<and> tc_prev c = prev \<and>
          tc_parent c = (if prev = None then Some par else None) \<and>
          kids h p None us (tc_child c) \<and> kids h par (Some p) ts (tc_next c))"
  by (cases "chunks h p") auto

declare kids.simps(2) [simp del]

definition hierarchy :: "theap \<Rightarrow> hier \<Rightarrow> bool" where
  "hierarchy h t \<longleftrightarrow>
     (case t of Hier r ts \<Rightarrow> distinct (r # blocks ts) \<and>
        (case chunks h r of
           None \<Rightarrow> False
         | Some c \<Rightarrow> plain c \<and> tc_prev c = None \<and> tc_next c = None \<and> tc_parent c = None \<and>
                     kids h r None ts (tc_child c)))"

lemma hierarchy_iff:
  "hierarchy h (Hier r ts) \<longleftrightarrow> distinct (r # blocks ts) \<and>
     (\<exists>c. chunks h r = Some c \<and> plain c \<and> tc_prev c = None \<and> tc_next c = None \<and>
          tc_parent c = None \<and> kids h r None ts (tc_child c))"
  by (cases "chunks h r") (auto simp: hierarchy_def)

text \<open>Taking the tree of a block out of its place, and the blocks of that tree.\<close>

fun prune :: "ptr \<Rightarrow> hier list \<Rightarrow> hier list" where
  "prune p [] = []"
| "prune p (Hier q us # ts) = (if q = p then ts else Hier q (prune p us) # prune p ts)"

fun subtree :: "ptr \<Rightarrow> hier list \<Rightarrow> ptr list" where
  "subtree p [] = []"
| "subtree p (Hier q us # ts) = (if q = p then q # blocks us else subtree p us @ subtree p ts)"

lemma prune_other: "p \<notin> set (blocks ts) \<Longrightarrow> prune p ts = ts"
  by (induction ts rule: blocks.induct) auto

lemma subtree_other: "p \<notin> set (blocks ts) \<Longrightarrow> subtree p ts = []"
  by (induction ts rule: blocks.induct) auto

lemma subtree_subset: "set (subtree p ts) \<subseteq> set (blocks ts)"
  by (induction ts rule: blocks.induct) auto

lemma blocks_prune: "set (blocks (prune p ts)) \<subseteq> set (blocks ts)"
  by (induction ts rule: blocks.induct) auto

lemma distinct_prune: "distinct (blocks ts) \<Longrightarrow> distinct (blocks (prune p ts))"
proof (induction ts rule: blocks.induct)
  case (2 q us ts)
  then show ?case using blocks_prune [of p us] blocks_prune [of p ts] by fastforce
qed simp

section \<open>Lists of siblings\<close>

lemma kids_frame:
  "(\<And>x. x \<in> set (blocks ts) \<Longrightarrow> chunks h' x = chunks h x) \<Longrightarrow> kids h par prev ts q \<Longrightarrow> kids h' par prev ts q"
proof (induction ts arbitrary: par prev q rule: blocks.induct)
  case (2 p us ts)
  from "2.prems"(2) obtain c where c: "q = Some p" "chunks h p = Some c" "plain c" "tc_prev c = prev"
      "tc_parent c = (if prev = None then Some par else None)"
      "kids h p None us (tc_child c)" "kids h par (Some p) ts (tc_next c)"
    unfolding kids_Cons by blast
  have "kids h' p None us (tc_child c)" "kids h' par (Some p) ts (tc_next c)"
    using "2.IH" "2.prems"(1) c(6,7) by auto
  moreover have "chunks h' p = Some c" using "2.prems"(1) [of p] c(2) by simp
  ultimately show ?case using c unfolding kids_Cons by blast
qed simp

lemma kids_allocated: "kids h par prev ts q \<Longrightarrow> x \<in> set (blocks ts) \<Longrightarrow> chunks h x \<noteq> None"
proof (induction ts arbitrary: par prev q rule: blocks.induct)
  case (2 p us ts)
  then show ?case unfolding kids_Cons by auto
qed simp

text \<open>The first sibling gets another place before it.\<close>

definition rehead :: "ptr \<Rightarrow> ptr option \<Rightarrow> chunk \<Rightarrow> chunk" where
  "rehead par prev c = c\<lparr>tc_prev := prev, tc_parent := (if prev = None then Some par else None)\<rparr>"

lemma rehead_simps [simp]:
  "plain (rehead par prev c) = plain c" "tc_prev (rehead par prev c) = prev"
  "tc_parent (rehead par prev c) = (if prev = None then Some par else None)"
  "tc_child (rehead par prev c) = tc_child c" "tc_next (rehead par prev c) = tc_next c"
  by (simp_all add: rehead_def plain_def)

lemma kids_rehead:
  assumes "kids h par prev0 ts q" "distinct (blocks ts)"
    and "\<And>x. x \<in> set (blocks ts) \<Longrightarrow> Some x \<noteq> q \<Longrightarrow> chunks h' x = chunks h x"
    and "\<And>x c. q = Some x \<Longrightarrow> chunks h x = Some c \<Longrightarrow> chunks h' x = Some (rehead par prev c)"
  shows "kids h' par prev ts q"
proof (cases ts rule: blocks.cases)
  case (2 p us ts')
  from assms(1) obtain c where c: "q = Some p" "chunks h p = Some c" "plain c"
      "kids h p None us (tc_child c)" "kids h par (Some p) ts' (tc_next c)"
    unfolding 2 kids_Cons by blast
  have "kids h' p None us (tc_child c)" "kids h' par (Some p) ts' (tc_next c)"
    using assms(2,3) c(1) unfolding 2
    by (auto intro!: kids_frame [OF _ c(4)] kids_frame [OF _ c(5)])
  with c assms(4) [OF c(1,2)] show ?thesis unfolding 2 kids_Cons by auto
qed (use assms(1) in simp)

lemma kids_head: "kids h par prev ts q \<Longrightarrow> q = (case ts of [] \<Rightarrow> None | Hier p us # ts' \<Rightarrow> Some p)"
  by (cases ts rule: blocks.cases) (auto simp: kids_Cons)

lemma kids_head_in: "kids h par prev ts (Some x) \<Longrightarrow> x \<in> set (blocks ts)"
  by (cases ts rule: blocks.cases) (auto simp: kids_Cons)

section \<open>Taking a block out of its list\<close>

text \<open>Where the link to the block at the start of a list is kept.\<close>

definition owner :: "ptr \<Rightarrow> ptr option \<Rightarrow> ptr" where
  "owner par prev = (case prev of None \<Rightarrow> par | Some a \<Rightarrow> a)"

definition link :: "ptr option \<Rightarrow> chunk \<Rightarrow> ptr option" where
  "link prev c = (if prev = None then tc_child c else tc_next c)"

definition relink :: "ptr option \<Rightarrow> ptr option \<Rightarrow> chunk \<Rightarrow> chunk" where
  "relink prev q c = (if prev = None then c\<lparr>tc_child := q\<rparr> else c\<lparr>tc_next := q\<rparr>)"

text \<open>What does not depend on the place of a block.\<close>

definition payload :: "chunk \<Rightarrow> tname \<times> nat \<times> u32 \<times> cell list \<times> ptr option \<times> destructor" where
  "payload c = (tc_name c, tc_size c, tc_flags c, tc_data c, tc_refs c, tc_destructor c)"

definition content :: "theap \<Rightarrow> ptr \<Rightarrow> (tname \<times> nat \<times> u32 \<times> cell list \<times> ptr option \<times> destructor) option" where
  "content h p = map_option payload (chunks h p)"

lemma payload_links [simp]:
  "payload (c\<lparr>tc_next := q\<rparr>) = payload c" "payload (c\<lparr>tc_prev := q\<rparr>) = payload c"
  "payload (c\<lparr>tc_parent := q\<rparr>) = payload c" "payload (c\<lparr>tc_child := q\<rparr>) = payload c"
  "payload (rehead par prev c) = payload c" "payload (relink prev q c) = payload c"
  by (simp_all add: payload_def rehead_def relink_def)

lemma plain_payload: "payload c1 = payload c \<Longrightarrow> plain c1 = plain c"
  by (simp add: payload_def plain_def)

definition detached :: "ptr \<Rightarrow> ptr option \<Rightarrow> ptr \<Rightarrow> theap \<Rightarrow> (ptr \<Rightarrow> chunk option)" where
  "detached par prev p h =
     (let c = the (chunks h p); oc = the (chunks h (owner par prev));
          m0 = (chunks h)(owner par prev \<mapsto> relink prev (tc_next c) oc);
          m = (if prev = None then m0(p \<mapsto> c\<lparr>tc_next := None, tc_prev := None\<rparr>) else m0)
      in (case tc_next c of None \<Rightarrow> m | Some n \<Rightarrow> m(n \<mapsto> rehead par prev (the (chunks h n)))))"

lemma detach_at:
  assumes c: "chunks h p = Some c" "tc_prev c = prev" "tc_parent c = (if prev = None then Some par else None)"
    and k: "kids h par (Some p) ts (tc_next c)"
    and oc: "chunks h (owner par prev) = Some oc" "link prev oc = Some p"
    and d: "distinct (owner par prev # p # blocks ts)"
  shows "detach p h = Some (h\<lparr>chunks := detached par prev p h\<rparr>)"
proof (cases "tc_next c")
  case None
  then show ?thesis using c oc d
    by (cases prev)
       (auto simp: detach_def child_remove_def detached_def upd_def upd_opt_def owner_def link_def
          relink_def Let_def fun_upd_twist)
next
  case (Some n)
  have n: "n \<in> set (blocks ts)" using k unfolding Some by (rule kids_head_in)
  obtain nc where nc: "chunks h n = Some nc" "tc_parent nc = None"
    using k unfolding Some by (cases ts rule: blocks.cases) (auto simp: kids_Cons)
  have ne: "n \<noteq> p" "n \<noteq> owner par prev" "p \<noteq> owner par prev" using n d by auto
  show ?thesis
  proof (cases prev)
    case None
    with c oc ne nc Some show ?thesis
      by (simp add: detach_def child_remove_def detached_def upd_def upd_opt_def owner_def link_def
          relink_def rehead_def Let_def fun_upd_twist)
  next
    case (Some a)
    have eq: "nc\<lparr>tc_prev := Some a, tc_parent := None\<rparr> = nc\<lparr>tc_prev := Some a\<rparr>"
      using nc(2) by (cases nc) simp
    from Some c oc ne nc \<open>tc_next c = Some n\<close> show ?thesis
      by (simp add: detach_def detached_def upd_def upd_opt_def owner_def link_def
          relink_def rehead_def Let_def fun_upd_twist eq)
  qed
qed

text \<open>The heap afterwards.\<close>

lemma detached_owner:
  assumes "chunks h p = Some c" "chunks h (owner par prev) = Some oc" "owner par prev \<noteq> p"
    and "tc_next c \<noteq> Some (owner par prev)"
  shows "detached par prev p h (owner par prev) = Some (relink prev (tc_next c) oc)"
  using assms by (cases "tc_next c") (auto simp: detached_def Let_def)

lemma detached_self:
  assumes "chunks h p = Some c" "owner par prev \<noteq> p" "tc_next c \<noteq> Some p"
  shows "detached par prev p h p = Some (if prev = None then c\<lparr>tc_next := None, tc_prev := None\<rparr> else c)"
  using assms by (cases "tc_next c") (auto simp: detached_def Let_def)

lemma detached_next:
  assumes "chunks h p = Some c" "tc_next c = Some n" "chunks h n = Some nc"
  shows "detached par prev p h n = Some (rehead par prev nc)"
  using assms by (simp add: detached_def Let_def)

lemma detached_other:
  assumes "chunks h p = Some c" "x \<noteq> owner par prev" "x \<noteq> p" "tc_next c \<noteq> Some x"
  shows "detached par prev p h x = chunks h x"
  using assms by (cases "tc_next c") (auto simp: detached_def Let_def)

lemma detached_facts:
  assumes c: "chunks h p = Some c" "tc_prev c = prev" "tc_parent c = (if prev = None then Some par else None)"
    and k: "kids h par (Some p) ts (tc_next c)"
    and oc: "chunks h (owner par prev) = Some oc" "link prev oc = Some p"
    and d: "distinct (owner par prev # p # blocks ts)"
  defines "h1 \<equiv> h\<lparr>chunks := detached par prev p h\<rparr>"
  shows "kids h1 par prev ts (tc_next c)"
    and "chunks h1 (owner par prev) = Some (relink prev (tc_next c) oc)"
    and "\<exists>c1. chunks h1 p = Some c1 \<and> tc_child c1 = tc_child c \<and> tc_parent c1 = tc_parent c \<and> payload c1 = payload c"
    and "\<And>x. x \<noteq> owner par prev \<Longrightarrow> x \<noteq> p \<Longrightarrow> x \<notin> set (blocks ts) \<Longrightarrow> chunks h1 x = chunks h x"
    and "\<And>x. content h1 x = content h x"
proof -
  have n: "tc_next c = Some n \<Longrightarrow> n \<in> set (blocks ts) \<and> (\<exists>nc. chunks h n = Some nc)" for n
    using k kids_head_in kids_allocated by (metis not_Some_eq)
  have n': "tc_next c \<noteq> Some p" "tc_next c \<noteq> Some (owner par prev)"
    using n d by auto
  have o: "owner par prev \<noteq> p" using d by auto
  note nx = detached_next [where h = h and p = p and par = par and prev = prev, OF c(1)]
  note ot = detached_other [where h = h and p = p and par = par and prev = prev, OF c(1)]
  note ow = detached_owner [OF c(1) oc(1) o]
  note se = detached_self [where h = h and par = par and prev = prev, OF c(1) o]
  show "kids h1 par prev ts (tc_next c)"
  proof (rule kids_rehead [OF k])
    show "distinct (blocks ts)" using d by simp
    show "chunks h1 x = chunks h x" if "x \<in> set (blocks ts)" "Some x \<noteq> tc_next c" for x
    proof -
      have "x \<noteq> owner par prev" "x \<noteq> p" using that(1) d by auto
      with that(2) show ?thesis unfolding h1_def by (simp add: ot)
    qed
    show "chunks h1 x = Some (rehead par prev nc)" if "tc_next c = Some x" "chunks h x = Some nc" for x nc
      using nx [OF that] by (simp add: h1_def)
  qed
  show "chunks h1 (owner par prev) = Some (relink prev (tc_next c) oc)"
    using ow n'(2) by (simp add: h1_def)
  show "\<exists>c1. chunks h1 p = Some c1 \<and> tc_child c1 = tc_child c \<and> tc_parent c1 = tc_parent c \<and> payload c1 = payload c"
    using se [OF n'(1)] by (auto simp: h1_def)
  show "chunks h1 x = chunks h x" if "x \<noteq> owner par prev" "x \<noteq> p" "x \<notin> set (blocks ts)" for x
  proof -
    have "tc_next c \<noteq> Some x" using that(3) n by blast
    with that show ?thesis unfolding h1_def by (simp add: ot)
  qed
  show "content h1 x = content h x" for x
  proof -
    consider "x = owner par prev" | "x = p" | "tc_next c = Some x"
      | "x \<noteq> owner par prev" "x \<noteq> p" "tc_next c \<noteq> Some x" by blast
    then show ?thesis
    proof cases
      case 1 then show ?thesis using ow [OF n'(2)] oc(1) by (simp add: h1_def content_def)
    next
      case 2 then show ?thesis using se [OF n'(1)] c(1) by (simp add: h1_def content_def)
    next
      case 3
      with n obtain nc where "chunks h x = Some nc" by blast
      with nx [OF 3 this] show ?thesis by (simp add: h1_def content_def)
    next
      case 4 then show ?thesis unfolding h1_def content_def by (simp add: ot)
    qed
  qed
qed

section \<open>Flags\<close>

lemma plain_flags:
  assumes "plain c"
  shows "tc_flags c AND (TALLOC_FLAG_FREE OR NOT 0xF) = TALLOC_MAGIC" "\<not> has_flag TALLOC_FLAG_LOOP c"
    "\<not> has_flag TALLOC_FLAG_EXT_ALLOC c"
  using assms by (simp_all add: plain_def has_flag_def TALLOC_MAGIC_def TALLOC_FLAG_FREE_def TALLOC_FLAG_LOOP_def
      TALLOC_FLAG_EXT_ALLOC_def)

lemma talloc_chunk_from_ptr_plain: "chunks h p = Some c \<Longrightarrow> plain c \<Longrightarrow> talloc_chunk_from_ptr p h = Some c"
  using plain_flags(1) [of c] by (simp add: talloc_chunk_from_ptr_def)

lemma loop_flag:
  assumes "plain c"
  shows "talloc_chunk_from_ptr p (h\<lparr>chunks := (chunks h)(p \<mapsto> set_flag TALLOC_FLAG_LOOP c)\<rparr>)
     = Some (set_flag TALLOC_FLAG_LOOP c)"
    and "clear_flag TALLOC_FLAG_LOOP (set_flag TALLOC_FLAG_LOOP c) = c"
  using assms by (cases c; simp add: talloc_chunk_from_ptr_def plain_def set_flag_def clear_flag_def
      TALLOC_MAGIC_def TALLOC_FLAG_FREE_def TALLOC_FLAG_LOOP_def)+

section \<open>Freeing\<close>

lemma destroy_plain: "chunks h p = Some c \<Longrightarrow> plain c \<Longrightarrow> destroy env p h = Some (0, h)"
  by (simp add: destroy_def plain_def)

lemma free_plain:
  assumes "chunks h p = Some c" "plain c" "detach p h = Some h1" "chunks h1 p = Some c1"
    and "free_run env (Children p) (h1\<lparr>chunks := (chunks h1)(p \<mapsto> set_flag TALLOC_FLAG_LOOP c1)\<rparr>) = Some (r, h2)"
    and "chunks h2 p \<noteq> None"
  shows "free_run env (Free p) h = Some (0, h2\<lparr>chunks := (chunks h2)(p := None)\<rparr>)"
  using assms(1,2) plain_flags(2,3) [OF assms(2)] assms(3-6)
  by (subst free_run.simps)
     (auto simp: talloc_chunk_from_ptr_plain [OF assms(1,2)] destroy_plain [OF assms(1,2)] upd_def release_def plain_def)

lemma adopter_plain: "chunks h k = Some c \<Longrightarrow> plain c \<Longrightarrow> adopter k h = Some (null_context h)"
  by (simp add: adopter_def plain_def)

lemma free_children_step:
  assumes "chunks h p = Some c" "tc_child c = Some k" "chunks h k = Some kc" "plain kc"
    and "free_run env (Free k) h = Some (0, h1)"
  shows "free_run env (Children p) h = free_run env (Children p) h1"
  using assms by (subst free_run.simps) (simp add: adopter_plain)

text \<open>The loop over the children of a block leaves it without children and frees all that was below it.\<close>

definition cleared :: "theap \<Rightarrow> ptr \<Rightarrow> hier list \<Rightarrow> theap" where
  "cleared h p ts =
     h\<lparr>chunks := (\<lambda>x. if x \<in> set (blocks ts) then None
                       else if x = p then map_option (tc_child_update (\<lambda>_. None)) (chunks h p)
                       else chunks h x)\<rparr>"

lemma cleared_simps [simp]:
  "x \<in> set (blocks ts) \<Longrightarrow> chunks (cleared h p ts) x = None"
  "x \<notin> set (blocks ts) \<Longrightarrow> x \<noteq> p \<Longrightarrow> chunks (cleared h p ts) x = chunks h x"
  "p \<notin> set (blocks ts) \<Longrightarrow> chunks (cleared h p ts) p = map_option (tc_child_update (\<lambda>_. None)) (chunks h p)"
  by (simp_all add: cleared_def)

lemma theap_eqI:
  fixes h h' :: theap
  assumes "\<And>x. chunks h x = chunks h' x" "null_context h = null_context h'"
    and "autofree_context h = autofree_context h'"
  shows "h = h'"
proof -
  have "chunks h = chunks h'" using assms(1) by (rule ext)
  with assms(2,3) show ?thesis by (cases h; cases h') simp
qed

lemma cleared_contexts [simp]:
  "null_context (cleared h p ts) = null_context h" "autofree_context (cleared h p ts) = autofree_context h"
  by (simp_all add: cleared_def)

text \<open>Freeing a block at its place among its siblings, once its children can be freed.\<close>

lemma free_at:
  assumes c: "chunks h p = Some c" "plain c" "tc_prev c = prev"
      "tc_parent c = (if prev = None then Some par else None)"
    and k: "kids h p None us (tc_child c)" "kids h par (Some p) ts (tc_next c)"
    and oc: "chunks h (owner par prev) = Some oc" "link prev oc = Some p"
    and d: "distinct (owner par prev # p # blocks us @ blocks ts)"
    and IH: "\<forall>h c. chunks h p = Some c \<longrightarrow> kids h p None us (tc_child c) \<longrightarrow>
      free_run env (Children p) h = Some (0, cleared h p us)"
  obtains h' where "free_run env (Free p) h = Some (0, h')" "kids h' par prev ts (tc_next c)"
    "chunks h' (owner par prev) = Some (relink prev (tc_next c) oc)"
    "\<And>x. x \<in> insert p (set (blocks us)) \<Longrightarrow> chunks h' x = None"
    "\<And>x. x \<noteq> owner par prev \<Longrightarrow> x \<notin> insert p (set (blocks us)) \<Longrightarrow> x \<notin> set (blocks ts) \<Longrightarrow>
      chunks h' x = chunks h x"
    "\<And>x. x \<notin> insert p (set (blocks us)) \<Longrightarrow> content h' x = content h x"
    "null_context h' = null_context h" "autofree_context h' = autofree_context h"
proof -
  define h1 where "h1 = h\<lparr>chunks := detached par prev p h\<rparr>"
  have d': "distinct (owner par prev # p # blocks ts)" using d by auto
  note f = detached_facts [OF c(1,3,4) k(2) oc d', folded h1_def]
  from f(3) obtain c1 where c1: "chunks h1 p = Some c1" "tc_child c1 = tc_child c" "payload c1 = payload c"
    by blast
  define h2 where "h2 = h1\<lparr>chunks := (chunks h1)(p \<mapsto> set_flag TALLOC_FLAG_LOOP c1)\<rparr>"
  define h3 where "h3 = cleared h2 p us"
  define h' where "h' = h3\<lparr>chunks := (chunks h3)(p := None)\<rparr>"
  have us: "kids h2 p None us (tc_child c)"
  proof (rule kids_frame [OF _ k(1)])
    fix x assume "x \<in> set (blocks us)"
    then have "x \<noteq> p" "x \<noteq> owner par prev" "x \<notin> set (blocks ts)" using d by auto
    then show "chunks h2 x = chunks h x" by (simp add: h2_def f(4))
  qed
  have p2: "chunks h2 p = Some (set_flag TALLOC_FLAG_LOOP c1)" by (simp add: h2_def)
  have "tc_child (set_flag TALLOC_FLAG_LOOP c1) = tc_child c" by (simp add: set_flag_def c1)
  with IH p2 us have "free_run env (Children p) h2 = Some (0, h3)" by (simp add: h3_def)
  moreover have "chunks h3 p \<noteq> None" using d p2 by (simp add: h3_def)
  moreover have "detach p h = Some h1"
    unfolding h1_def by (rule detach_at [OF c(1,3,4) k(2) oc d'])
  ultimately have run: "free_run env (Free p) h = Some (0, h')"
    using free_plain [OF c(1,2) _ c1(1)] by (simp add: h2_def h'_def)
  have out: "chunks h' x = chunks h1 x" if "x \<notin> insert p (set (blocks us))" for x
    using that by (simp add: h'_def h3_def h2_def)
  show ?thesis
  proof (rule that)
    show "free_run env (Free p) h = Some (0, h')" by (rule run)
    show "kids h' par prev ts (tc_next c)"
    proof (rule kids_frame [OF _ f(1)])
      fix x assume "x \<in> set (blocks ts)"
      then have "x \<notin> insert p (set (blocks us))" using d by auto
      then show "chunks h' x = chunks h1 x" by (rule out)
    qed
    have "owner par prev \<notin> insert p (set (blocks us))" using d by auto
    from out [OF this] f(2) show "chunks h' (owner par prev) = Some (relink prev (tc_next c) oc)" by simp
    show "chunks h' x = None" if "x \<in> insert p (set (blocks us))" for x
      using that by (auto simp: h'_def h3_def)
    show "chunks h' x = chunks h x"
      if "x \<noteq> owner par prev" "x \<notin> insert p (set (blocks us))" "x \<notin> set (blocks ts)" for x
      using that out [OF that(2)] f(4) by simp
    show "content h' x = content h x" if "x \<notin> insert p (set (blocks us))" for x
      using out [OF that] f(5) [of x] by (simp add: content_def)
  qed (simp_all add: h'_def h3_def h2_def h1_def)
qed

lemma free_children:
  assumes "chunks h p = Some c" "kids h p None ts (tc_child c)" "distinct (p # blocks ts)"
  shows "free_run env (Children p) h = Some (0, cleared h p ts)"
  using assms
proof (induction ts arbitrary: h p c rule: blocks.induct)
  case (1 h p c)
  have "cleared h p [] = h"
    using 1 by (intro theap_eqI) (auto simp: cleared_def)
  then show ?case using 1 by (subst free_run.simps) simp
next
  case (2 k us ts h p c)
  from "2.prems"(2) obtain kc where kc: "tc_child c = Some k" "chunks h k = Some kc" "plain kc"
      "tc_prev kc = None" "tc_parent kc = Some p" "kids h k None us (tc_child kc)"
      "kids h p (Some k) ts (tc_next kc)"
    unfolding kids_Cons by auto
  have d: "distinct (owner p None # k # blocks us @ blocks ts)"
    using "2.prems"(3) by (simp add: owner_def)
  have o: "chunks h (owner p None) = Some c" "link None c = Some k"
    using "2.prems"(1) kc(1) by (simp_all add: owner_def link_def)
  have IH: "\<forall>g kc'. chunks g k = Some kc' \<longrightarrow> kids g k None us (tc_child kc') \<longrightarrow>
      free_run env (Children k) g = Some (0, cleared g k us)"
    using "2.IH"(1) d by simp
  obtain h' where h': "free_run env (Free k) h = Some (0, h')" "kids h' p None ts (tc_next kc)"
      "chunks h' p = Some (c\<lparr>tc_child := tc_next kc\<rparr>)"
      "\<And>x. x \<in> insert k (set (blocks us)) \<Longrightarrow> chunks h' x = None"
      "\<And>x. x \<noteq> p \<Longrightarrow> x \<notin> insert k (set (blocks us)) \<Longrightarrow> x \<notin> set (blocks ts) \<Longrightarrow> chunks h' x = chunks h x"
      "null_context h' = null_context h" "autofree_context h' = autofree_context h"
    by (rule free_at [OF kc(2,3,4) _ kc(6,7) o d IH, unfolded owner_def relink_def, simplified])
       (use kc(5) in auto)
  have "free_run env (Children p) h' = Some (0, cleared h' p ts)"
    using "2.IH"(2) [OF h'(3)] h'(2) "2.prems"(3) by simp
  moreover have "cleared h' p ts = cleared h p (Hier k us # ts)"
  proof (rule theap_eqI)
    fix x
    show "chunks (cleared h' p ts) x = chunks (cleared h p (Hier k us # ts)) x"
      using h'(3-5) "2.prems"(1,3) by (auto simp: cleared_def)
  qed (simp_all add: h')
  ultimately show ?case
    using free_children_step [OF "2.prems"(1) kc(1-3) h'(1)] by simp
qed

lemma relink_link: "link prev c = q \<Longrightarrow> relink prev q c = c"
  by (auto simp: link_def relink_def)

text \<open>Freeing a block anywhere below.\<close>

definition freed :: "ptr \<Rightarrow> ptr \<Rightarrow> ptr option \<Rightarrow> hier list \<Rightarrow> theap \<Rightarrow> chunk \<Rightarrow> theap \<Rightarrow> bool" where
  "freed p par prev ts h oc h' \<longleftrightarrow>
     (\<exists>q. kids h' par prev (prune p ts) q \<and> chunks h' (owner par prev) = Some (relink prev q oc)) \<and>
     (\<forall>x \<in> set (subtree p ts). chunks h' x = None) \<and>
     (\<forall>x. x \<noteq> owner par prev \<longrightarrow> x \<notin> set (blocks ts) \<longrightarrow> chunks h' x = chunks h x) \<and>
     (\<forall>x. x \<notin> set (subtree p ts) \<longrightarrow> content h' x = content h x) \<and>
     null_context h' = null_context h \<and> autofree_context h' = autofree_context h"

text \<open>A block freed below the first block of a list, or after it, is freed in the whole list.\<close>

lemma freed_below:
  assumes c: "chunks h k = Some c" "plain c" "tc_prev c = prev" "tc_parent c = (if prev = None then Some par else None)"
      "kids h par (Some k) ts (tc_next c)"
    and o: "chunks h (owner par prev) = Some oc" "relink prev (Some k) oc = oc"
    and d: "distinct (owner par prev # k # blocks us @ blocks ts)" and p: "p \<in> set (blocks us)"
    and f: "freed p k None us h c h'"
  shows "freed p par prev (Hier k us # ts) h oc h'"
proof -
  have n: "p \<noteq> k" "p \<notin> set (blocks ts)" using p d by auto
  obtain q1 where h': "kids h' k None (prune p us) q1" "chunks h' k = Some (c\<lparr>tc_child := q1\<rparr>)"
    using f unfolding freed_def by (auto simp: owner_def link_def relink_def)
  have out: "chunks h' x = chunks h x" if "x \<noteq> k" "x \<notin> set (blocks us)" for x
    using f that by (simp add: freed_def owner_def)
  have "kids h' par (Some k) ts (tc_next c)" using d by (intro kids_frame [OF _ c(5)] out) auto
  moreover have "plain (c\<lparr>tc_child := q1\<rparr>)" using c(2) by (simp add: plain_def)
  ultimately have "kids h' par prev (prune p (Hier k us # ts)) (Some k)"
    using h' c(3,4) n by (simp add: kids_Cons prune_other [OF n(2)])
  moreover have "chunks h' (owner par prev) = Some (relink prev (Some k) oc)"
    using out [of "owner par prev"] d o by simp
  ultimately show ?thesis
    using f n unfolding freed_def by (auto simp: subtree_other [OF n(2)] owner_def)
qed

lemma freed_beside:
  assumes c: "chunks h k = Some c" "plain c" "tc_prev c = prev" "tc_parent c = (if prev = None then Some par else None)"
      "kids h k None us (tc_child c)"
    and o: "chunks h (owner par prev) = Some oc" "relink prev (Some k) oc = oc"
    and d: "distinct (owner par prev # k # blocks us @ blocks ts)" and p: "p \<in> set (blocks ts)"
    and f: "freed p par (Some k) ts h c h'"
  shows "freed p par prev (Hier k us # ts) h oc h'"
proof -
  have n: "p \<noteq> k" "p \<notin> set (blocks us)" using p d by auto
  obtain q1 where h': "kids h' par (Some k) (prune p ts) q1" "chunks h' k = Some (c\<lparr>tc_next := q1\<rparr>)"
    using f unfolding freed_def by (auto simp: owner_def link_def relink_def)
  have out: "chunks h' x = chunks h x" if "x \<noteq> k" "x \<notin> set (blocks ts)" for x
    using f that by (simp add: freed_def owner_def)
  have "kids h' k None us (tc_child c)" using d by (intro kids_frame [OF _ c(5)] out) auto
  moreover have "plain (c\<lparr>tc_next := q1\<rparr>)" using c(2) by (simp add: plain_def)
  ultimately have "kids h' par prev (prune p (Hier k us # ts)) (Some k)"
    using h' c(3,4) n by (simp add: kids_Cons prune_other [OF n(2)])
  moreover have "chunks h' (owner par prev) = Some (relink prev (Some k) oc)"
    using out [of "owner par prev"] d o by simp
  ultimately show ?thesis
    using f n unfolding freed_def by (auto simp: subtree_other [OF n(2)] owner_def)
qed

lemma free_in:
  assumes "kids h par prev ts q" "chunks h (owner par prev) = Some oc" "link prev oc = q"
    and "distinct (owner par prev # blocks ts)" "p \<in> set (blocks ts)"
  shows "\<exists>h'. free_run env (Free p) h = Some (0, h') \<and> freed p par prev ts h oc h'"
  using assms
proof (induction ts arbitrary: par prev q oc rule: blocks.induct)
  case (2 k us ts)
  from "2.prems"(1) obtain c where c: "q = Some k" "chunks h k = Some c" "plain c" "tc_prev c = prev"
      "tc_parent c = (if prev = None then Some par else None)"
      "kids h k None us (tc_child c)" "kids h par (Some k) ts (tc_next c)"
    unfolding kids_Cons by blast
  have d: "distinct (owner par prev # k # blocks us @ blocks ts)" using "2.prems"(4) by simp
  have keep: "relink prev (Some k) oc = oc" using "2.prems"(3) c(1) by (simp add: relink_link)
  consider "p = k" | "p \<in> set (blocks us)" | "p \<in> set (blocks ts)" using "2.prems"(5) by auto
  then show ?case
  proof cases
    case 1
    have IH: "\<forall>g kc. chunks g k = Some kc \<longrightarrow> kids g k None us (tc_child kc) \<longrightarrow>
        free_run env (Children k) g = Some (0, cleared g k us)"
      using free_children d by simp
    have l: "link prev oc = Some k" using "2.prems"(3) c(1) by simp
    show ?thesis
      by (rule free_at [OF c(2-7) "2.prems"(2) l d IH]) (auto simp: 1 freed_def)
  next
    case 2
    have "distinct (owner k None # blocks us)" "chunks h (owner k None) = Some c"
      using d c(2) by (simp_all add: owner_def)
    from "2.IH"(1) [OF c(6) this(2) _ this(1) 2] show ?thesis
      using freed_below [OF c(2-5,7) "2.prems"(2) keep d 2] by (auto simp: link_def)
  next
    case 3
    have "distinct (owner par (Some k) # blocks ts)" "chunks h (owner par (Some k)) = Some c"
      using d c(2) by (simp_all add: owner_def)
    from "2.IH"(2) [OF c(7) this(2) _ this(1) 3] show ?thesis
      using freed_beside [OF c(2-6) "2.prems"(2) keep d 3] by (auto simp: link_def)
  qed
qed simp

section \<open>Totals\<close>

definition sum_over :: "(chunk \<Rightarrow> u64) \<Rightarrow> theap \<Rightarrow> ptr list \<Rightarrow> u64" where
  "sum_over f h ps = sum_list (map (\<lambda>p. case chunks h p of None \<Rightarrow> 0 | Some c \<Rightarrow> f c) ps)"

lemma sum_over_frame:
  "(\<And>x. x \<in> set ps \<Longrightarrow> chunks h' x = chunks h x) \<Longrightarrow> sum_over f h' ps = sum_over f h ps"
  unfolding sum_over_def by (intro arg_cong [where f = sum_list] map_cong) auto

lemma upd_back:
  fixes h :: theap
  assumes "chunks h p = Some c"
  shows "(h\<lparr>chunks := (chunks h)(p \<mapsto> c')\<rparr>)\<lparr>chunks := (chunks (h\<lparr>chunks := (chunks h)(p \<mapsto> c')\<rparr>))(p \<mapsto> c)\<rparr> = h"
  by (rule theap_eqI) (use assms in auto)

text \<open>One block, when its children can be counted.\<close>

lemma total_block:
  assumes "chunks h p = Some c" "plain c"
    and "\<And>h1. h1 = h\<lparr>chunks := (chunks h)(p \<mapsto> set_flag TALLOC_FLAG_LOOP c)\<rparr> \<Longrightarrow>
      total_run f (Siblings (tc_child c)) h1 = Some (t, h1)"
  shows "total_run f (Block p) h = Some (f c + t, h)"
  using assms(1) plain_flags(2) [OF assms(2)] assms(3) [OF refl] upd_back [OF assms(1)]
  by (subst total_run.simps)
     (simp add: talloc_chunk_from_ptr_plain [OF assms(1,2)] upd_def loop_flag(2) [OF assms(2)])

lemma total_siblings:
  "kids h par prev ts q \<Longrightarrow> distinct (blocks ts) \<Longrightarrow>
   total_run f (Siblings q) h = Some (sum_over f h (blocks ts), h)"
proof (induction ts arbitrary: h par prev q rule: blocks.induct)
  case (1 h par prev q)
  then show ?case by (subst total_run.simps) (simp add: sum_over_def)
next
  case (2 k us ts h par prev q)
  from "2.prems"(1) obtain c where c: "q = Some k" "chunks h k = Some c" "plain c"
      "kids h k None us (tc_child c)" "kids h par (Some k) ts (tc_next c)"
    unfolding kids_Cons by blast
  have "total_run f (Block k) h = Some (f c + sum_over f h (blocks us), h)"
  proof (rule total_block [OF c(2,3)])
    fix h1 assume h1: "h1 = h\<lparr>chunks := (chunks h)(k \<mapsto> set_flag TALLOC_FLAG_LOOP c)\<rparr>"
    have same: "chunks h1 x = chunks h x" if "x \<in> set (blocks us)" for x
      using that "2.prems"(2) by (auto simp: h1)
    have "kids h1 k None us (tc_child c)" by (rule kids_frame [OF same c(4)])
    with "2.IH"(1) "2.prems"(2) sum_over_frame [OF same, where f = f]
    show "total_run f (Siblings (tc_child c)) h1 = Some (sum_over f h (blocks us), h1)" by simp
  qed
  moreover have "total_run f (Siblings (tc_next c)) h = Some (sum_over f h (blocks ts), h)"
    using "2.IH"(2) [OF c(5)] "2.prems"(2) by simp
  ultimately show ?case
    using c(1,2) by (subst total_run.simps) (simp add: sum_over_def)
qed

section \<open>A small heap\<close>

definition demo_chunk :: "ptr option \<Rightarrow> ptr option \<Rightarrow> ptr option \<Rightarrow> ptr option \<Rightarrow> nat \<Rightarrow> chunk" where
  "demo_chunk next prev parent child sz =
     (new_chunk sz False parent next)\<lparr>tc_prev := prev, tc_child := child\<rparr>"

text \<open>Block 1 has the children 3 and 2; block 3 has the child 4.\<close>

definition demo_heap :: theap where
  "demo_heap =
     \<lparr>chunks = [1 \<mapsto> demo_chunk None None None (Some 3) 0, 2 \<mapsto> demo_chunk None (Some 3) None None 5,
                3 \<mapsto> demo_chunk (Some 2) None (Some 1) (Some 4) 7, 4 \<mapsto> demo_chunk None None (Some 3) None 9],
      null_context = None, autofree_context = None\<rparr>"

definition demo_hier :: hier where
  "demo_hier = Hier 1 [Hier 3 [Hier 4 []], Hier 2 []]"

definition demo_tenv :: tenv where
  "demo_tenv = \<lparr>tc_lock = None, t_malloc = (\<lambda>n h. find (\<lambda>p. chunks h p = None) [1..<1000]),
                t_realloc = (\<lambda>p n h. find (\<lambda>q. chunks h q = None) [1..<1000]),
                t_external = (\<lambda>c p n h. None), t_destructor = (\<lambda>n p h. (0, h))\<rparr>"

lemma demo_hierarchy: "hierarchy demo_heap demo_hier"
  by (simp add: demo_hier_def hierarchy_iff demo_heap_def demo_chunk_def new_chunk_def plain_def kids_Cons)

section \<open>The properties\<close>

text \<open>
  C36. Freeing a block of a hierarchy that is not its root returns 0, and what is left is the
  hierarchy without the subtree of the block, every link in it repaired: exactly the blocks of the subtree are
  deallocated, and every other block keeps its name, size, flags and bytes. In particular the recursion
  ends and never touches memory that is not allocated.
\<close>

theorem talloc_free_prunes:
  assumes "hierarchy h (Hier r ts)" "p \<in> set (blocks ts)"
  shows "\<exists>h'. talloc_free env (Some p) h = Some (0, h') \<and> hierarchy h' (Hier r (prune p ts)) \<and>
    (\<forall>x. chunks h' x = None \<longleftrightarrow> chunks h x = None \<or> x \<in> set (subtree p ts)) \<and>
    (\<forall>x. x \<notin> set (subtree p ts) \<longrightarrow> content h' x = content h x)"
proof -
  from assms(1) obtain c where c: "distinct (r # blocks ts)" "chunks h r = Some c" "plain c"
      "tc_prev c = None" "tc_next c = None" "tc_parent c = None" "kids h r None ts (tc_child c)"
    unfolding hierarchy_iff by blast
  have o: "chunks h (owner r None) = Some c" "link None c = tc_child c"
    "distinct (owner r None # blocks ts)"
    using c by (simp_all add: owner_def link_def)
  from free_in [OF c(7) o assms(2)] obtain h' where
    h': "free_run env (Free p) h = Some (0, h')" "freed p r None ts h c h'" by blast
  then obtain q where q: "kids h' r None (prune p ts) q" "chunks h' r = Some (c\<lparr>tc_child := q\<rparr>)"
    by (auto simp: freed_def owner_def relink_def)
  have "distinct (r # blocks (prune p ts))"
    using c(1) distinct_prune [of ts p] blocks_prune [of p ts] by auto
  with q c have "hierarchy h' (Hier r (prune p ts))"
    by (simp add: hierarchy_iff plain_def)
  moreover have "content h' x = content h x \<Longrightarrow> chunks h' x = None \<longleftrightarrow> chunks h x = None" for x
    by (metis content_def map_option_is_None)
  moreover have "x \<in> set (subtree p ts) \<Longrightarrow> chunks h' x = None" for x
    using h'(2) by (simp add: freed_def)
  moreover have ct: "x \<notin> set (subtree p ts) \<Longrightarrow> content h' x = content h x" for x
    using h'(2) by (simp add: freed_def)
  ultimately show ?thesis
    using h'(1) unfolding talloc_free_def option.case by blast
qed

theorem talloc_free_prunes_witness:
  "\<exists>h'. talloc_free demo_tenv (Some 3) demo_heap = Some (0, h') \<and> hierarchy h' (Hier 1 [Hier 2 []]) \<and>
    chunks h' 4 = None \<and> content h' 2 = content demo_heap 2"
  using talloc_free_prunes [of demo_heap 1 "[Hier 3 [Hier 4 []], Hier 2 []]" 3 demo_tenv] demo_hierarchy
  by (auto simp: demo_hier_def)

text \<open>
  The total size of a hierarchy is the sum of the sizes of its blocks, modulo \<open>2 ^ 64\<close>, and the
  marks that guard the walk against loops are all taken back: the heap is the one before.
\<close>

theorem talloc_total_size_sums:
  assumes "hierarchy h (Hier r ts)"
  shows "talloc_total_size (Some r) h = Some (sum_over (\<lambda>c. of_nat (tc_size c)) h (r # blocks ts), h)"
proof -
  from assms obtain c where c: "distinct (r # blocks ts)" "chunks h r = Some c" "plain c"
      "kids h r None ts (tc_child c)" unfolding hierarchy_iff by blast
  let ?f = "\<lambda>c. of_nat (tc_size c) :: u64"
  have "total_run ?f (Block r) h = Some (?f c + sum_over ?f h (blocks ts), h)"
  proof (rule total_block [OF c(2,3)])
    fix h1 assume h1: "h1 = h\<lparr>chunks := (chunks h)(r \<mapsto> set_flag TALLOC_FLAG_LOOP c)\<rparr>"
    have same: "chunks h1 x = chunks h x" if "x \<in> set (blocks ts)" for x
      using that c(1) by (auto simp: h1)
    from total_siblings [OF kids_frame [OF same c(4)]] c(1) sum_over_frame [OF same]
    show "total_run ?f (Siblings (tc_child c)) h1 = Some (sum_over ?f h (blocks ts), h1)" by simp
  qed
  then show ?thesis
    by (simp add: talloc_total_size_def talloc_total_size_run_def sum_over_def c(2))
qed

theorem talloc_total_size_sums_witness:
  "talloc_total_size (Some 1) demo_heap = Some (21, demo_heap)"
proof -
  have "sum_over (\<lambda>c. of_nat (tc_size c)) demo_heap (1 # blocks [Hier 3 [Hier 4 []], Hier 2 []]) = 21"
    by (simp add: sum_over_def demo_heap_def demo_chunk_def new_chunk_def)
  then show ?thesis
    using talloc_total_size_sums [of demo_heap 1 "[Hier 3 [Hier 4 []], Hier 2 []]"] demo_hierarchy
    by (simp add: demo_hier_def)
qed

end
