(* ===== verification/TallocData.thy ===== *)
theory TallocData
  imports TallocOps
begin

text \<open>
  The part of src/talloc.c that fills the blocks it allocates: zeroed and copied memory, strings,
  arrays, and the contexts the library keeps for itself.

  A string argument is its text. What \<open>vsnprintf\<close> makes of a format and its arguments is a
  parameter: the text, or nothing when it fails.
\<close>

section \<open>Memory\<close>

definition talloc_zero :: "tenv \<Rightarrow> ptr option \<Rightarrow> nat \<Rightarrow> tname \<Rightarrow> theap \<Rightarrow> (ptr option \<times> theap) option" where
  "talloc_zero env ctx sz name h =
     do { (r, h1) \<leftarrow> talloc_named_const env ctx sz name h;
          (case r of
             None \<Rightarrow> Some (None, h1)
           | Some p \<Rightarrow> do { h2 \<leftarrow> store_bytes p 0 (replicate sz NUL) h1; Some (Some p, h2) }) }"

definition talloc_memdup ::
  "tenv \<Rightarrow> ptr option \<Rightarrow> char list \<Rightarrow> nat \<Rightarrow> tname \<Rightarrow> theap \<Rightarrow> (ptr option \<times> theap) option" where
  "talloc_memdup env t mem sz name h =
     do { (r, h1) \<leftarrow> talloc_named_const env t sz name h;
          (case r of
             None \<Rightarrow> Some (None, h1)
           | Some p \<Rightarrow>
               if length mem < sz then None
               else do { h2 \<leftarrow> store_bytes p 0 (take sz mem) h1; Some (Some p, h2) }) }"

section \<open>Arrays\<close>

text \<open>
  The division in C traps when the size of an element is zero. The array of zeros calls \<open>_talloc_zero\<close>, which
  takes the lock, under the lock.
\<close>

definition talloc_array ::
  "tenv \<Rightarrow> ptr option \<Rightarrow> nat \<Rightarrow> nat \<Rightarrow> tname \<Rightarrow> theap \<Rightarrow> (ptr option \<times> theap) option" where
  "talloc_array env ctx el_size count name h =
     (if el_size = 0 then None
      else if count \<ge> MAX_TALLOC_SIZE div el_size then Some (None, h)
      else talloc_named_const env ctx (el_size * count) name h)"

definition talloc_zero_array ::
  "tenv \<Rightarrow> ptr option \<Rightarrow> nat \<Rightarrow> nat \<Rightarrow> tname \<Rightarrow> theap \<Rightarrow> (ptr option \<times> theap) option" where
  "talloc_zero_array env ctx el_size count name h =
     (if el_size = 0 then None
      else if count \<ge> MAX_TALLOC_SIZE div el_size then Some (None, h)
      else relock env (talloc_zero env ctx (el_size * count) name h))"

definition talloc_realloc_array ::
  "tenv \<Rightarrow> ptr option \<Rightarrow> ptr option \<Rightarrow> nat \<Rightarrow> nat \<Rightarrow> tname \<Rightarrow> theap \<Rightarrow> (ptr option \<times> theap) option" where
  "talloc_realloc_array env ctx ptr el_size count name h =
     (if el_size = 0 then None
      else if count \<ge> MAX_TALLOC_SIZE div el_size then Some (None, h)
      else talloc_realloc env ctx ptr (el_size * count) name h)"

definition talloc_realloc_fn ::
  "tenv \<Rightarrow> ptr option \<Rightarrow> ptr option \<Rightarrow> nat \<Rightarrow> theap \<Rightarrow> (ptr option \<times> theap) option" where
  "talloc_realloc_fn env ctx ptr sz h = talloc_realloc env ctx ptr sz Name_null h"

section \<open>Strings\<close>

text \<open>\<open>talloc_memdup\<close> names the block after the place of the call; the name is replaced at once.\<close>

definition talloc_strdup :: "tenv \<Rightarrow> ptr option \<Rightarrow> string option \<Rightarrow> theap \<Rightarrow> (ptr option \<times> theap) option" where
  "talloc_strdup env t s h =
     (case s of
        None \<Rightarrow> Some (None, h)
      | Some s \<Rightarrow>
          do { (r, h1) \<leftarrow> talloc_memdup env t (s @ [NUL]) (length s + 1) (Name_const ''talloc.c'') h;
               (case r of
                  None \<Rightarrow> Some (None, h1)
                | Some p \<Rightarrow> do { h2 \<leftarrow> talloc_set_name_const p (Name_at p) h1; Some (Some p, h2) }) })"

definition talloc_append_string ::
  "tenv \<Rightarrow> ptr \<Rightarrow> string option \<Rightarrow> theap \<Rightarrow> (ptr option \<times> theap) option" where
  "talloc_append_string env orig app h =
     do { s \<leftarrow> load_string orig h;
          (case app of
             None \<Rightarrow> Some (Some orig, h)
           | Some a \<Rightarrow>
               do { (r, h1) \<leftarrow> talloc_realloc_array env None (Some orig) 1 (length s + (length a + 1))
                               (Name_const ''char'') h;
                    (case r of
                       None \<Rightarrow> Some (None, h1)
                     | Some p \<Rightarrow>
                         do { h2 \<leftarrow> store_bytes p (length s) (a @ [NUL]) h1;
                              h3 \<leftarrow> talloc_set_name_const p (Name_at p) h2;
                              Some (Some p, h3) }) }) }"

definition talloc_strndup ::
  "tenv \<Rightarrow> ptr option \<Rightarrow> string \<Rightarrow> nat \<Rightarrow> theap \<Rightarrow> (ptr option \<times> theap) option" where
  "talloc_strndup env t s n h =
     (let text = take n s in
      do { (r, h1) \<leftarrow> talloc_alloc env t (length text + 1) h;
           (case r of
              None \<Rightarrow> Some (None, h1)
            | Some p \<Rightarrow>
                do { h2 \<leftarrow> store_bytes p 0 text h1;
                     h3 \<leftarrow> store_bytes p (length text) [NUL] h2;
                     h4 \<leftarrow> talloc_set_name_const p (Name_at p) h3;
                     Some (Some p, h4) }) })"

definition talloc_vasprintf ::
  "tenv \<Rightarrow> ptr option \<Rightarrow> string option \<Rightarrow> theap \<Rightarrow> (ptr option \<times> theap) option" where
  "talloc_vasprintf env t formatted h =
     (case formatted of
        None \<Rightarrow> Some (None, h)
      | Some s \<Rightarrow>
          do { (r, h1) \<leftarrow> talloc_alloc env t (length s + 1) h;
               (case r of
                  None \<Rightarrow> Some (None, h1)
                | Some p \<Rightarrow>
                    do { h2 \<leftarrow> store_bytes p 0 (s @ [NUL]) h1;
                         h3 \<leftarrow> talloc_set_name_const p (Name_at p) h2;
                         Some (Some p, h3) }) })"

text \<open>The text is put where the block's last byte is, which need not be the end of the string.\<close>

definition talloc_vasprintf_append ::
  "tenv \<Rightarrow> ptr option \<Rightarrow> string option \<Rightarrow> theap \<Rightarrow> (ptr option \<times> theap) option" where
  "talloc_vasprintf_append env s formatted h =
     (case s of
        None \<Rightarrow> talloc_vasprintf env None formatted h
      | Some p \<Rightarrow>
          do { tc \<leftarrow> talloc_chunk_from_ptr p h;
               (case formatted of
                  None \<Rightarrow> Some (Some p, h)
                | Some a \<Rightarrow>
                    if a = [] then Some (Some p, h)
                    else if tc_size tc = 0 then None
                    else do { (r, h1) \<leftarrow> talloc_realloc_array env None (Some p) 1 (tc_size tc + length a)
                                         (Name_const ''char'') h;
                              (case r of
                                 None \<Rightarrow> Some (None, h1)
                               | Some q \<Rightarrow>
                                   do { h2 \<leftarrow> store_bytes q (tc_size tc - 1) (a @ [NUL]) h1;
                                        h3 \<leftarrow> talloc_set_name_const q (Name_at q) h2;
                                        Some (Some q, h3) }) }) })"

text \<open>With a variable number of arguments; the text they make is the parameter.\<close>

definition talloc_asprintf :: "tenv \<Rightarrow> ptr option \<Rightarrow> string option \<Rightarrow> theap \<Rightarrow> (ptr option \<times> theap) option" where
  "talloc_asprintf env t formatted h = talloc_vasprintf env t formatted h"

definition talloc_asprintf_append ::
  "tenv \<Rightarrow> ptr option \<Rightarrow> string option \<Rightarrow> theap \<Rightarrow> (ptr option \<times> theap) option" where
  "talloc_asprintf_append env s formatted h = talloc_vasprintf_append env s formatted h"

text \<open>Names from formatted text.\<close>

definition talloc_set_name_v ::
  "tenv \<Rightarrow> ptr \<Rightarrow> string option \<Rightarrow> theap \<Rightarrow> (ptr option \<times> theap) option" where
  "talloc_set_name_v env p formatted h =
     do { _ \<leftarrow> talloc_chunk_from_ptr p h;
          (r, h1) \<leftarrow> talloc_vasprintf env (Some p) formatted h;
          h2 \<leftarrow> upd p (tc_name_update (\<lambda>_. case r of None \<Rightarrow> Name_null | Some q \<Rightarrow> Name_at q)) h1;
          (case r of
             None \<Rightarrow> Some (None, h2)
           | Some q \<Rightarrow> do { h3 \<leftarrow> talloc_set_name_const q (Name_const ''.name'') h2; Some (Some q, h3) }) }"

definition talloc_named ::
  "tenv \<Rightarrow> ptr option \<Rightarrow> nat \<Rightarrow> string option \<Rightarrow> theap \<Rightarrow> (ptr option \<times> theap) option" where
  "talloc_named env ctx sz formatted h =
     do { (r, h1) \<leftarrow> talloc_alloc env ctx sz h;
          (case r of
             None \<Rightarrow> Some (None, h1)
           | Some p \<Rightarrow>
               do { (n, h2) \<leftarrow> talloc_set_name_v env p formatted h1;
                    if n = None then do { (_, h3) \<leftarrow> talloc_free env (Some p) h2; Some (None, h3) }
                    else Some (Some p, h2) }) }"

section \<open>The library's own contexts\<close>

definition talloc_enable_null_tracking :: "tenv \<Rightarrow> theap \<Rightarrow> theap option" where
  "talloc_enable_null_tracking env h =
     (if null_context h = None
      then do { (r, h1) \<leftarrow> talloc_named_const env None 0 (Name_const ''null_context'') h;
                Some (h1\<lparr>null_context := r\<rparr>) }
      else Some h)"

definition talloc_disable_null_tracking :: "tenv \<Rightarrow> theap \<Rightarrow> theap option" where
  "talloc_disable_null_tracking env h =
     do { (_, h1) \<leftarrow> talloc_free env (null_context h) h; Some (h1\<lparr>null_context := None\<rparr>) }"

text \<open>The functions the library has run at the end of the program.\<close>

datatype exit_handler = Report_null | Report_null_full | Autofree

definition talloc_enable_leak_report :: "tenv \<Rightarrow> theap \<Rightarrow> (exit_handler list \<times> theap) option" where
  "talloc_enable_leak_report env h =
     do { h1 \<leftarrow> talloc_enable_null_tracking env h; Some ([Report_null], h1) }"

definition talloc_enable_leak_report_full :: "tenv \<Rightarrow> theap \<Rightarrow> (exit_handler list \<times> theap) option" where
  "talloc_enable_leak_report_full env h =
     do { h1 \<leftarrow> talloc_enable_null_tracking env h; Some ([Report_null_full], h1) }"

definition talloc_init :: "tenv \<Rightarrow> string option \<Rightarrow> theap \<Rightarrow> (ptr option \<times> theap) option" where
  "talloc_init env formatted h =
     do { h1 \<leftarrow> talloc_enable_null_tracking env h; talloc_named env None 0 formatted h1 }"

text \<open>
  The block holds the process that made it, so that a child process makes its own. Registering
  \<open>talloc_autofree\<close> with \<open>atexit\<close> is left out.
\<close>

definition PID_SIZE :: nat where "PID_SIZE = 4"

definition load_num :: "ptr \<Rightarrow> theap \<Rightarrow> int option" where
  "load_num p h =
     do { c \<leftarrow> chunks h p; (case tc_data c of Num n # _ \<Rightarrow> Some n | _ \<Rightarrow> None) }"

definition talloc_autofree_context :: "tenv \<Rightarrow> int \<Rightarrow> theap \<Rightarrow> (ptr option \<times> theap) option" where
  "talloc_autofree_context env pid h =
     do { mine \<leftarrow> (case autofree_context h of
                    None \<Rightarrow> Some False
                  | Some a \<Rightarrow> map_option (\<lambda>n. n = pid) (load_num a h));
          if mine then Some (autofree_context h, h)
          else do { (r, h1) \<leftarrow> talloc_named_const env None PID_SIZE (Name_const ''pid_t'') h;
                    p \<leftarrow> r;
                    h2 \<leftarrow> store_cells p 0 [Num pid] (h1\<lparr>autofree_context := Some p\<rparr>);
                    h3 \<leftarrow> talloc_set_name_const p (Name_const ''autofree_context'') h2;
                    h4 \<leftarrow> talloc_set_destructor p Destr_autofree h3;
                    Some (Some p, h4) } }"

definition talloc_autofree :: "tenv \<Rightarrow> int \<Rightarrow> theap \<Rightarrow> theap option" where
  "talloc_autofree env pid h =
     (case autofree_context h of
        None \<Rightarrow> Some h
      | Some a \<Rightarrow>
          do { n \<leftarrow> load_num a h;
               if n = pid then map_option snd (talloc_free env (Some a) h) else Some h })"

end
