(* ===== verification/TallocLinks.thy ===== *)
theory TallocLinks
  imports TallocTree TallocData
begin

unbundle bit_operations_syntax

text \<open>
  The links of a heap seen one chunk at a time. \<open>well_linked h\<close> says that the links of the chunks are
  opposite to each other and point to chunks in use, and that all blocks come from \<open>malloc\<close>. It holds
  of every heap that hierarchies can be in, also of several at once, and is what allocating and resizing need to
  succeed. Both keep it, and change nothing of the other blocks but their links.
\<close>

section \<open>The invariant\<close>

definition field :: "(chunk \<Rightarrow> ptr option) \<Rightarrow> (ptr \<Rightarrow> chunk option) \<Rightarrow> ptr \<Rightarrow> ptr option" where
  "field f m p = (case m p of None \<Rightarrow> None | Some c \<Rightarrow> f c)"

lemma field_upd [simp]: "field f (m(p := c)) x = (if x = p then (case c of None \<Rightarrow> None | Some c \<Rightarrow> f c) else field f m x)"
  by (simp add: field_def)

lemma field_Some: "field f m p = Some q \<longleftrightarrow> (\<exists>c. m p = Some c \<and> f c = Some q)"
  by (simp add: field_def split: option.split)

definition opposite :: "(ptr \<Rightarrow> ptr option) \<Rightarrow> (ptr \<Rightarrow> ptr option) \<Rightarrow> bool" where
  "opposite F G \<longleftrightarrow> (\<forall>p q. F p = Some q \<longleftrightarrow> G q = Some p)"

lemma oppositeD: "opposite F G \<Longrightarrow> F p = Some q \<longleftrightarrow> G q = Some p"
  by (simp add: opposite_def)

definition chunk_ok :: "ptr \<Rightarrow> chunk \<Rightarrow> bool" where
  "chunk_ok p c \<longleftrightarrow>
     tc_flags c AND (TALLOC_FLAG_FREE OR NOT 0xF) = TALLOC_MAGIC \<and> length (tc_data c) = tc_size c \<and>
     (tc_parent c \<noteq> None \<longrightarrow> tc_prev c = None) \<and> tc_parent c \<noteq> Some p \<and> tc_next c \<noteq> Some p"

definition links_ok :: "theap \<Rightarrow> bool" where
  "links_ok h \<longleftrightarrow>
     opposite (field tc_next (chunks h)) (field tc_prev (chunks h)) \<and>
     opposite (field tc_child (chunks h)) (field tc_parent (chunks h)) \<and>
     (\<forall>p c. chunks h p = Some c \<longrightarrow> chunk_ok p c) \<and> finite {p. chunks h p \<noteq> None}"

text \<open>No block comes from an external allocator.\<close>

definition internal :: "theap \<Rightarrow> bool" where
  "internal h \<longleftrightarrow> (\<forall>p c. chunks h p = Some c \<longrightarrow> \<not> has_flag TALLOC_FLAG_EXT_ALLOC c)"

definition well_linked :: "theap \<Rightarrow> bool" where
  "well_linked h \<longleftrightarrow>
     links_ok h \<and> internal h \<and> (\<forall>n. null_context h = Some n \<longrightarrow> chunks h n \<noteq> None)"

lemma linkD:
  assumes "links_ok h" "chunks h p = Some c"
  shows "tc_next c = Some q \<Longrightarrow> \<exists>d. chunks h q = Some d \<and> tc_prev d = Some p"
    and "tc_prev c = Some q \<Longrightarrow> \<exists>d. chunks h q = Some d \<and> tc_next d = Some p"
    and "tc_child c = Some q \<Longrightarrow> \<exists>d. chunks h q = Some d \<and> tc_parent d = Some p"
    and "tc_parent c = Some q \<Longrightarrow> \<exists>d. chunks h q = Some d \<and> tc_child d = Some p"
    and "chunk_ok p c"
proof -
  have o: "opposite (field tc_next (chunks h)) (field tc_prev (chunks h))"
    "opposite (field tc_child (chunks h)) (field tc_parent (chunks h))"
    using assms(1) by (simp_all add: links_ok_def)
  have f: "field f (chunks h) p = f c" for f using assms(2) by (simp add: field_def)
  note n = oppositeD [OF o(1)] and k = oppositeD [OF o(2)]
  show "tc_next c = Some q \<Longrightarrow> \<exists>d. chunks h q = Some d \<and> tc_prev d = Some p"
    using n [of p q] unfolding f field_Some by simp
  show "tc_prev c = Some q \<Longrightarrow> \<exists>d. chunks h q = Some d \<and> tc_next d = Some p"
    using n [of q p] unfolding f field_Some by simp
  show "tc_child c = Some q \<Longrightarrow> \<exists>d. chunks h q = Some d \<and> tc_parent d = Some p"
    using k [of p q] unfolding f field_Some by simp
  show "tc_parent c = Some q \<Longrightarrow> \<exists>d. chunks h q = Some d \<and> tc_child d = Some p"
    using k [of q p] unfolding f field_Some by simp
  show "chunk_ok p c" using assms by (simp add: links_ok_def)
qed

lemma well_linkedD:
  assumes "well_linked h"
  shows "links_ok h" "internal h" "null_context h = Some n \<Longrightarrow> chunks h n \<noteq> None"
    "chunks h p = Some c \<Longrightarrow> \<not> has_flag TALLOC_FLAG_EXT_ALLOC c"
  using assms by (auto simp: well_linked_def internal_def)

lemmas linkedD = linkD [OF well_linkedD(1)]

lemma link_valid: "links_ok h \<Longrightarrow> chunks h p = Some c \<Longrightarrow> talloc_chunk_from_ptr p h = Some c"
  using linkD(5) [of h p c] by (simp add: talloc_chunk_from_ptr_def chunk_ok_def)

lemmas linked_valid = link_valid [OF well_linkedD(1)]

lemma linked_null: "well_linked h \<Longrightarrow> null_context h = Some n \<Longrightarrow> chunks h n \<noteq> None"
  by (simp add: well_linked_def)

text \<open>Changing a chunk other than its links.\<close>

definition chunk_links :: "chunk \<Rightarrow> ptr option \<times> ptr option \<times> ptr option \<times> ptr option" where
  "chunk_links c = (tc_next c, tc_prev c, tc_parent c, tc_child c)"

lemma linked_upd:
  assumes "well_linked h" "chunks h p = Some c" "chunk_links c' = chunk_links c" "chunk_ok p c'"
    and "tc_flags c' = tc_flags c"
  shows "well_linked (h\<lparr>chunks := (chunks h)(p \<mapsto> c')\<rparr>)"
proof -
  have l: "tc_next c' = tc_next c" "tc_prev c' = tc_prev c" "tc_parent c' = tc_parent c" "tc_child c' = tc_child c"
    using assms(3) by (simp_all add: chunk_links_def)
  have "field f ((chunks h)(p \<mapsto> c')) = field f (chunks h)" if "f c' = f c" for f
    using assms(2) that by (auto simp: fun_eq_iff field_def)
  moreover have "{x. ((chunks h)(p \<mapsto> c')) x \<noteq> None} = {x. chunks h x \<noteq> None}"
    using assms(2) by auto
  ultimately show ?thesis
    using assms(1,2,4,5) l by (auto simp: well_linked_def links_ok_def internal_def has_flag_def)
qed

section \<open>Allocation\<close>

lemma opposite_push:
  assumes "opposite N P" "N p = None" "P p = None" "\<And>k. K = Some k \<Longrightarrow> P k = None \<and> k \<noteq> p"
  shows "opposite (N(p := K)) (\<lambda>x. if K = Some x then Some p else P x)"
  unfolding opposite_def
proof (intro allI)
  fix x y
  have i: "\<And>a b. N a = Some b \<longleftrightarrow> P b = Some a" using assms(1) by (simp add: opposite_def)
  show "(N(p := K)) x = Some y \<longleftrightarrow> (if K = Some y then Some p else P y) = Some x"
    using assms(2-4) i [of p y] by (auto simp: i)
qed

lemma opposite_child:
  assumes "opposite C Q" "C p = None" "Q p = None" "C q = K" "p \<noteq> q"
  shows "opposite (C(q := Some p)) (\<lambda>x. if x = p then Some q else if K = Some x then None else Q x)"
  unfolding opposite_def
proof (intro allI)
  fix x y
  have i: "\<And>a b. C a = Some b \<longleftrightarrow> Q b = Some a" using assms(1) by (simp add: opposite_def)
  show "(C(q := Some p)) x = Some y \<longleftrightarrow> (if y = p then Some q else if K = Some y then None else Q y) = Some x"
    using assms(2-5) i [of q y] i [of x y] i [of x p] by auto
qed

lemma new_chunk_ok: "q \<noteq> Some p \<Longrightarrow> k \<noteq> Some p \<Longrightarrow> chunk_ok p (new_chunk sz e q k)"
  by (simp add: chunk_ok_def new_chunk_def TALLOC_MAGIC_def TALLOC_FLAG_FREE_def TALLOC_FLAG_EXT_ALLOC_def)

lemma new_chunk_internal: "has_flag TALLOC_FLAG_EXT_ALLOC (new_chunk sz e q k) \<longleftrightarrow> e"
  by (simp add: has_flag_def new_chunk_def TALLOC_MAGIC_def TALLOC_FLAG_EXT_ALLOC_def)

lemma link_init_root:
  assumes "links_ok h" "chunks h p = None"
  shows "links_ok (h\<lparr>chunks := (chunks h)(p \<mapsto> new_chunk sz e None None)\<rparr>)"
proof -
  let ?m = "(chunks h)(p \<mapsto> new_chunk sz e None None)"
  have "field f ?m = field f (chunks h)" if "f (new_chunk sz e None None) = None" for f
    using that assms(2) by (auto simp: fun_eq_iff field_def)
  moreover have "{x. ?m x \<noteq> None} = insert p {x. chunks h x \<noteq> None}" by auto
  moreover have "tc_next (new_chunk sz e None None) = None" "tc_prev (new_chunk sz e None None) = None"
    "tc_child (new_chunk sz e None None) = None" "tc_parent (new_chunk sz e None None) = None"
    by (simp_all add: new_chunk_def)
  ultimately show ?thesis
    using assms(1) new_chunk_ok [of None p None sz e] by (auto simp: links_ok_def)
qed

lemma linked_init_root:
  assumes "well_linked h" "chunks h p = None"
  shows "well_linked (h\<lparr>chunks := (chunks h)(p \<mapsto> new_chunk sz False None None)\<rparr>)"
  using assms(1) link_init_root [OF well_linkedD(1) assms(2)] new_chunk_internal [of sz False None None]
  by (simp add: well_linked_def internal_def)

text \<open>The heap after \<open>init_talloc\<close> put the block \<open>p\<close> under \<open>q\<close>.\<close>

definition with_child :: "ptr \<Rightarrow> ptr \<Rightarrow> nat \<Rightarrow> theap \<Rightarrow> theap" where
  "with_child q p sz h =
     (let k = field tc_child (chunks h) q;
          m = (case k of None \<Rightarrow> chunks h
               | Some x \<Rightarrow> (chunks h)(x := map_option (\<lambda>c. c\<lparr>tc_parent := None, tc_prev := Some p\<rparr>) (chunks h x)))
      in h\<lparr>chunks := m(q := map_option (tc_child_update (\<lambda>_. Some p)) (m q), p \<mapsto> new_chunk sz False (Some q) k)\<rparr>)"

lemma init_child:
  assumes "well_linked h" "chunks h q \<noteq> None" "chunks h p = None"
  shows "init_talloc (Some q) (Some p) sz False h = Some (Some p, with_child q p sz h)"
proof -
  from assms(2) obtain qc where qc: "chunks h q = Some qc" by blast
  show ?thesis
  proof (cases "tc_child qc")
    case None
    with qc show ?thesis
      by (simp add: init_talloc_def with_child_def upd_opt_def upd_def Let_def field_def)
  next
    case (Some k)
    from linkedD(3) [OF assms(1) qc Some] obtain kc where kc: "chunks h k = Some kc" "tc_parent kc = Some q"
      by blast
    with linkedD(5) [OF assms(1) kc(1)] have "k \<noteq> q" by (auto simp: chunk_ok_def)
    with qc Some kc show ?thesis
      by (simp add: init_talloc_def with_child_def upd_opt_def upd_def Let_def field_def)
  qed
qed

lemma with_child_other:
  assumes "x \<noteq> p"
  shows "content (with_child q p sz h) x = content h x"
proof -
  have "payload (c\<lparr>tc_parent := a, tc_prev := b\<rparr>) = payload c" for c :: chunk and a b
    by (simp add: payload_def)
  then show ?thesis using assms
    by (auto simp: with_child_def content_def Let_def option.map_comp o_def split: option.splits)
qed

lemma linked_with_child:
  assumes "well_linked h" "chunks h q \<noteq> None" "chunks h p = None"
  shows "well_linked (with_child q p sz h)"
proof -
  from assms(2) obtain qc where qc: "chunks h q = Some qc" by blast
  let ?m = "chunks h" and ?m' = "chunks (with_child q p sz h)"
  let ?k = "tc_child qc"
  have pq: "p \<noteq> q" using assms(3) qc by auto
  have fn: "field f ?m p = None" for f using assms(3) by (simp add: field_def)
  have fq: "field tc_child ?m q = ?k" using qc by (simp add: field_def)
  have k: "\<exists>kc. ?m k = Some kc \<and> tc_parent kc = Some q \<and> tc_prev kc = None \<and> k \<noteq> q \<and> k \<noteq> p"
    if "?k = Some k" for k
    using linkedD(3) [OF assms(1) qc that] linkedD(5) [OF assms(1), of k] assms(3)
    by (auto simp: chunk_ok_def)
  have nx: "field tc_next ?m' = (field tc_next ?m)(p := ?k)"
    using k qc pq by (cases ?k) (auto simp: with_child_def fq Let_def new_chunk_def fun_eq_iff field_def)
  have pv: "field tc_prev ?m' = (\<lambda>x. if ?k = Some x then Some p else field tc_prev ?m x)"
    using k qc pq fn [of tc_prev]
    by (cases ?k) (auto simp: with_child_def fq Let_def new_chunk_def fun_eq_iff field_def)
  have ch: "field tc_child ?m' = (field tc_child ?m)(q := Some p)"
    using k qc pq fn [of tc_child]
    by (cases ?k) (auto simp: with_child_def fq Let_def new_chunk_def fun_eq_iff field_def)
  have pa: "field tc_parent ?m' = (\<lambda>x. if x = p then Some q else if ?k = Some x then None else field tc_parent ?m x)"
    using k qc pq by (cases ?k) (auto simp: with_child_def fq Let_def new_chunk_def fun_eq_iff field_def)
  have inv: "opposite (field tc_next ?m) (field tc_prev ?m)" "opposite (field tc_child ?m) (field tc_parent ?m)"
    using assms(1) by (simp_all add: well_linked_def links_ok_def)
  have fk: "field tc_prev ?m x = None \<and> x \<noteq> p" if "?k = Some x" for x
    using k [OF that] by (auto simp: field_def)
  have "opposite (field tc_next ?m') (field tc_prev ?m')"
    unfolding nx pv by (rule opposite_push [OF inv(1) fn fn fk])
  moreover have "opposite (field tc_child ?m') (field tc_parent ?m')"
    unfolding ch pa by (rule opposite_child [OF inv(2) fn fn fq pq])
  moreover have "chunk_ok x c" if "?m' x = Some c" for x c
    using that k qc pq linkedD(5) [OF assms(1)] new_chunk_ok [of "Some q" p ?k sz False]
    by (cases ?k) (auto simp: with_child_def fq Let_def chunk_ok_def split: if_splits)
  moreover have d: "{x. ?m' x \<noteq> None} = insert p {x. ?m x \<noteq> None}"
    using k qc by (cases ?k) (auto simp: with_child_def fq Let_def)
  moreover have "null_context (with_child q p sz h) = null_context h"
    by (simp add: with_child_def Let_def)
  moreover have "?m' n \<noteq> None" if "null_context h = Some n" for n
  proof -
    have "n \<in> {x. ?m x \<noteq> None}" using linked_null [OF assms(1) that] by simp
    with d show ?thesis by blast
  qed
  moreover have "finite {x. ?m x \<noteq> None}" using assms(1) by (simp add: well_linked_def links_ok_def)
  moreover have "internal (with_child q p sz h)"
    using k qc well_linkedD(4) [OF assms(1)] new_chunk_internal [of sz False "Some q" ?k]
    by (cases ?k) (auto simp: internal_def with_child_def fq Let_def has_flag_def split: if_splits)
  ultimately show ?thesis unfolding well_linked_def links_ok_def by simp
qed

text \<open>
  What a block allocated at \<open>p\<close> is, whatever its place: the heap keeps its invariant and all
  other blocks their contents.
\<close>

definition fresh_block :: "ptr \<Rightarrow> tname \<Rightarrow> nat \<Rightarrow> theap \<Rightarrow> theap \<Rightarrow> bool" where
  "fresh_block p name sz h h' \<longleftrightarrow>
     well_linked h' \<and> chunks h p = None \<and>
     content h' p = Some (name, sz, TALLOC_MAGIC, replicate sz Undef, None, Destr_none) \<and>
     (\<forall>x. x \<noteq> p \<longrightarrow> content h' x = content h x) \<and> null_context h' = null_context h"

lemma alloc_fresh:
  assumes "well_linked h" "\<And>q. ctx = Some q \<Longrightarrow> chunks h q \<noteq> None" "sz < MAX_TALLOC_SIZE"
    and "t_malloc env sz h = Some p" "chunks h p = None"
  shows "\<exists>h'. talloc_alloc env ctx sz h = Some (Some p, h') \<and> fresh_block p Name_null sz h h'"
proof -
  define c where "c = (case ctx of None \<Rightarrow> null_context h | Some p \<Rightarrow> Some p)"
  show ?thesis
  proof (cases c)
    case None
    then have "talloc_alloc env ctx sz h
        = Some (Some p, h\<lparr>chunks := (chunks h)(p \<mapsto> new_chunk sz False None None)\<rparr>)"
      using assms(3,4) by (simp add: talloc_alloc_def c_def init_talloc_def Let_def)
    moreover have "fresh_block p Name_null sz h (h\<lparr>chunks := (chunks h)(p \<mapsto> new_chunk sz False None None)\<rparr>)"
      using linked_init_root [OF assms(1,5)] assms(5)
      by (simp add: fresh_block_def content_def payload_def new_chunk_def)
    ultimately show ?thesis by blast
  next
    case (Some q)
    then have q: "chunks h q \<noteq> None"
      using assms(2) linked_null [OF assms(1)] by (auto simp: c_def split: option.splits)
    then obtain qc where qc: "chunks h q = Some qc" by blast
    then have "talloc_alloc env ctx sz h = Some (Some p, with_child q p sz h)"
      using Some assms(3,4) well_linkedD(4) [OF assms(1) qc] init_child [OF assms(1) q assms(5)] linked_valid [OF assms(1)]
      by (simp add: talloc_alloc_def c_def [symmetric] Let_def)
    moreover have "fresh_block p Name_null sz h (with_child q p sz h)"
      using linked_with_child [OF assms(1) q assms(5)] with_child_other [of _ p q sz h] assms(5)
      by (simp add: fresh_block_def content_def [of _ p] with_child_def Let_def payload_def new_chunk_def)
    ultimately show ?thesis by blast
  qed
qed

section \<open>Contents\<close>

text \<open>\<open>block h p d\<close>: the bytes of the block \<open>p\<close>, which nobody references, are \<open>d\<close>.\<close>

definition block :: "theap \<Rightarrow> ptr \<Rightarrow> cell list \<Rightarrow> bool" where
  "block h p d \<longleftrightarrow> (\<exists>c. chunks h p = Some c \<and> tc_data c = d \<and> tc_refs c = None)"

lemma block_content: "content h' p = content h p \<Longrightarrow> block h' p d = block h p d"
  by (cases "chunks h p"; cases "chunks h' p") (auto simp: content_def block_def payload_def)

text \<open>A step of the heap that keeps the blocks other than \<open>p\<close>.\<close>

definition keeps :: "ptr \<Rightarrow> theap \<Rightarrow> theap \<Rightarrow> bool" where
  "keeps p h h' \<longleftrightarrow>
     well_linked h' \<and> null_context h' = null_context h \<and>
     (\<forall>x. x \<noteq> p \<longrightarrow> chunks h x \<noteq> None \<longrightarrow> content h' x = content h x)"

lemma keeps_block: "keeps p h h' \<Longrightarrow> x \<noteq> p \<Longrightarrow> block h x d \<Longrightarrow> block h' x d"
  by (subst block_content [of h' x h]) (auto simp: keeps_def block_def)

lemma keeps_allocated: "keeps p h h' \<Longrightarrow> x \<noteq> p \<Longrightarrow> chunks h x \<noteq> None \<Longrightarrow> chunks h' x \<noteq> None"
  unfolding keeps_def content_def by (metis map_option_is_None)

lemma keeps_trans: "keeps p h h1 \<Longrightarrow> keeps p h1 h2 \<Longrightarrow> keeps p h h2"
  using keeps_allocated [of p h h1] by (auto simp: keeps_def)

lemma block_allocated: "block h p d \<Longrightarrow> chunks h p \<noteq> None"
  by (auto simp: block_def)

lemma named_alloc:
  assumes "well_linked h" "\<And>q. ctx = Some q \<Longrightarrow> chunks h q \<noteq> None" "sz < MAX_TALLOC_SIZE"
    and "t_malloc env sz h = Some p" "chunks h p = None"
  shows "\<exists>h'. talloc_named_const env ctx sz name h = Some (Some p, h') \<and> keeps p h h' \<and>
    block h' p (replicate sz Undef)"
proof -
  from alloc_fresh [OF assms] obtain h1 where
    h1: "talloc_alloc env ctx sz h = Some (Some p, h1)" "fresh_block p Name_null sz h h1" by blast
  then obtain c where c: "chunks h1 p = Some c" "tc_data c = replicate sz Undef" "tc_refs c = None"
    by (auto simp: fresh_block_def content_def payload_def)
  define h' where "h' = h1\<lparr>chunks := (chunks h1)(p \<mapsto> c\<lparr>tc_name := name\<rparr>)\<rparr>"
  have l: "well_linked h1" using h1(2) by (simp add: fresh_block_def)
  have "well_linked h'" unfolding h'_def
    by (rule linked_upd [OF l c(1)]) (use linkedD(5) [OF l c(1)] in \<open>auto simp: chunk_links_def chunk_ok_def\<close>)
  moreover have "talloc_named_const env ctx sz name h = Some (Some p, h')"
    using h1(1) c(1) linked_valid [OF l c(1)]
    by (simp add: talloc_named_const_def talloc_set_name_const_def upd_def h'_def)
  ultimately show ?thesis
    using h1(2) c by (auto simp: keeps_def block_def fresh_block_def h'_def content_def)
qed

text \<open>A write to a block that leaves its links, size and flags alone.\<close>

lemma upd_block:
  assumes "well_linked h" "block h p d" "length (g d) = length d"
    and "\<And>c. chunk_links (f c) = chunk_links c" "\<And>c. tc_flags (f c) = tc_flags c" "\<And>c. tc_size (f c) = tc_size c"
    and "\<And>c. tc_refs (f c) = tc_refs c" "\<And>c. tc_data (f c) = g (tc_data c)"
  shows "\<exists>h'. upd p f h = Some h' \<and> keeps p h h' \<and> block h' p (g d)"
proof -
  from assms(2) obtain c where c: "chunks h p = Some c" "tc_data c = d" "tc_refs c = None"
    by (auto simp: block_def)
  define h' where "h' = h\<lparr>chunks := (chunks h)(p \<mapsto> f c)\<rparr>"
  have "well_linked h'" unfolding h'_def
    by (rule linked_upd [OF assms(1) c(1)])
       (use linkedD(5) [OF assms(1) c(1)] c(2) assms(3) assms(4-8) [of c] in \<open>auto simp: chunk_links_def chunk_ok_def\<close>)
  moreover have "upd p f h = Some h'" using c by (simp add: upd_def h'_def)
  ultimately show ?thesis using c assms(7,8) by (auto simp: keeps_def block_def h'_def content_def)
qed

lemma store_cells_block:
  assumes "well_linked h" "block h p d" "off + length cs \<le> length d"
  shows "\<exists>h'. store_cells p off cs h = Some h' \<and> keeps p h h' \<and> block h' p (put_cells off cs d)"
  using upd_block [OF assms(1,2), where g = "put_cells off cs" and f = "tc_data_update (put_cells off cs)"] assms(2,3)
  by (auto simp: store_cells_def put_cells_def chunk_links_def block_def)

lemma store_ptr_block:
  assumes "well_linked h" "block h p d" "off + 8 \<le> length d"
  shows "\<exists>h'. store_ptr p off q h = Some h' \<and> keeps p h h' \<and> block h' p (d[off := Pointer q])"
  using upd_block [OF assms(1,2), where g = "\<lambda>d. d[off := Pointer q]" and f = "tc_data_update (\<lambda>d. d[off := Pointer q])"] assms(2,3)
  by (auto simp: store_ptr_def chunk_links_def block_def)

lemma set_name_block:
  assumes "well_linked h" "block h p d"
  shows "\<exists>h'. talloc_set_name_const p name h = Some h' \<and> keeps p h h' \<and> block h' p d"
  using upd_block [OF assms, where g = "\<lambda>d. d" and f = "tc_name_update (\<lambda>_. name)"] assms linked_valid [OF assms(1)]
  by (auto simp: talloc_set_name_const_def chunk_links_def block_def)

section \<open>Resizing\<close>

lemma opposite_move:
  assumes "opposite N P" "N p = n" "P p = v" "n \<noteq> Some p" "q = p \<or> N q = None \<and> P q = None"
  shows "opposite (\<lambda>x. if v = Some x then Some q else if x = q then n else if x = p then None else N x)
     (\<lambda>x. if n = Some x then Some q else if x = q then v else if x = p then None else P x)"
  unfolding opposite_def
proof (intro allI)
  fix x y
  have i: "\<And>a b. N a = Some b \<longleftrightarrow> P b = Some a" using assms(1) by (simp add: opposite_def)
  show "(if v = Some x then Some q else if x = q then n else if x = p then None else N x) = Some y \<longleftrightarrow>
     (if n = Some y then Some q else if y = q then v else if y = p then None else P y) = Some x"
    using assms(2-5) i [of p p] i [of x y] i [of x p] i [of p y] i [of q y] i [of x q] i [of p x] i [of y p]
    by (cases "x = p"; cases "y = p"; cases "x = q"; cases "y = q"; auto)
qed

lemma upd_opt_total:
  assumes "\<And>x. t = Some x \<Longrightarrow> chunks h x \<noteq> None"
  shows "upd_opt t f h = Some (h\<lparr>chunks := (\<lambda>x. if t = Some x then map_option f (chunks h x) else chunks h x)\<rparr>)"
  using assms by (cases t) (auto simp: upd_opt_def upd_def intro!: theap_eqI)

lemma clear_free:
  assumes "f AND (TALLOC_FLAG_FREE OR NOT 0xF) = TALLOC_MAGIC"
  shows "(f OR TALLOC_FLAG_FREE) AND NOT TALLOC_FLAG_FREE = f"
proof -
  have "\<not> bit f 0"
  proof
    assume "bit f 0"
    then have "bit (f AND (TALLOC_FLAG_FREE OR NOT 0xF)) 0"
      by (simp add: bit_simps TALLOC_FLAG_FREE_def)
    then show False unfolding assms by (simp add: TALLOC_MAGIC_def)
  qed
  then show ?thesis
    by (intro bit_word_eqI) (auto simp: bit_simps TALLOC_FLAG_FREE_def bit_1_iff intro!: gr0I)
qed

text \<open>The heap after a block moved from \<open>p\<close> to \<open>q\<close>, where it is \<open>d\<close>: \<open>c\<close> is the chunk it was.\<close>

definition repoint :: "ptr \<Rightarrow> chunk \<Rightarrow> ptr \<Rightarrow> chunk \<Rightarrow> chunk" where
  "repoint q c x d =
     d\<lparr>tc_child := (if tc_parent c = Some x then Some q else tc_child d),
       tc_parent := (if tc_child c = Some x then Some q else tc_parent d),
       tc_next := (if tc_prev c = Some x then Some q else tc_next d),
       tc_prev := (if tc_next c = Some x then Some q else tc_prev d)\<rparr>"

definition moved :: "ptr \<Rightarrow> ptr \<Rightarrow> chunk \<Rightarrow> chunk \<Rightarrow> theap \<Rightarrow> theap" where
  "moved p q c d h =
     h\<lparr>chunks := (\<lambda>x. if x = q then Some d else if x = p then None
                       else map_option (repoint q c x) (chunks h x))\<rparr>"

lemma payload_repoint [simp]: "payload (repoint q c x d) = payload d"
  by (simp add: payload_def repoint_def)

text \<open>The links of a chunk point to other chunks in use.\<close>

lemma linked_targets:
  assumes "links_ok h" "chunks h p = Some c"
  shows "\<exists>x. t = Some x \<and> (tc_next c = t \<or> tc_prev c = t \<or> tc_child c = t \<or> tc_parent c = t) \<Longrightarrow>
    \<exists>x. t = Some x \<and> x \<noteq> p \<and> chunks h x \<noteq> None"
  using linkD [OF assms] linkD(5) [OF assms(1)] assms(2) by (fastforce simp: chunk_ok_def)

lemma linked_elsewhere:
  assumes "links_ok h" "chunks h p = Some c" "q = p \<or> chunks h q = None"
    and "tc_next c = Some x \<or> tc_prev c = Some x \<or> tc_child c = Some x \<or> tc_parent c = Some x"
  shows "x \<noteq> p \<and> x \<noteq> q \<and> chunks h x \<noteq> None"
  using linked_targets [OF assms(1,2), of "Some x"] assms(3,4) by auto

lemma linked_moved:
  assumes "links_ok h" "chunks h p = Some c" "q = p \<or> chunks h q = None"
    and "chunk_links d = chunk_links c" "chunk_ok q d"
  shows "links_ok (moved p q c d h)"
proof -
  let ?m = "chunks h" and ?m' = "chunks (moved p q c d h)"
  have l: "tc_next d = tc_next c" "tc_prev d = tc_prev c" "tc_parent d = tc_parent c" "tc_child d = tc_child c"
    using assms(4) by (simp_all add: chunk_links_def)
  have fp: "field f ?m p = f c" for f using assms(2) by (simp add: field_def)
  have fq: "q = p \<or> field f ?m q = None \<and> field g ?m q = None" for f g
    using assms(3) by (auto simp: field_def)
  have inv: "opposite (field tc_next ?m) (field tc_prev ?m)" "opposite (field tc_child ?m) (field tc_parent ?m)"
    using assms(1) by (simp_all add: links_ok_def)
  note T = linked_elsewhere [OF assms(1-3)]
  have ne: "tc_next c \<noteq> Some p" "tc_prev c \<noteq> Some p" "tc_child c \<noteq> Some p" "tc_parent c \<noteq> Some p"
    and nq: "tc_next c \<noteq> Some q" "tc_prev c \<noteq> Some q" "tc_child c \<noteq> Some q" "tc_parent c \<noteq> Some q"
    using T by blast+
  have at: "tc_next c = Some x \<Longrightarrow> ?m x \<noteq> None" "tc_prev c = Some x \<Longrightarrow> ?m x \<noteq> None"
    "tc_child c = Some x \<Longrightarrow> ?m x \<noteq> None" "tc_parent c = Some x \<Longrightarrow> ?m x \<noteq> None" for x
    using T by blast+
  have m': "?m' x = (if x = q then Some d else if x = p then None else map_option (repoint q c x) (?m x))" for x
    by (simp add: moved_def)
  have f': "field tc_next ?m' = (\<lambda>x. if tc_prev c = Some x then Some q else if x = q then tc_next c
        else if x = p then None else field tc_next ?m x)"
    "field tc_prev ?m' = (\<lambda>x. if tc_next c = Some x then Some q else if x = q then tc_prev c
        else if x = p then None else field tc_prev ?m x)"
    "field tc_child ?m' = (\<lambda>x. if tc_parent c = Some x then Some q else if x = q then tc_child c
        else if x = p then None else field tc_child ?m x)"
    "field tc_parent ?m' = (\<lambda>x. if tc_child c = Some x then Some q else if x = q then tc_parent c
        else if x = p then None else field tc_parent ?m x)"
    using nq ne at unfolding field_def m' by (auto simp: fun_eq_iff l repoint_def split: option.split)
  have "opposite (field tc_next ?m') (field tc_prev ?m')"
    unfolding f' by (rule opposite_move [OF inv(1) fp fp ne(1) fq])
  moreover have "opposite (field tc_child ?m') (field tc_parent ?m')"
    unfolding f' by (rule opposite_move [OF inv(2) fp fp ne(3) fq])
  moreover have "chunk_ok x e" if "?m' x = Some e" for x e
  proof (cases "x = q")
    case True
    with that assms(5) show ?thesis by (simp add: m')
  next
    case False
    with that obtain e0 where e0: "x \<noteq> p" "?m x = Some e0" "e = repoint q c x e0" by (auto simp: m' split: if_splits)
    note ok0 = linkD(5) [OF assms(1) e0(2)]
    have "tc_next c = Some x \<Longrightarrow> tc_parent e0 = None"
      using linkD(1) [OF assms(1,2), of x] ok0 e0(2) by (auto simp: chunk_ok_def)
    moreover have "tc_child c = Some x \<Longrightarrow> tc_prev e0 = None \<and> tc_next c \<noteq> Some x"
      using linkD(3) [OF assms(1,2), of x] linkD(1) [OF assms(1,2), of x] ok0 e0(2) by (auto simp: chunk_ok_def)
    ultimately show ?thesis using ok0 False
      by (auto simp: e0(3) chunk_ok_def repoint_def)
  qed
  moreover have "finite {x. ?m' x \<noteq> None}"
  proof (rule finite_subset)
    show "{x. ?m' x \<noteq> None} \<subseteq> insert q {x. ?m x \<noteq> None}" by (auto simp: m')
    show "finite (insert q {x. ?m x \<noteq> None})" using assms(1) by (simp add: links_ok_def)
  qed
  ultimately show ?thesis unfolding links_ok_def by simp
qed

lemma neighbours_repointed:
  assumes ok: "links_ok h" and c: "chunks h p = Some c" and q: "q = p \<or> chunks h q = None"
    and e: "chunk_links e = chunk_links c"
  defines "h3 \<equiv> h\<lparr>chunks := (chunks h)(p := None, q \<mapsto> e)\<rparr>"
  shows "\<exists>h4 h5 h6 h7. upd_opt (tc_parent c) (tc_child_update (\<lambda>_. Some q)) h3 = Some h4 \<and>
    upd_opt (tc_child c) (tc_parent_update (\<lambda>_. Some q)) h4 = Some h5 \<and>
    upd_opt (tc_prev c) (tc_next_update (\<lambda>_. Some q)) h5 = Some h6 \<and>
    upd_opt (tc_next c) (tc_prev_update (\<lambda>_. Some q)) h6 = Some h7 \<and>
    chunks h7 q = Some e \<and> (\<forall>d. h7\<lparr>chunks := (chunks h7)(q \<mapsto> d)\<rparr> = moved p q c d h)"
proof -
  note T = linked_elsewhere [OF ok c q]
  define u where "u = (\<lambda>t (f :: chunk \<Rightarrow> chunk) (g :: theap).
    g\<lparr>chunks := (\<lambda>x. if t = Some x then map_option f (chunks g x) else chunks g x)\<rparr>)"
  define h4 where "h4 = u (tc_parent c) (tc_child_update (\<lambda>_. Some q)) h3"
  define h5 where "h5 = u (tc_child c) (tc_parent_update (\<lambda>_. Some q)) h4"
  define h6 where "h6 = u (tc_prev c) (tc_next_update (\<lambda>_. Some q)) h5"
  define h7 where "h7 = u (tc_next c) (tc_prev_update (\<lambda>_. Some q)) h6"
  note hs = h3_def h4_def h5_def h6_def h7_def
  have "upd_opt (tc_parent c) (tc_child_update (\<lambda>_. Some q)) h3 = Some h4"
    unfolding h4_def u_def by (rule upd_opt_total) (use T in \<open>auto simp: h3_def\<close>)
  moreover have "upd_opt (tc_child c) (tc_parent_update (\<lambda>_. Some q)) h4 = Some h5"
    unfolding h5_def u_def by (rule upd_opt_total) (use T in \<open>auto simp: h3_def h4_def u_def\<close>)
  moreover have "upd_opt (tc_prev c) (tc_next_update (\<lambda>_. Some q)) h5 = Some h6"
    unfolding h6_def u_def by (rule upd_opt_total) (use T in \<open>auto simp: h3_def h4_def h5_def u_def\<close>)
  moreover have "upd_opt (tc_next c) (tc_prev_update (\<lambda>_. Some q)) h6 = Some h7"
    unfolding h7_def u_def by (rule upd_opt_total) (use T in \<open>auto simp: h3_def h4_def h5_def h6_def u_def\<close>)
  moreover have "chunks h7 q = Some e" using T by (auto simp: hs u_def)
  moreover have "h7\<lparr>chunks := (chunks h7)(q \<mapsto> d)\<rparr> = moved p q c d h" for d
  proof (rule theap_eqI)
    fix x
    consider "x = q" | "x \<noteq> q" "x = p" | "x \<noteq> q" "x \<noteq> p" by blast
    then show "chunks (h7\<lparr>chunks := (chunks h7)(q \<mapsto> d)\<rparr>) x = chunks (moved p q c d h) x"
    proof cases
      case 1 then show ?thesis by (simp add: moved_def)
    next
      case 2 then show ?thesis using T by (auto simp: moved_def hs u_def)
    next
      case 3 then show ?thesis
        by (cases "chunks h x") (simp_all add: moved_def hs u_def repoint_def)
    qed
  qed (simp_all add: hs u_def moved_def)
  ultimately show ?thesis by blast
qed

lemma realloc_moved:
  assumes "links_ok h" "chunks h p = Some c" "tc_refs c = None" "0 < sz" "sz < MAX_TALLOC_SIZE"
    and par: "(if has_flag TALLOC_FLAG_EXT_ALLOC c then relock env (talloc_parent (Some p) h) else Some None) = Some par"
    and q: "(let g = h\<lparr>chunks := (chunks h)(p \<mapsto> set_flag TALLOC_FLAG_FREE c)\<rparr> in
        if has_flag TALLOC_FLAG_EXT_ALLOC c then t_external env par (Some p) sz g else t_realloc env p sz g) = Some q"
      "q = p \<or> chunks h q = None"
    and d: "d = c\<lparr>tc_data := resize_cells sz (tc_data c), tc_size := sz, tc_name := name\<rparr>"
  shows "talloc_realloc env ctx (Some p) sz name h = Some (Some q, moved p q c d h)"
proof -
  define e where "e = c\<lparr>tc_data := resize_cells sz (tc_data c)\<rparr>"
  have ok: "chunk_ok p c" using linkD(5) [OF assms(1,2)] .
  then have cf: "(tc_flags c OR TALLOC_FLAG_FREE) AND NOT TALLOC_FLAG_FREE = tc_flags c"
    by (intro clear_free) (simp add: chunk_ok_def)
  have ce: "clear_flag TALLOC_FLAG_FREE ((set_flag TALLOC_FLAG_FREE c)
      \<lparr>tc_data := resize_cells sz (tc_data (set_flag TALLOC_FLAG_FREE c))\<rparr>) = e"
    by (simp add: clear_flag_def set_flag_def cf e_def)
  obtain h4 h5 h6 h7 where
    "upd_opt (tc_parent c) (tc_child_update (\<lambda>_. Some q)) (h\<lparr>chunks := (chunks h)(p := None, q \<mapsto> e)\<rparr>) = Some h4"
    "upd_opt (tc_child c) (tc_parent_update (\<lambda>_. Some q)) h4 = Some h5"
    "upd_opt (tc_prev c) (tc_next_update (\<lambda>_. Some q)) h5 = Some h6"
    "upd_opt (tc_next c) (tc_prev_update (\<lambda>_. Some q)) h6 = Some h7" "chunks h7 q = Some e"
    and h7: "\<forall>d. h7\<lparr>chunks := (chunks h7)(q \<mapsto> d)\<rparr> = moved p q c d h"
    using neighbours_repointed [OF assms(1,2) q(2), of e] by (auto simp: e_def chunk_links_def)
  moreover have "tc_parent e = tc_parent c" "tc_child e = tc_child c" "tc_prev e = tc_prev c" "tc_next e = tc_next c"
    by (simp_all add: e_def)
  moreover have "talloc_chunk_from_ptr p h = Some c"
    using ok assms(2) by (simp add: talloc_chunk_from_ptr_def chunk_ok_def)
  moreover have "tc_flags e AND (TALLOC_FLAG_FREE OR NOT 0xF) = TALLOC_MAGIC"
    using ok by (simp add: e_def chunk_ok_def)
  ultimately have "talloc_realloc env ctx (Some p) sz name h = Some (Some q, h7\<lparr>chunks := (chunks h7)(q \<mapsto> d)\<rparr>)"
    using assms(2-5) par q(1) [unfolded Let_def] ce d
    by (simp add: talloc_realloc_def upd_def relocate_def talloc_set_name_const_def
        talloc_chunk_from_ptr_def e_def)
  with h7 show ?thesis by simp
qed

lemma length_resize [simp]: "length (resize_cells n d) = n"
  by (simp add: resize_cells_def)

lemma realloc_block:
  assumes "well_linked h" "block h p d" "0 < sz" "sz < MAX_TALLOC_SIZE" "null_context h \<noteq> Some p"
    and r: "\<And>g. (\<And>x. chunks g x = None \<longleftrightarrow> chunks h x = None) \<Longrightarrow>
      \<exists>q. t_realloc env p sz g = Some q \<and> (q = p \<or> chunks g q = None)"
  shows "\<exists>q h'. talloc_realloc env ctx (Some p) sz name h = Some (Some q, h') \<and> well_linked h' \<and>
    null_context h' = null_context h \<and> block h' q (resize_cells sz d) \<and>
    (q = p \<or> chunks h q = None) \<and>
    (\<forall>x. x \<noteq> p \<longrightarrow> chunks h x \<noteq> None \<longrightarrow> content h' x = content h x)"
proof -
  from assms(2) obtain c where c: "chunks h p = Some c" "tc_data c = d" "tc_refs c = None"
    by (auto simp: block_def)
  have ie: "\<not> has_flag TALLOC_FLAG_EXT_ALLOC c" by (rule well_linkedD(4) [OF assms(1) c(1)])
  have "\<exists>q. t_realloc env p sz (h\<lparr>chunks := (chunks h)(p \<mapsto> set_flag TALLOC_FLAG_FREE c)\<rparr>) = Some q \<and>
      (q = p \<or> chunks h q = None)"
    using r [of "h\<lparr>chunks := (chunks h)(p \<mapsto> set_flag TALLOC_FLAG_FREE c)\<rparr>"] c(1) by (auto split: if_splits)
  then obtain q where
    q: "t_realloc env p sz (h\<lparr>chunks := (chunks h)(p \<mapsto> set_flag TALLOC_FLAG_FREE c)\<rparr>) = Some q"
      "q = p \<or> chunks h q = None" by blast
  define e where "e = c\<lparr>tc_data := resize_cells sz (tc_data c), tc_size := sz, tc_name := name\<rparr>"
  have ok: "chunk_ok p c" using linkedD(5) [OF assms(1) c(1)] .
  have "tc_parent c \<noteq> Some q" "tc_next c \<noteq> Some q"
    using linked_targets [OF well_linkedD(1) [OF assms(1)] c(1), of "Some q"] q(2) by auto
  then have "chunk_ok q e" using ok by (simp add: chunk_ok_def e_def)
  then have "links_ok (moved p q c e h)"
    using assms(5) by (intro linked_moved [OF well_linkedD(1) [OF assms(1)] c(1) q(2)]) (auto simp: e_def chunk_links_def)
  moreover have "internal (moved p q c e h)"
    unfolding internal_def
  proof (intro allI impI)
    fix x d assume d: "chunks (moved p q c e h) x = Some d"
    show "\<not> has_flag TALLOC_FLAG_EXT_ALLOC d"
    proof (cases "x = q")
      case True
      then have "d = e" using d by (simp add: moved_def)
      then show ?thesis using ie by (simp add: e_def has_flag_def)
    next
      case False
      then obtain d0 where "chunks h x = Some d0" "d = repoint q c x d0"
        using d by (auto simp: moved_def split: if_splits)
      then show ?thesis using well_linkedD(4) [OF assms(1)] by (simp add: repoint_def has_flag_def)
    qed
  qed
  moreover have "chunks (moved p q c e h) n \<noteq> None" if "null_context h = Some n" for n
    using linked_null [OF assms(1) that] assms(5) that by (auto simp: moved_def)
  ultimately have "well_linked (moved p q c e h)" by (simp add: well_linked_def moved_def)
  moreover have "talloc_realloc env ctx (Some p) sz name h = Some (Some q, moved p q c e h)"
    by (rule realloc_moved [OF well_linkedD(1) [OF assms(1)] c(1,3) assms(3,4) _ _ q(2) e_def, where par = None])
      (use ie q(1) in simp_all)
  moreover have "block (moved p q c e h) q (resize_cells sz d)"
    using c by (simp add: block_def moved_def e_def)
  moreover have "content (moved p q c e h) x = content h x" if "x \<noteq> p" "chunks h x \<noteq> None" for x
    using that q(2) by (cases "chunks h x") (auto simp: content_def moved_def)
  ultimately show ?thesis using q(2) by (auto simp: moved_def)
qed

text \<open>A system whose allocator never refuses.\<close>

definition allocates :: "tenv \<Rightarrow> bool" where
  "allocates env \<longleftrightarrow> (\<forall>h. finite {p. chunks h p \<noteq> None} \<longrightarrow>
     (\<forall>n. \<exists>p. t_malloc env n h = Some p \<and> chunks h p = None) \<and>
     (\<forall>p n. \<exists>q. t_realloc env p n h = Some q \<and> (q = p \<or> chunks h q = None)))"

lemma linked_finite: "well_linked h \<Longrightarrow> finite {p. chunks h p \<noteq> None}"
  by (simp add: well_linked_def links_ok_def)

lemma array_size: "0 < el \<Longrightarrow> n < MAX_TALLOC_SIZE div el \<Longrightarrow> el * n < MAX_TALLOC_SIZE"
proof -
  assume "0 < el" "n < MAX_TALLOC_SIZE div el"
  then have "el * n < el * (MAX_TALLOC_SIZE div el)" by simp
  also have "\<dots> \<le> MAX_TALLOC_SIZE" by (rule times_div_less_eq_dividend)
  finally show ?thesis .
qed

lemma array_block:
  assumes "allocates env" "well_linked h" "\<And>q. ctx = Some q \<Longrightarrow> chunks h q \<noteq> None"
    and "0 < el" "n < MAX_TALLOC_SIZE div el"
  shows "\<exists>p h'. talloc_array env ctx el n name h = Some (Some p, h') \<and> chunks h p = None \<and> keeps p h h' \<and>
    block h' p (replicate (el * n) Undef)"
proof -
  obtain p where p: "t_malloc env (el * n) h = Some p" "chunks h p = None"
    using assms(1) linked_finite [OF assms(2)] unfolding allocates_def by blast
  from array_size [OF assms(4,5)] named_alloc [where ctx = ctx and name = name, OF assms(2) _ _ p] assms(3) obtain h' where
    "talloc_named_const env ctx (el * n) name h = Some (Some p, h')" "keeps p h h'"
    "block h' p (replicate (el * n) Undef)" by blast
  with assms(4,5) p(2) show ?thesis by (auto simp: talloc_array_def)
qed

lemma grow_block:
  assumes "allocates env" "well_linked h" "block h p d" "0 < el" "0 < n" "n < MAX_TALLOC_SIZE div el"
    and "null_context h \<noteq> Some p"
  shows "\<exists>q h'. talloc_realloc_array env ctx (Some p) el n name h = Some (Some q, h') \<and> keeps p h h' \<and>
    block h' q (resize_cells (el * n) d) \<and> (q = p \<or> chunks h q = None)"
proof -
  have r: "\<exists>q. t_realloc env p (el * n) g = Some q \<and> (q = p \<or> chunks g q = None)"
    if "\<And>x. chunks g x = None \<longleftrightarrow> chunks h x = None" for g
  proof -
    have "finite {p. chunks g p \<noteq> None}" using linked_finite [OF assms(2)] that by simp
    with assms(1) show ?thesis unfolding allocates_def by blast
  qed
  have "0 < el * n" using assms(4,5) by simp
  from realloc_block [where ctx = ctx and name = name, OF assms(2,3) this array_size [OF assms(4,6)] assms(7) r]
  show ?thesis using assms(4,6) by (auto simp: talloc_realloc_array_def keeps_def)
qed

end
