(* ===== verification/TallocTidy.thy ===== *)
theory TallocTidy
  imports TallocLinks
begin

unbundle bit_operations_syntax

text \<open>
  The consistency of the links of src/talloc.c, and what taking a chunk out of a list, putting it
  first in one, and allocating, releasing and moving its memory do to it. Nothing is
  assumed about the shape of the hierarchy: a block may have been moved below itself.

  While \<open>_talloc_free\<close> works on a block its links to its former siblings and parent are stale. Such
  blocks form the set \<open>L\<close> below: \<open>loose L h\<close> is the heap without those links.
\<close>

section \<open>Lists of children\<close>

text \<open>
  A chunk is never a member of its own list of children: each chunk has an owner \<open>w\<close>, the same
  all over a list, and a position \<open>f\<close> in it.
\<close>

definition in_lists :: "(ptr \<Rightarrow> ptr option) \<Rightarrow> (ptr \<Rightarrow> int) \<Rightarrow> theap \<Rightarrow> bool" where
  "in_lists w f h \<longleftrightarrow> (\<forall>x c. chunks h x = Some c \<longrightarrow>
     w x \<noteq> Some x \<and> (\<forall>y. tc_prev c = Some y \<longrightarrow> w y = w x \<and> f y < f x) \<and>
     (\<forall>q. tc_parent c = Some q \<longrightarrow> w x = Some q) \<and> (\<forall>q. w x = Some q \<longrightarrow> chunks h q \<noteq> None))"

definition tidy :: "theap \<Rightarrow> bool" where
  "tidy h \<longleftrightarrow> links_ok h \<and> null_context h = None \<and> (\<exists>w f. in_lists w f h)"

lemma in_listsD:
  assumes "in_lists w f h" "chunks h x = Some c"
  shows "w x \<noteq> Some x" "tc_prev c = Some y \<Longrightarrow> w y = w x \<and> f y < f x"
    "tc_parent c = Some q \<Longrightarrow> w x = Some q" "w x = Some q \<Longrightarrow> chunks h q \<noteq> None"
  using assms by (auto simp: in_lists_def)

text \<open>What the links of a chunk and its neighbours are.\<close>

lemma tidyD:
  assumes "tidy h" "chunks h p = Some c"
  shows "chunk_ok p c" "tc_prev c \<noteq> Some p" "tc_child c \<noteq> Some p"
    "tc_next c = Some k \<Longrightarrow> \<exists>d. chunks h k = Some d \<and> tc_prev d = Some p \<and> tc_parent d = None"
    "tc_prev c = Some k \<Longrightarrow> \<exists>d. chunks h k = Some d \<and> tc_next d = Some p"
    "tc_parent c = Some k \<Longrightarrow> \<exists>d. chunks h k = Some d \<and> tc_child d = Some p"
    "tc_child c = Some k \<Longrightarrow> \<exists>d. chunks h k = Some d \<and> tc_parent d = Some p \<and> tc_prev d = None"
    "tc_parent c = Some q \<Longrightarrow> tc_next c \<noteq> Some q" "tc_parent c \<noteq> None \<Longrightarrow> tc_prev c = None"
proof -
  have w: "links_ok h" using assms(1) by (simp add: tidy_def)
  obtain o' f where l: "in_lists o' f h" using assms(1) by (auto simp: tidy_def)
  show ok: "chunk_ok p c" using linkD(5) [OF w assms(2)] .
  show "tc_prev c \<noteq> Some p" using linkD(2) [OF w assms(2), of p] ok assms(2) by (auto simp: chunk_ok_def)
  show "tc_child c \<noteq> Some p" using linkD(3) [OF w assms(2), of p] ok assms(2) by (auto simp: chunk_ok_def)
  show "tc_next c = Some k \<Longrightarrow> \<exists>d. chunks h k = Some d \<and> tc_prev d = Some p \<and> tc_parent d = None"
    using linkD(1) [OF w assms(2), of k] linkD(5) [OF w, of k] by (fastforce simp: chunk_ok_def)
  show "tc_prev c = Some k \<Longrightarrow> \<exists>d. chunks h k = Some d \<and> tc_next d = Some p"
    using linkD(2) [OF w assms(2), of k] .
  show "tc_parent c = Some k \<Longrightarrow> \<exists>d. chunks h k = Some d \<and> tc_child d = Some p"
    using linkD(4) [OF w assms(2), of k] .
  show "tc_child c = Some k \<Longrightarrow> \<exists>d. chunks h k = Some d \<and> tc_parent d = Some p \<and> tc_prev d = None"
    using linkD(3) [OF w assms(2), of k] linkD(5) [OF w, of k] by (fastforce simp: chunk_ok_def)
  show "tc_next c \<noteq> Some q" if "tc_parent c = Some q"
  proof
    assume "tc_next c = Some q"
    then obtain d where d: "chunks h q = Some d" "tc_prev d = Some p" using linkD(1) [OF w assms(2)] by blast
    from in_listsD(2) [OF l d] in_listsD(1) [OF l d(1)] in_listsD(3) [OF l assms(2) that] show False by simp
  qed
  show "tc_parent c \<noteq> None \<Longrightarrow> tc_prev c = None" using ok by (simp add: chunk_ok_def)
qed

text \<open>To show that a heap is tidy, the conditions on a chunk and itself can be left out.\<close>

lemma tidyI:
  assumes "opposite (field tc_next (chunks h)) (field tc_prev (chunks h))"
    and "opposite (field tc_child (chunks h)) (field tc_parent (chunks h))"
    and "\<And>x c. chunks h x = Some c \<Longrightarrow> tc_flags c AND (TALLOC_FLAG_FREE OR NOT 0xF) = TALLOC_MAGIC \<and>
      length (tc_data c) = tc_size c \<and> (tc_parent c \<noteq> None \<longrightarrow> tc_prev c = None)"
    and "finite {x. chunks h x \<noteq> None}" "null_context h = None" "in_lists w f h"
  shows "tidy h"
proof -
  have "chunk_ok x c" if c: "chunks h x = Some c" for x c
  proof -
    have "tc_parent c \<noteq> Some x" using in_listsD(1,3) [OF assms(6) c] by blast
    moreover have "tc_next c \<noteq> Some x"
    proof
      assume "tc_next c = Some x"
      then have "field tc_next (chunks h) x = Some x" using c by (simp add: field_def)
      then have "tc_prev c = Some x" using oppositeD [OF assms(1), of x x] c by (simp add: field_def)
      then show False using in_listsD(2) [OF assms(6) c] by fastforce
    qed
    ultimately show ?thesis using assms(3) [OF c] by (simp add: chunk_ok_def)
  qed
  then have "links_ok h" using assms(1,2,4) by (simp add: links_ok_def)
  then show ?thesis using assms(5,6) by (auto simp: tidy_def)
qed

lemma tidy_opposite:
  "tidy h \<Longrightarrow> opposite (field tc_next (chunks h)) (field tc_prev (chunks h))"
  "tidy h \<Longrightarrow> opposite (field tc_child (chunks h)) (field tc_parent (chunks h))"
  "tidy h \<Longrightarrow> null_context h = None"
  by (simp_all add: tidy_def links_ok_def)

lemma tidy_finite: "tidy h \<Longrightarrow> finite {x. chunks h x \<noteq> None}"
  by (simp add: tidy_def links_ok_def)

lemma tidy_flags: "tidy h \<Longrightarrow> chunks h x = Some c \<Longrightarrow> tc_flags c AND (TALLOC_FLAG_FREE OR NOT 0xF) = TALLOC_MAGIC \<and>
      length (tc_data c) = tc_size c"
  using tidyD(1) [of h x c] by (simp add: chunk_ok_def)

section \<open>Taking a chunk out of its list\<close>

definition unlink :: "chunk \<Rightarrow> chunk" where
  "unlink c = c\<lparr>tc_next := None, tc_prev := None, tc_parent := None\<rparr>"

definition unhook :: "chunk \<Rightarrow> ptr \<Rightarrow> chunk \<Rightarrow> chunk" where
  "unhook c x d =
     d\<lparr>tc_next := (if tc_prev c = Some x then tc_next c else tc_next d),
       tc_prev := (if tc_next c = Some x then tc_prev c else tc_prev d),
       tc_parent := (if tc_next c = Some x then tc_parent c else tc_parent d),
       tc_child := (if tc_parent c = Some x then tc_next c else tc_child d)\<rparr>"

definition unhooked :: "ptr \<Rightarrow> chunk \<Rightarrow> theap \<Rightarrow> theap" where
  "unhooked p c h = h\<lparr>chunks := (\<lambda>x. if x = p then map_option unlink (chunks h x) else map_option (unhook c x) (chunks h x))\<rparr>"

lemma opposite_remove:
  assumes "opposite N P" "N p \<noteq> Some p"
  shows "opposite (\<lambda>x. if x = p then None else if P p = Some x then N p else N x)
    (\<lambda>x. if x = p then None else if N p = Some x then P p else P x)"
  unfolding opposite_def
proof (intro allI)
  fix x y
  have i: "\<And>a b. N a = Some b \<longleftrightarrow> P b = Some a" using assms(1) by (simp add: opposite_def)
  show "(if x = p then None else if P p = Some x then N p else N x) = Some y \<longleftrightarrow>
      (if y = p then None else if N p = Some y then P p else P y) = Some x"
    using assms(2) i [of x y] i [of p y] i [of x p] i [of p p] by auto
qed

lemma opposite_replace:
  assumes "opposite C Q" "\<And>k. n = Some k \<Longrightarrow> Q k = None \<and> k \<noteq> p"
  shows "opposite (\<lambda>x. if Q p = Some x then n else C x)
    (\<lambda>x. if x = p then None else if n = Some x then Q p else Q x)"
  unfolding opposite_def
proof (intro allI)
  fix x y
  have i: "\<And>a b. C a = Some b \<longleftrightarrow> Q b = Some a" using assms(1) by (simp add: opposite_def)
  show "(if Q p = Some x then n else C x) = Some y \<longleftrightarrow>
      (if y = p then None else if n = Some y then Q p else Q y) = Some x"
    using assms(2) [of y] i [of x y] i [of x p] by auto
qed

text \<open>The links afterwards, and which chunks they lead to.\<close>

lemma unhooked_chunks:
  "chunks h p = Some c \<Longrightarrow> chunks (unhooked p c h) x =
     (if x = p then Some (unlink c) else map_option (unhook c x) (chunks h x))"
  by (simp add: unhooked_def)

lemma unhooked_fields:
  assumes t: "tidy h" and p: "chunks h p = Some c"
  shows "field tc_next (chunks (unhooked p c h)) = (\<lambda>x. if x = p then None
      else if field tc_prev (chunks h) p = Some x then field tc_next (chunks h) p else field tc_next (chunks h) x)"
    and "field tc_prev (chunks (unhooked p c h)) = (\<lambda>x. if x = p then None
      else if field tc_next (chunks h) p = Some x then field tc_prev (chunks h) p else field tc_prev (chunks h) x)"
    and "field tc_child (chunks (unhooked p c h)) =
      (\<lambda>x. if field tc_parent (chunks h) p = Some x then tc_next c else field tc_child (chunks h) x)"
    and "field tc_parent (chunks (unhooked p c h)) = (\<lambda>x. if x = p then None
      else if tc_next c = Some x then field tc_parent (chunks h) p else field tc_parent (chunks h) x)"
proof -
  note P = tidyD [OF t p]
  let ?m = "chunks h" and ?m' = "chunks (unhooked p c h)"
  have fp: "field g ?m p = g c" for g using p by (simp add: field_def)
  have at: "tc_next c = Some x \<Longrightarrow> ?m x \<noteq> None" "tc_prev c = Some x \<Longrightarrow> ?m x \<noteq> None"
    "tc_parent c = Some x \<Longrightarrow> ?m x \<noteq> None" for x
    using P(4-6) by fastforce+
  have F: "field g ?m' x = (if x = p then g (unlink c) else case ?m x of None \<Rightarrow> None | Some e \<Rightarrow> g (unhook c x e))" for g x
    by (simp add: field_def unhooked_chunks [OF p] split: option.split)
  show "field tc_next ?m' = (\<lambda>x. if x = p then None else if field tc_prev ?m p = Some x then field tc_next ?m p
      else field tc_next ?m x)"
    unfolding fun_eq_iff F fp
  proof
    fix x show "(if x = p then tc_next (unlink c) else case ?m x of None \<Rightarrow> None | Some e \<Rightarrow> tc_next (unhook c x e)) =
        (if x = p then None else if tc_prev c = Some x then tc_next c else field tc_next ?m x)"
      using at(2) [of x] by (cases "?m x") (auto simp: field_def unhook_def unlink_def)
  qed
  show "field tc_prev ?m' = (\<lambda>x. if x = p then None else if field tc_next ?m p = Some x then field tc_prev ?m p
      else field tc_prev ?m x)"
    unfolding fun_eq_iff F fp
  proof
    fix x show "(if x = p then tc_prev (unlink c) else case ?m x of None \<Rightarrow> None | Some e \<Rightarrow> tc_prev (unhook c x e)) =
        (if x = p then None else if tc_next c = Some x then tc_prev c else field tc_prev ?m x)"
      using at(1) [of x] by (cases "?m x") (auto simp: field_def unhook_def unlink_def)
  qed
  show "field tc_child ?m' = (\<lambda>x. if field tc_parent ?m p = Some x then tc_next c else field tc_child ?m x)"
    unfolding fun_eq_iff F fp
  proof
    fix x show "(if x = p then tc_child (unlink c) else case ?m x of None \<Rightarrow> None | Some e \<Rightarrow> tc_child (unhook c x e)) =
        (if tc_parent c = Some x then tc_next c else field tc_child ?m x)"
      using at(3) [of x] P(1) p by (cases "?m x") (auto simp: field_def unhook_def unlink_def chunk_ok_def)
  qed
  show "field tc_parent ?m' = (\<lambda>x. if x = p then None else if tc_next c = Some x then field tc_parent ?m p
      else field tc_parent ?m x)"
    unfolding fun_eq_iff F fp
  proof
    fix x show "(if x = p then tc_parent (unlink c) else case ?m x of None \<Rightarrow> None | Some e \<Rightarrow> tc_parent (unhook c x e)) =
        (if x = p then None else if tc_next c = Some x then tc_parent c else field tc_parent ?m x)"
      using at(1) [of x] by (cases "?m x") (auto simp: field_def unhook_def unlink_def)
  qed
qed

lemma in_lists_unhooked:
  assumes t: "tidy h" and p: "chunks h p = Some c" and l: "in_lists w f h"
  shows "in_lists (w(p := None)) f (unhooked p c h)"
  unfolding in_lists_def
proof (intro allI impI)
  note P = tidyD [OF t p]
  let ?m = "chunks h" and ?m' = "chunks (unhooked p c h)"
  fix x d assume "?m' x = Some d"
  then consider "x = p" "d = unlink c" | e where "x \<noteq> p" "?m x = Some e" "d = unhook c x e"
    by (auto simp: unhooked_chunks [OF p] split: if_splits)
  then show "(w(p := None)) x \<noteq> Some x \<and>
     (\<forall>y. tc_prev d = Some y \<longrightarrow> (w(p := None)) y = (w(p := None)) x \<and> f y < f x) \<and>
     (\<forall>q. tc_parent d = Some q \<longrightarrow> (w(p := None)) x = Some q) \<and>
     (\<forall>q. (w(p := None)) x = Some q \<longrightarrow> ?m' q \<noteq> None)"
  proof cases
    case 1
    then show ?thesis by (simp add: unlink_def)
  next
    case 2
    note I = in_listsD [OF l 2(2)] and J = in_listsD [OF l p]
    have k: "tc_next c = Some x \<Longrightarrow> tc_prev e = Some p" using P(4) [of x] 2(2) by auto
    have "y \<noteq> p \<and> w y = w x \<and> f y < f x" if y: "tc_prev d = Some y" for y
    proof (cases "tc_next c = Some x")
      case True
      then have "tc_prev c = Some y" using y by (simp add: 2(3) unhook_def)
      then show ?thesis using J(2) [of y] I(2) [OF k [OF True]] P(2) by auto
    next
      case False
      then have e: "tc_prev e = Some y" using y by (simp add: 2(3) unhook_def)
      have "y \<noteq> p" using tidyD(5) [OF t 2(2) e] p False by auto
      then show ?thesis using I(2) [OF e] by simp
    qed
    moreover have "w x = Some q" if q: "tc_parent d = Some q" for q
    proof (cases "tc_next c = Some x")
      case True
      then have "tc_parent c = Some q" using q by (simp add: 2(3) unhook_def)
      then show ?thesis using J(3) [of q] I(2) [OF k [OF True]] by simp
    next
      case False
      then show ?thesis using q I(3) by (simp add: 2(3) unhook_def)
    qed
    moreover have "w x = Some q \<Longrightarrow> ?m' q \<noteq> None" for q using I(4) [of q] p by (auto simp: unhooked_chunks [OF p])
    ultimately show ?thesis using I(1) 2(1) by simp
  qed
qed

lemma tidy_unhooked:
  assumes t: "tidy h" and p: "chunks h p = Some c"
  shows "tidy (unhooked p c h)"
proof -
  obtain w f where l: "in_lists w f h" using t by (auto simp: tidy_def)
  note P = tidyD [OF t p] and fs = unhooked_fields [OF t p]
  let ?m = "chunks h" and ?m' = "chunks (unhooked p c h)"
  have fp: "field g ?m p = g c" for g using p by (simp add: field_def)
  show ?thesis
  proof (rule tidyI)
    show "opposite (field tc_next ?m') (field tc_prev ?m')" unfolding fs(1,2)
      using P(1) fp by (intro opposite_remove [OF tidy_opposite(1) [OF t]]) (simp add: chunk_ok_def)
    show "opposite (field tc_child ?m') (field tc_parent ?m')" unfolding fs(3,4)
      using P(1,4) fp by (intro opposite_replace [OF tidy_opposite(2) [OF t]]) (auto simp: chunk_ok_def field_def)
    fix x d assume "?m' x = Some d"
    then consider "x = p" "d = unlink c" | e where "x \<noteq> p" "?m x = Some e" "d = unhook c x e"
      by (auto simp: unhooked_chunks [OF p] split: if_splits)
    then show "tc_flags d AND (TALLOC_FLAG_FREE OR NOT 0xF) = TALLOC_MAGIC \<and>
      length (tc_data d) = tc_size d \<and> (tc_parent d \<noteq> None \<longrightarrow> tc_prev d = None)"
    proof cases
      case 1
      then show ?thesis using tidy_flags [OF t p] by (simp add: unlink_def)
    next
      case 2
      then show ?thesis using tidy_flags [OF t 2(2)] tidyD(9) [OF t 2(2)] P(9) by (auto simp: unhook_def)
    qed
  next
    have "{x. ?m' x \<noteq> None} = {x. ?m x \<noteq> None}" using p by (auto simp: unhooked_chunks [OF p])
    then show "finite {x. ?m' x \<noteq> None}" using tidy_finite [OF t] by simp
    show "null_context (unhooked p c h) = None" using tidy_opposite(3) [OF t] by (simp add: unhooked_def)
    show "in_lists (w(p := None)) f (unhooked p c h)" by (rule in_lists_unhooked [OF t p l])
  qed
qed

section \<open>Putting a chunk first in a list\<close>

definition hook :: "ptr \<Rightarrow> ptr \<Rightarrow> ptr option \<Rightarrow> ptr \<Rightarrow> chunk \<Rightarrow> chunk" where
  "hook p n k x d =
     d\<lparr>tc_parent := (if x = p then Some n else if k = Some x then None else tc_parent d),
       tc_next := (if x = p then k else tc_next d),
       tc_prev := (if x = p then None else if k = Some x then Some p else tc_prev d),
       tc_child := (if x = n then Some p else tc_child d)\<rparr>"

definition hooked :: "ptr \<Rightarrow> ptr \<Rightarrow> theap \<Rightarrow> theap" where
  "hooked p n h = h\<lparr>chunks := (\<lambda>x. map_option (hook p n (field tc_child (chunks h) n) x) (chunks h x))\<rparr>"

lemma opposite_adopt:
  assumes "opposite C Q" "Q p = None" "C q = K" "p \<noteq> q"
  shows "opposite (C(q := Some p)) (\<lambda>x. if x = p then Some q else if K = Some x then None else Q x)"
  unfolding opposite_def
proof (intro allI)
  fix x y
  have i: "\<And>a b. C a = Some b \<longleftrightarrow> Q b = Some a" using assms(1) by (simp add: opposite_def)
  show "(C(q := Some p)) x = Some y \<longleftrightarrow> (if y = p then Some q else if K = Some y then None else Q y) = Some x"
    using assms(2-4) i [of q y] i [of x y] i [of x p] by auto
qed

lemma hooked_chunks:
  "chunks h n = Some nc \<Longrightarrow> chunks (hooked p n h) x = map_option (hook p n (tc_child nc) x) (chunks h x)"
  by (simp add: hooked_def field_def)

lemma hooked_fields:
  assumes t: "tidy h" and p: "chunks h p = Some c" and n: "chunks h n = Some nc"
  shows "field tc_next (chunks (hooked p n h)) = (field tc_next (chunks h))(p := tc_child nc)"
    "p \<noteq> n \<Longrightarrow> tc_next c = None \<Longrightarrow> tc_prev c = None \<Longrightarrow> tc_parent c = None \<Longrightarrow>
      field tc_prev (chunks (hooked p n h)) = (\<lambda>x. if tc_child nc = Some x then Some p else field tc_prev (chunks h) x)"
    "field tc_child (chunks (hooked p n h)) = (field tc_child (chunks h))(n := Some p)"
    "field tc_parent (chunks (hooked p n h)) =
      (\<lambda>x. if x = p then Some n else if tc_child nc = Some x then None else field tc_parent (chunks h) x)"
proof -
  have F: "field g (chunks (hooked p n h)) x = (case chunks h x of None \<Rightarrow> None | Some e \<Rightarrow> g (hook p n (tc_child nc) x e))" for g x
    by (simp add: field_def hooked_chunks [OF n] split: option.split)
  show "field tc_next (chunks (hooked p n h)) = (field tc_next (chunks h))(p := tc_child nc)"
  proof
    fix x show "field tc_next (chunks (hooked p n h)) x = ((field tc_next (chunks h))(p := tc_child nc)) x"
      unfolding F using p by (cases "chunks h x") (auto simp: field_def hook_def)
  qed
  show "field tc_prev (chunks (hooked p n h)) = (\<lambda>x. if tc_child nc = Some x then Some p else field tc_prev (chunks h) x)"
    if z: "p \<noteq> n" "tc_next c = None" "tc_prev c = None" "tc_parent c = None"
  proof
    fix x
    have "\<exists>d. chunks h x = Some d \<and> x \<noteq> p" if "tc_child nc = Some x"
      using tidyD(7) [OF t n that] p z by auto
    then show "field tc_prev (chunks (hooked p n h)) x = (if tc_child nc = Some x then Some p else field tc_prev (chunks h) x)"
      unfolding F using p z by (cases "chunks h x") (auto simp: field_def hook_def)
  qed
  show "field tc_child (chunks (hooked p n h)) = (field tc_child (chunks h))(n := Some p)"
  proof
    fix x show "field tc_child (chunks (hooked p n h)) x = ((field tc_child (chunks h))(n := Some p)) x"
      unfolding F using n by (cases "chunks h x") (auto simp: field_def hook_def)
  qed
  show "field tc_parent (chunks (hooked p n h)) =
      (\<lambda>x. if x = p then Some n else if tc_child nc = Some x then None else field tc_parent (chunks h) x)"
  proof
    fix x show "field tc_parent (chunks (hooked p n h)) x =
        (if x = p then Some n else if tc_child nc = Some x then None else field tc_parent (chunks h) x)"
      unfolding F using p by (cases "chunks h x") (auto simp: field_def hook_def)
  qed
qed

lemma in_lists_hooked:
  assumes t: "tidy h" and p: "chunks h p = Some c" "tc_next c = None" "tc_prev c = None" "tc_parent c = None"
    and n: "chunks h n = Some nc" "n \<noteq> p" and l: "in_lists w f h"
  shows "in_lists (w(p := Some n)) (f(p := (case tc_child nc of None \<Rightarrow> 0 | Some x \<Rightarrow> f x - 1))) (hooked p n h)"
  unfolding in_lists_def
proof (intro allI impI)
  let ?k = "tc_child nc"
  define g where "g = f(p := (case ?k of None \<Rightarrow> 0 | Some x \<Rightarrow> f x - 1))"
  fix x d assume "chunks (hooked p n h) x = Some d"
  then obtain e where e: "chunks h x = Some e" "d = hook p n ?k x e" by (auto simp: hooked_chunks [OF n(1)])
  note I = in_listsD [OF l e(1)]
  have K: "\<exists>d. chunks h x = Some d \<and> tc_parent d = Some n \<and> tc_prev d = None \<and> x \<noteq> p" if "?k = Some x" for x
    using tidyD(7) [OF t n(1), of x] that p by auto
  have up: "tc_prev e \<noteq> Some p" using tidyD(5) [OF t e(1), of p] p(1,2) by auto
  have "w x = Some n" if "?k = Some x" using K [OF that] e(1) I(3) by auto
  then have "(w(p := Some n)) y = (w(p := Some n)) x \<and> g y < g x" if "tc_prev d = Some y" for y
    using that up I(2) [of y] K [of x] by (auto simp: e(2) hook_def g_def split: if_splits)
  moreover have "(w(p := Some n)) x = Some q" if "tc_parent d = Some q" for q
    using that I(3) [of q] by (auto simp: e(2) hook_def split: if_splits)
  moreover have "chunks (hooked p n h) q \<noteq> None" if "(w(p := Some n)) x = Some q" for q
    using that I(4) [of q] n(1) by (auto simp: hooked_chunks [OF n(1)] split: if_splits)
  ultimately show "(w(p := Some n)) x \<noteq> Some x \<and>
     (\<forall>y. tc_prev d = Some y \<longrightarrow> (w(p := Some n)) y = (w(p := Some n)) x \<and> g y < g x) \<and>
     (\<forall>q. tc_parent d = Some q \<longrightarrow> (w(p := Some n)) x = Some q) \<and>
     (\<forall>q. (w(p := Some n)) x = Some q \<longrightarrow> chunks (hooked p n h) q \<noteq> None)"
    using I(1) n(2) by auto
qed

lemma tidy_hooked:
  assumes t: "tidy h" and p: "chunks h p = Some c" "tc_next c = None" "tc_prev c = None" "tc_parent c = None"
    and n: "chunks h n = Some nc" "n \<noteq> p"
  shows "tidy (hooked p n h)"
proof -
  obtain w f where l: "in_lists w f h" using t by (auto simp: tidy_def)
  let ?m = "chunks h" and ?m' = "chunks (hooked p n h)"
  note fs = hooked_fields [OF t p(1) n(1)]
  have fp: "field tc_next ?m p = None" "field tc_prev ?m p = None" "field tc_parent ?m p = None"
    "field tc_child ?m n = tc_child nc"
    using p n(1) by (simp_all add: field_def)
  have fk: "field tc_prev ?m x = None \<and> x \<noteq> p" if "tc_child nc = Some x" for x
    using tidyD(7) [OF t n(1) that] p by (auto simp: field_def)
  show ?thesis
  proof (rule tidyI)
    show "opposite (field tc_next ?m') (field tc_prev ?m')" unfolding fs(1) fs(2) [OF n(2) [symmetric] p(2-4)]
      using fp fk by (intro opposite_push [OF tidy_opposite(1) [OF t]]) auto
    show "opposite (field tc_child ?m') (field tc_parent ?m')" unfolding fs(3,4)
      using fp n(2) by (intro opposite_adopt [OF tidy_opposite(2) [OF t]]) auto
    fix x d assume "?m' x = Some d"
    then obtain e where e: "?m x = Some e" "d = hook p n (tc_child nc) x e" by (auto simp: hooked_chunks [OF n(1)])
    show "tc_flags d AND (TALLOC_FLAG_FREE OR NOT 0xF) = TALLOC_MAGIC \<and>
      length (tc_data d) = tc_size d \<and> (tc_parent d \<noteq> None \<longrightarrow> tc_prev d = None)"
      using tidy_flags [OF t e(1)] tidyD(9) [OF t e(1)] by (auto simp: e(2) hook_def)
  next
    have "{x. ?m' x \<noteq> None} = {x. ?m x \<noteq> None}" by (auto simp: hooked_chunks [OF n(1)])
    then show "finite {x. ?m' x \<noteq> None}" using tidy_finite [OF t] by simp
    show "null_context (hooked p n h) = None" using tidy_opposite(3) [OF t] by (simp add: hooked_def)
    show "in_lists (w(p := Some n)) (f(p := (case tc_child nc of None \<Rightarrow> 0 | Some x \<Rightarrow> f x - 1))) (hooked p n h)"
      by (rule in_lists_hooked [OF t p n l])
  qed
qed

section \<open>New, freed and moved chunks\<close>

lemma tidy_root:
  assumes t: "tidy h" and p: "chunks h p = None"
  shows "tidy (h\<lparr>chunks := (chunks h)(p \<mapsto> new_chunk sz e None None)\<rparr>)"
proof -
  obtain w f where l: "in_lists w f h" using t by (auto simp: tidy_def)
  let ?h = "h\<lparr>chunks := (chunks h)(p \<mapsto> new_chunk sz e None None)\<rparr>"
  have "in_lists (w(p := None)) f ?h"
    unfolding in_lists_def
  proof (intro allI impI)
    fix x d assume d: "chunks ?h x = Some d"
    show "(w(p := None)) x \<noteq> Some x \<and>
         (\<forall>y. tc_prev d = Some y \<longrightarrow> (w(p := None)) y = (w(p := None)) x \<and> f y < f x) \<and>
         (\<forall>q. tc_parent d = Some q \<longrightarrow> (w(p := None)) x = Some q) \<and>
         (\<forall>q. (w(p := None)) x = Some q \<longrightarrow> chunks ?h q \<noteq> None)"
    proof (cases "x = p")
      case True
      then show ?thesis using d by (auto simp: new_chunk_def)
    next
      case False
      then have e: "chunks h x = Some d" using d by simp
      have "tc_prev d \<noteq> Some p" using tidyD(5) [OF t e, of p] p by auto
      then show ?thesis using in_listsD [OF l e] False by auto
    qed
  qed
  moreover have "links_ok ?h" using link_init_root [of h p sz e] t p by (simp add: tidy_def)
  ultimately show ?thesis using t by (auto simp: tidy_def)
qed

lemma tidy_release:
  assumes t: "tidy h" and p: "chunks h p = Some c" "tc_next c = None" "tc_prev c = None" "tc_parent c = None"
    "tc_child c = None"
  shows "tidy (h\<lparr>chunks := (chunks h)(p := None)\<rparr>)"
proof -
  obtain w f where l: "in_lists w f h" using t by (auto simp: tidy_def)
  let ?h = "h\<lparr>chunks := (chunks h)(p := None)\<rparr>"
  have fl: "field g (chunks ?h) = field g (chunks h)" if "g c = None" for g
    using that p(1) by (auto simp: fun_eq_iff field_def)
  show ?thesis
  proof (rule tidyI)
    show "opposite (field tc_next (chunks ?h)) (field tc_prev (chunks ?h))"
      unfolding fl [of tc_next, OF p(2)] fl [of tc_prev, OF p(3)] by (rule tidy_opposite(1) [OF t])
    show "opposite (field tc_child (chunks ?h)) (field tc_parent (chunks ?h))"
      unfolding fl [of tc_child, OF p(5)] fl [of tc_parent, OF p(4)] by (rule tidy_opposite(2) [OF t])
    fix x d assume "chunks ?h x = Some d"
    then have "chunks h x = Some d" by (simp split: if_splits)
    then show "tc_flags d AND (TALLOC_FLAG_FREE OR NOT 0xF) = TALLOC_MAGIC \<and>
      length (tc_data d) = tc_size d \<and> (tc_parent d \<noteq> None \<longrightarrow> tc_prev d = None)"
      using tidy_flags [OF t] tidyD(9) [OF t] by blast
  next
    have "{x. chunks ?h x \<noteq> None} \<subseteq> {x. chunks h x \<noteq> None}" by auto
    then show "finite {x. chunks ?h x \<noteq> None}" using tidy_finite [OF t] by (rule finite_subset)
    show "null_context ?h = None" using tidy_opposite(3) [OF t] by simp
    define v where "v = (\<lambda>x. if w x = Some p then None else w x)"
    show "in_lists v f ?h"
      unfolding in_lists_def
    proof (intro allI impI)
      fix x d assume "chunks ?h x = Some d"
      then have e: "chunks h x = Some d" "x \<noteq> p" by (simp_all split: if_splits)
      have "tc_parent d \<noteq> Some p" using tidyD(6) [OF t e(1), of p] p(1,5) by auto
      then show "v x \<noteq> Some x \<and> (\<forall>y. tc_prev d = Some y \<longrightarrow> v y = v x \<and> f y < f x) \<and>
         (\<forall>q. tc_parent d = Some q \<longrightarrow> v x = Some q) \<and> (\<forall>q. v x = Some q \<longrightarrow> chunks ?h q \<noteq> None)"
        using in_listsD [OF l e(1)] by (auto simp: v_def)
    qed
  qed
qed

text \<open>Where the owners and positions of the chunks are after \<open>p\<close> has moved to \<open>q\<close>.\<close>

definition rename :: "ptr \<Rightarrow> ptr \<Rightarrow> ptr option \<Rightarrow> ptr option" where
  "rename p q z = (if z = Some p then Some q else z)"

lemma moved_back:
  assumes t: "tidy h" and p: "chunks h p = Some c" "q = p \<or> chunks h q = None" and l: "in_lists w f h"
    and x: "chunks h x = Some e" "x \<noteq> p"
  shows "tc_prev (repoint q c x e) = Some y \<Longrightarrow> \<exists>z. (if tc_next c = Some x then z = p \<and> y = q else z = y \<and> y \<noteq> p \<and> y \<noteq> q) \<and>
      w z = w x \<and> f z < f x"
    and "tc_parent (repoint q c x e) = Some z \<Longrightarrow> rename p q (w x) = Some z"
proof -
  note P = tidyD [OF t p(1)] and I = in_listsD [OF l x(1)]
  show "\<exists>z. (if tc_next c = Some x then z = p \<and> y = q else z = y \<and> y \<noteq> p \<and> y \<noteq> q) \<and> w z = w x \<and> f z < f x"
    if y: "tc_prev (repoint q c x e) = Some y"
  proof (cases "tc_next c = Some x")
    case True
    then have "tc_prev e = Some p" using P(4) [OF True] x(1) by auto
    from I(2) [OF this] y True show ?thesis by (simp add: repoint_def)
  next
    case False
    then have pe: "tc_prev e = Some y" using y by (simp add: repoint_def)
    obtain dy where dy: "chunks h y = Some dy" "tc_next dy = Some x" using tidyD(5) [OF t x(1) pe] by blast
    then have "y \<noteq> p" using False p(1) by auto
    then have "y \<noteq> q" using dy(1) p(2) by auto
    then show ?thesis using I(2) [OF pe] False \<open>y \<noteq> p\<close> by simp
  qed
  show "rename p q (w x) = Some z" if z: "tc_parent (repoint q c x e) = Some z"
  proof (cases "tc_child c = Some x")
    case True
    then have "tc_parent e = Some p" using P(7) [OF True] x(1) by auto
    then show ?thesis using I(3) z True by (simp add: repoint_def rename_def)
  next
    case False
    then have pe: "tc_parent e = Some z" using z by (simp add: repoint_def)
    then have "z \<noteq> p" using tidyD(6) [OF t x(1) pe] False p(1) by auto
    then show ?thesis using I(3) [OF pe] by (simp add: rename_def)
  qed
qed

lemma in_lists_moved:
  assumes t: "tidy h" and p: "chunks h p = Some c" "q = p \<or> chunks h q = None" and d: "chunk_links d = chunk_links c"
    and l: "in_lists w f h"
  shows "in_lists (\<lambda>x. rename p q (w (if x = q then p else x))) (f(q := f p)) (moved p q c d h)"
  unfolding in_lists_def
proof (intro allI impI)
  note P = tidyD [OF t p(1)]
  have c: "tc_next d = tc_next c" "tc_prev d = tc_prev c" "tc_parent d = tc_parent c"
    using d by (simp_all add: chunk_links_def)
  define v where "v = (\<lambda>x. rename p q (w (if x = q then p else x)))"
  define g where "g = f(q := f p)"
  let ?m' = "chunks (moved p q c d h)"
  have live: "?m' z \<noteq> None" if "rename p q (w y) = Some z" "chunks h y = Some e" for y z e
    using that in_listsD(4) [OF l that(2)] by (auto simp: rename_def moved_def split: if_splits)
  fix x e' assume m: "?m' x = Some e'"
  show "v x \<noteq> Some x \<and> (\<forall>y. tc_prev e' = Some y \<longrightarrow> v y = v x \<and> g y < g x) \<and>
       (\<forall>z. tc_parent e' = Some z \<longrightarrow> v x = Some z) \<and> (\<forall>z. v x = Some z \<longrightarrow> ?m' z \<noteq> None)"
  proof (cases "x = q")
    case True
    then have e: "e' = d" using m by (simp add: moved_def)
    have "v y = v q \<and> g y < g q" if y: "tc_prev c = Some y" for y
    proof -
      have "y \<noteq> q" using y p(2) P(2,5) by (metis option.distinct(1))
      then show ?thesis using in_listsD(2) [OF l p(1) y] by (simp add: v_def g_def)
    qed
    moreover have "v q = Some z" if "tc_parent c = Some z" for z
      using in_listsD(3) [OF l p(1) that] P(1) that by (auto simp: v_def rename_def chunk_ok_def)
    moreover have "v q \<noteq> Some q"
      using in_listsD(1,4) [OF l p(1)] p(2) by (auto simp: v_def rename_def)
    ultimately show ?thesis using True live [OF _ p(1)] by (simp add: e c) (simp add: v_def)
  next
    case False
    then obtain e where e: "x \<noteq> p" "chunks h x = Some e" "e' = repoint q c x e"
      using m by (auto simp: moved_def split: if_splits)
    note B = moved_back [OF t p l e(2,1), folded e(3)]
    have v: "v x = rename p q (w x)" "g x = f x" "v q = rename p q (w p)" "g q = f p"
      using False by (simp_all add: v_def g_def)
    have "v y = v x \<and> g y < g x" if "tc_prev e' = Some y" for y
      using B(1) [OF that] v by (cases "y = q") (auto simp: v_def g_def split: if_splits)
    moreover have "v x \<noteq> Some x"
      using in_listsD(1) [OF l e(2)] False by (auto simp: v rename_def)
    ultimately show ?thesis using B(2) live [OF _ e(2)] by (simp add: v)
  qed
qed

lemma tidy_moved:
  assumes t: "tidy h" and p: "chunks h p = Some c" "q = p \<or> chunks h q = None"
    and d: "chunk_links d = chunk_links c" "tc_flags d = tc_flags c" "length (tc_data d) = tc_size d"
  shows "tidy (moved p q c d h)"
proof -
  obtain w f where l: "in_lists w f h" using t by (auto simp: tidy_def)
  note P = tidyD [OF t p(1)]
  have c: "tc_next d = tc_next c" "tc_prev d = tc_prev c" "tc_parent d = tc_parent c" "tc_child d = tc_child c"
    using d(1) by (simp_all add: chunk_links_def)
  have "tc_next c \<noteq> Some q" "tc_parent c \<noteq> Some q"
    using P(1,4,6) p(2) by (auto simp: chunk_ok_def)
  then have "chunk_ok q d" using P(1) d(2,3) by (simp add: chunk_ok_def c)
  then have "links_ok (moved p q c d h)"
    using t p d(1) by (intro linked_moved) (simp_all add: tidy_def)
  then show ?thesis using in_lists_moved [OF t p d(1) l] t by (auto simp: tidy_def moved_def)
qed

text \<open>
  Changes that leave the links, the size and the magic number of all chunks, and no chunk in the
  middle of being freed unmarked.
\<close>

definition frame :: "chunk \<Rightarrow> (ptr option \<times> ptr option \<times> ptr option \<times> ptr option) \<times>
    nat \<times> u32 \<times> bool \<times> nat" where
  "frame c = (chunk_links c, length (tc_data c), tc_flags c AND (TALLOC_FLAG_FREE OR NOT 0xF),
     has_flag TALLOC_FLAG_EXT_ALLOC c, tc_size c)"

definition framed :: "theap \<Rightarrow> theap \<Rightarrow> bool" where
  "framed h h' \<longleftrightarrow> (\<forall>x. map_option frame (chunks h' x) = map_option frame (chunks h x))"

lemma framed_refl: "framed h h"
  by (simp add: framed_def)

lemma framed_trans: "framed h h1 \<Longrightarrow> framed h1 h2 \<Longrightarrow> framed h h2"
  by (simp add: framed_def)

lemma framedD:
  assumes "framed h h'"
  shows "chunks h' x = None \<longleftrightarrow> chunks h x = None"
    and "chunks h' x = Some d \<Longrightarrow> \<exists>c. chunks h x = Some c \<and> frame d = frame c"
proof -
  have n: "map_option frame (chunks h' x) = map_option frame (chunks h x)" using assms by (simp add: framed_def)
  show "chunks h' x = None \<longleftrightarrow> chunks h x = None" using n by (cases "chunks h x"; cases "chunks h' x") auto
  show "chunks h' x = Some d \<Longrightarrow> \<exists>c. chunks h x = Some c \<and> frame d = frame c"
    using n by (cases "chunks h x") auto
qed

definition same_frame :: "chunk option \<Rightarrow> chunk option \<Rightarrow> bool" where
  "same_frame x y \<longleftrightarrow> rel_option (\<lambda>c d. frame d = frame c \<and>
     (has_flag TALLOC_FLAG_LOOP c \<longrightarrow> has_flag TALLOC_FLAG_LOOP d)) x y"

lemma same_frame_simps [simp]:
  "same_frame None None" "\<not> same_frame None (Some d)" "\<not> same_frame (Some c) None"
  "same_frame (Some c) (Some d) \<longleftrightarrow> frame d = frame c \<and> (has_flag TALLOC_FLAG_LOOP c \<longrightarrow> has_flag TALLOC_FLAG_LOOP d)"
  by (simp_all add: same_frame_def)

lemma same_frame_refl [simp]: "same_frame x x"
  by (cases x) simp_all

lemma same_frame_trans: "same_frame x y \<Longrightarrow> same_frame y z \<Longrightarrow> same_frame x z"
  by (cases x; cases y; cases z) simp_all

definition neutral :: "theap \<Rightarrow> theap \<Rightarrow> bool" where
  "neutral h h' \<longleftrightarrow> (\<forall>x. same_frame (chunks h x) (chunks h' x))"

lemma neutral_refl [simp]: "neutral h h"
  by (simp add: neutral_def)

lemma neutral_trans [trans]: "neutral h h1 \<Longrightarrow> neutral h1 h2 \<Longrightarrow> neutral h h2"
  unfolding neutral_def by (blast intro: same_frame_trans)

lemma neutralD:
  assumes "neutral h h'"
  shows "chunks h' x = None \<longleftrightarrow> chunks h x = None"
    and "chunks h' x = Some d \<Longrightarrow> \<exists>c. chunks h x = Some c \<and> frame d = frame c \<and>
      (has_flag TALLOC_FLAG_LOOP c \<longrightarrow> has_flag TALLOC_FLAG_LOOP d)"
proof -
  have n: "same_frame (chunks h x) (chunks h' x)" using assms by (simp add: neutral_def)
  show "chunks h' x = None \<longleftrightarrow> chunks h x = None" using n by (cases "chunks h x"; cases "chunks h' x") auto
  show "chunks h' x = Some d \<Longrightarrow> \<exists>c. chunks h x = Some c \<and> frame d = frame c \<and>
      (has_flag TALLOC_FLAG_LOOP c \<longrightarrow> has_flag TALLOC_FLAG_LOOP d)"
    using n by (cases "chunks h x") auto
qed

lemma frameD:
  assumes "frame d = frame c"
  shows "tc_next d = tc_next c" "tc_prev d = tc_prev c" "tc_parent d = tc_parent c" "tc_child d = tc_child c"
    "tc_flags d AND (TALLOC_FLAG_FREE OR NOT 0xF) = tc_flags c AND (TALLOC_FLAG_FREE OR NOT 0xF)"
    "length (tc_data d) = length (tc_data c)" "tc_size d = tc_size c"
    "has_flag TALLOC_FLAG_EXT_ALLOC d = has_flag TALLOC_FLAG_EXT_ALLOC c"
  using assms by (simp_all add: frame_def chunk_links_def)

lemma tidy_framed:
  assumes t: "tidy h" and n: "framed h h'" and null: "null_context h' = None"
  shows "tidy h'"
proof -
  obtain w f where l: "in_lists w f h" using t by (auto simp: tidy_def)
  have F: "field g (chunks h') = field g (chunks h)" if "\<And>c d. frame d = frame c \<Longrightarrow> g d = g c" for g
  proof
    fix x show "field g (chunks h') x = field g (chunks h) x"
    proof (cases "chunks h' x")
      case None
      then show ?thesis using framedD(1) [OF n, of x] by (simp add: field_def)
    next
      case (Some d)
      then obtain c where "chunks h x = Some c" "frame d = frame c" using framedD(2) [OF n] by blast
      then show ?thesis using Some that [of d c] by (simp add: field_def)
    qed
  qed
  have fs: "field tc_next (chunks h') = field tc_next (chunks h)" "field tc_prev (chunks h') = field tc_prev (chunks h)"
    "field tc_child (chunks h') = field tc_child (chunks h)" "field tc_parent (chunks h') = field tc_parent (chunks h)"
    by (intro F frameD; assumption)+
  show ?thesis
  proof (rule tidyI)
    show "opposite (field tc_next (chunks h')) (field tc_prev (chunks h'))"
      "opposite (field tc_child (chunks h')) (field tc_parent (chunks h'))"
      unfolding fs by (rule tidy_opposite [OF t])+
    fix x d assume "chunks h' x = Some d"
    then obtain c where c: "chunks h x = Some c" "frame d = frame c" using framedD(2) [OF n] by blast
    show "tc_flags d AND (TALLOC_FLAG_FREE OR NOT 0xF) = TALLOC_MAGIC \<and>
      length (tc_data d) = tc_size d \<and> (tc_parent d \<noteq> None \<longrightarrow> tc_prev d = None)"
      using tidy_flags [OF t c(1)] tidyD(9) [OF t c(1)] frameD [OF c(2)] by simp
  next
    show "finite {x. chunks h' x \<noteq> None}" using tidy_finite [OF t] framedD(1) [OF n] by simp
    show "null_context h' = None" by (rule null)
    show "in_lists w f h'"
      unfolding in_lists_def
    proof (intro allI impI)
      fix x d assume "chunks h' x = Some d"
      then obtain c where c: "chunks h x = Some c" "frame d = frame c" using framedD(2) [OF n] by blast
      show "w x \<noteq> Some x \<and> (\<forall>y. tc_prev d = Some y \<longrightarrow> w y = w x \<and> f y < f x) \<and>
         (\<forall>q. tc_parent d = Some q \<longrightarrow> w x = Some q) \<and> (\<forall>q. w x = Some q \<longrightarrow> chunks h' q \<noteq> None)"
        using in_listsD [OF l c(1)] frameD [OF c(2)] framedD(1) [OF n] by simp
    qed
  qed
qed

lemma neutral_framed: "neutral h h' \<Longrightarrow> framed h h'"
  unfolding framed_def
proof
  fix x assume "neutral h h'"
  then have "same_frame (chunks h x) (chunks h' x)" by (simp add: neutral_def)
  then show "map_option frame (chunks h' x) = map_option frame (chunks h x)"
    by (cases "chunks h x"; cases "chunks h' x") auto
qed

lemma tidy_neutral: "tidy h \<Longrightarrow> neutral h h' \<Longrightarrow> null_context h' = None \<Longrightarrow> tidy h'"
  by (rule tidy_framed [OF _ neutral_framed])

section \<open>Heaps with chunks in the middle of being freed\<close>

definition loose :: "ptr set \<Rightarrow> theap \<Rightarrow> theap" where
  "loose L h = h\<lparr>chunks := (\<lambda>x. if x \<in> L then map_option unlink (chunks h x) else chunks h x), null_context := None\<rparr>"

definition tidy_but :: "ptr set \<Rightarrow> theap \<Rightarrow> bool" where
  "tidy_but L h \<longleftrightarrow> tidy (loose L h) \<and> (\<forall>x \<in> L. \<forall>c. chunks h x = Some c \<longrightarrow> has_flag TALLOC_FLAG_LOOP c)"

lemma loose_chunks: "chunks (loose L h) x = (if x \<in> L then map_option unlink (chunks h x) else chunks h x)"
  by (simp add: loose_def)

lemma unlink_flag [simp]: "has_flag f (unlink c) = has_flag f c"
  by (simp add: has_flag_def unlink_def)

lemma frame_unlink: "frame d = frame c \<Longrightarrow> frame (unlink d) = frame (unlink c)"
  by (simp add: frame_def) (simp add: unlink_def chunk_links_def)

lemma neutral_loose: "neutral h h' \<Longrightarrow> neutral (loose L h) (loose L h')"
  unfolding neutral_def
proof
  fix x assume "\<forall>x. same_frame (chunks h x) (chunks h' x)"
  then have "same_frame (chunks h x) (chunks h' x)" by blast
  then show "same_frame (chunks (loose L h) x) (chunks (loose L h') x)"
    by (cases "chunks h x"; cases "chunks h' x") (auto simp: loose_chunks intro: frame_unlink)
qed

lemma tidy_but_neutral:
  assumes "tidy_but L h" "neutral h h'"
  shows "tidy_but L h'"
proof -
  have "tidy (loose L h')"
    using assms(1) by (intro tidy_neutral [OF _ neutral_loose [OF assms(2)]]) (simp_all add: tidy_but_def loose_def)
  moreover have "has_flag TALLOC_FLAG_LOOP d" if "x \<in> L" "chunks h' x = Some d" for x d
    using neutralD(2) [OF assms(2) that(2)] assms(1) that(1) by (auto simp: tidy_but_def)
  ultimately show ?thesis by (simp add: tidy_but_def)
qed

text \<open>The chunks in \<open>L\<close> are in no list, so nothing but their parent's stale links points to them.\<close>

lemma tidy_but_in:
  assumes "tidy (loose L h)" "x \<notin> L" "chunks h x = Some c"
  shows "tc_next c = Some y \<Longrightarrow> y \<notin> L" "tc_prev c = Some y \<Longrightarrow> y \<notin> L"
proof -
  have c: "chunks (loose L h) x = Some c" using assms(2,3) by (simp add: loose_chunks)
  show "tc_next c = Some y \<Longrightarrow> y \<notin> L"
    using tidyD(4) [OF assms(1) c, of y] by (auto simp: loose_chunks unlink_def split: if_splits)
  show "tc_prev c = Some y \<Longrightarrow> y \<notin> L"
    using tidyD(5) [OF assms(1) c, of y] by (auto simp: loose_chunks unlink_def split: if_splits)
qed

lemma tidy_but_child:
  assumes "tidy (loose L h)" "chunks h x = Some c" "tc_child c = Some k"
  shows "k \<notin> L" "\<exists>d. chunks h k = Some d \<and> tc_parent d = Some x \<and> tc_prev d = None"
proof -
  have "\<exists>c'. chunks (loose L h) x = Some c' \<and> tc_child c' = Some k"
    using assms(2,3) by (simp add: loose_chunks unlink_def)
  then obtain d where "chunks (loose L h) k = Some d" "tc_parent d = Some x" "tc_prev d = None"
    using tidyD(7) [OF assms(1)] by blast
  then show "k \<notin> L" "\<exists>d. chunks h k = Some d \<and> tc_parent d = Some x \<and> tc_prev d = None"
    by (auto simp: loose_chunks unlink_def split: if_splits)
qed

section \<open>Writes to chunks\<close>

definition setc :: "ptr option \<Rightarrow> (chunk \<Rightarrow> chunk) \<Rightarrow> theap \<Rightarrow> theap" where
  "setc t f h = h\<lparr>chunks := (\<lambda>x. if t = Some x then map_option f (chunks h x) else chunks h x)\<rparr>"

lemma setc_chunks [simp]: "chunks (setc t f h) x = (if t = Some x then map_option f (chunks h x) else chunks h x)"
  "null_context (setc t f h) = null_context h" "autofree_context (setc t f h) = autofree_context h"
  by (simp_all add: setc_def)

lemma upd_opt_setc: "upd_opt t f h = Some h' \<Longrightarrow> h' = setc t f h"
  by (cases t) (auto simp: upd_opt_def upd_def setc_def bind_eq_Some_conv intro!: theap_eqI)

lemma upd_setc: "upd p f h = Some h' \<Longrightarrow> h' = setc (Some p) f h"
  using upd_opt_setc [of "Some p" f h h'] by (simp add: upd_opt_def)

lemma upd_neutral:
  assumes "upd p f h = Some h'" "\<And>c. chunks h p = Some c \<Longrightarrow> same_frame (Some c) (Some (f c))"
  shows "neutral h h'"
  unfolding neutral_def upd_setc [OF assms(1)]
proof
  fix x show "same_frame (chunks h x) (chunks (setc (Some p) f h) x)"
    using assms(2) by (cases "chunks h x") auto
qed

section \<open>Moving a block\<close>

text \<open>When a heap is the one without a chunk, up to links that do not matter.\<close>

lemma loose_unhooked:
  assumes t: "tidy (loose L h)" and p: "p \<notin> L" "chunks h p = Some c"
    and h1: "\<And>x. x \<noteq> p \<Longrightarrow> chunks h1 x = map_option (unhook c x) (chunks h x)" "\<exists>d. chunks h1 p = Some d \<and> unlink d = unlink c"
      "null_context h1 = null_context h" "autofree_context h1 = autofree_context h"
  shows "loose (insert p L) h1 = unhooked p c (loose L h)"
proof (rule theap_eqI)
  fix x
  note out = tidy_but_in [OF t p]
  consider "x = p" | "x \<noteq> p" "x \<in> L" | "x \<noteq> p" "x \<notin> L" by blast
  then show "chunks (loose (insert p L) h1) x = chunks (unhooked p c (loose L h)) x"
  proof cases
    case 1
    then show ?thesis using h1(2) p by (auto simp: unhooked_def loose_chunks)
  next
    case 2
    then have "tc_next c \<noteq> Some x" "tc_prev c \<noteq> Some x" using out by auto
    then have "unlink (unhook c x e) = unhook c x (unlink e)" for e by (simp add: unlink_def unhook_def)
    then show ?thesis using 2 h1(1) by (simp add: unhooked_def loose_chunks option.map_comp o_def)
  next
    case 3
    then show ?thesis using h1(1) by (simp add: unhooked_def loose_chunks)
  qed
qed (simp_all add: loose_def unhooked_def h1(3,4))

lemma detach_loose:
  assumes t: "tidy (loose L h)" and p: "p \<notin> L" "chunks h p = Some c" and d: "detach p h = Some h1"
  shows "loose (insert p L) h1 = unhooked p c (loose L h)"
proof -
  have pl: "chunks (loose L h) p = Some c" using p by (simp add: loose_chunks)
  note P = tidyD [OF t pl] and out = tidy_but_in [OF t p]
  have k: "\<exists>d. chunks h k = Some d \<and> tc_prev d = Some p \<and> tc_parent d = None" if "tc_next c = Some k" for k
    using P(4) [OF that] out(1) [OF that] by (simp add: loose_chunks)
  have np: "tc_next c \<noteq> Some p" "tc_prev c \<noteq> Some p" "tc_parent c \<noteq> Some p"
    using P(1,2) by (simp_all add: chunk_ok_def)
  define U where "U = (\<lambda>h. setc (tc_next c) (tc_prev_update (\<lambda>_. tc_prev c)) (setc (tc_prev c) (tc_next_update (\<lambda>_. tc_next c)) h))"
  show ?thesis
  proof (cases "tc_parent c")
    case None
    obtain g where "upd_opt (tc_prev c) (tc_next_update (\<lambda>_. tc_next c)) h = Some g"
      "upd_opt (tc_next c) (tc_prev_update (\<lambda>_. tc_prev c)) g = Some h1"
      using d None p(2) by (auto simp: detach_def bind_eq_Some_conv)
    then have h1: "h1 = U h" by (auto simp: U_def dest!: upd_opt_setc)
    show ?thesis
    proof (rule loose_unhooked [OF t p])
      fix x assume "x \<noteq> p"
      show "chunks h1 x = map_option (unhook c x) (chunks h x)"
        using k [of x] None by (cases "chunks h x") (auto simp: h1 U_def unhook_def)
    qed (use np p(2) in \<open>simp_all add: h1 U_def unlink_def\<close>)
  next
    case (Some par)
    have pv: "tc_prev c = None" using P(9) Some by simp
    obtain pc where pc: "chunks h par = Some pc" "tc_child pc = Some p"
      using P(6) [OF Some] by (auto simp: loose_chunks unlink_def split: if_splits)
    have ne: "par \<noteq> p" "tc_next c \<noteq> Some par" using np Some P(8) [OF Some] by auto
    define g1 where "g1 = setc (Some par) (tc_child_update (\<lambda>_. tc_next c)) h"
    define g2 where "g2 = setc (tc_next c) (tc_prev_update (\<lambda>_. None)) g1"
    define g3 where "g3 = setc (Some p) (\<lambda>c. c\<lparr>tc_next := None, tc_prev := None\<rparr>) g2"
    have c2: "chunks g2 par = Some (pc\<lparr>tc_child := tc_next c\<rparr>)"
      using pc ne by (auto simp: g1_def g2_def)
    obtain g where g: "child_remove par p h = Some g" "\<exists>pc. chunks g par = Some pc \<and> upd_opt (tc_child pc) (tc_parent_update (\<lambda>_. Some par)) g = Some h1"
      using d Some p(2) by (auto simp: detach_def bind_eq_Some_conv)
    obtain a b where ab: "upd par (tc_child_update (\<lambda>_. tc_next c)) h = Some a" "upd_opt (tc_next c) (tc_prev_update (\<lambda>_. None)) a = Some b"
      "\<exists>pc1. chunks b par = Some pc1 \<and> (if tc_child pc1 = Some p then Some b
        else upd p (\<lambda>c. c\<lparr>tc_next := None, tc_prev := None\<rparr>) b) = Some g"
      using g(1) p(2) pc by (auto simp: child_remove_def bind_eq_Some_conv)
    have b: "b = g2" using ab(1,2) by (auto simp: g1_def g2_def dest!: upd_setc upd_opt_setc)
    have g3: "g = g3" using ab(3) np(1) c2 by (auto simp: b g3_def dest: upd_setc)
    have "chunks g3 par = Some (pc\<lparr>tc_child := tc_next c\<rparr>)" using c2 ne by (simp add: g3_def)
    then have h1: "h1 = setc (tc_next c) (tc_parent_update (\<lambda>_. Some par)) g3"
      using g(2) by (auto simp: g3 dest: upd_opt_setc)
    show ?thesis
    proof (rule loose_unhooked [OF t p])
      fix x assume "x \<noteq> p"
      then show "chunks h1 x = map_option (unhook c x) (chunks h x)"
        using pv Some by (cases "chunks h x") (auto simp: h1 g3_def g2_def g1_def unhook_def)
    qed (use np ne p(2) Some in \<open>auto simp: h1 g3_def g2_def g1_def unlink_def\<close>)
  qed
qed

lemma detach_tidy:
  assumes t: "tidy_but L h" and p: "p \<notin> L" and d: "detach p h = Some h1"
  shows "tidy (loose (insert p L) h1)" "\<exists>c. chunks h1 p = Some c"
    "\<forall>x \<in> L. \<forall>c. chunks h1 x = Some c \<longrightarrow> has_flag TALLOC_FLAG_LOOP c"
proof -
  obtain c where c: "chunks h p = Some c" using d by (auto simp: detach_def bind_eq_Some_conv)
  have tl: "tidy (loose L h)" using t by (simp add: tidy_but_def)
  have pl: "chunks (loose L h) p = Some c" using c p by (simp add: loose_chunks)
  note e = detach_loose [OF tl p c d]
  show "tidy (loose (insert p L) h1)" unfolding e by (rule tidy_unhooked [OF tl pl])
  have "chunks (loose (insert p L) h1) p \<noteq> None" unfolding e using pl by (simp add: unhooked_def)
  then show "\<exists>c. chunks h1 p = Some c" by (simp add: loose_chunks)
  show "\<forall>x \<in> L. \<forall>c. chunks h1 x = Some c \<longrightarrow> has_flag TALLOC_FLAG_LOOP c"
  proof (intro ballI allI impI)
    fix x d1 assume x: "x \<in> L" "chunks h1 x = Some d1"
    then have "chunks (unhooked p c (loose L h)) x = Some (unlink d1)"
      unfolding e [symmetric] by (simp add: loose_chunks)
    then obtain d0 where d0: "chunks h x = Some d0" "unlink d1 = unhook c x (unlink d0)"
      using x(1) p by (auto simp: unhooked_def loose_chunks split: if_splits)
    have "has_flag TALLOC_FLAG_LOOP d0" using t x(1) d0(1) by (simp add: tidy_but_def)
    moreover have "has_flag TALLOC_FLAG_LOOP (unlink d1) = has_flag TALLOC_FLAG_LOOP (unlink d0)"
      unfolding d0(2) by (simp add: has_flag_def unhook_def)
    ultimately show "has_flag TALLOC_FLAG_LOOP d1" by simp
  qed
qed

text \<open>Putting a block in front of the children of another one, written out.\<close>

lemma child_add_setc:
  assumes "child_add n p h = Some h'" "chunks h n = Some nc" "n \<noteq> p"
  shows "h' = setc (Some n) (tc_child_update (\<lambda>_. Some p))
      (setc (Some p) (\<lambda>c. c\<lparr>tc_next := tc_child nc, tc_prev := None\<rparr>)
        (setc (tc_child nc) (tc_prev_update (\<lambda>_. Some p)) h))"
proof (cases "tc_child nc")
  case None
  then obtain g where "upd n (tc_child_update (\<lambda>_. Some p)) h = Some g"
    "upd p (\<lambda>c. c\<lparr>tc_next := None, tc_prev := None\<rparr>) g = Some h'"
    using assms(1,2) by (auto simp: child_add_def bind_eq_Some_conv)
  then show ?thesis using assms(3) None by (auto dest!: upd_setc intro!: theap_eqI)
next
  case (Some k)
  then obtain g g' where "upd k (tc_prev_update (\<lambda>_. Some p)) h = Some g"
    "upd p (\<lambda>c. c\<lparr>tc_next := Some k, tc_prev := None\<rparr>) g = Some g'"
    "upd n (tc_child_update (\<lambda>_. Some p)) g' = Some h'"
    using assms(1,2) by (auto simp: child_add_def bind_eq_Some_conv)
  then show ?thesis using Some by (auto dest!: upd_setc)
qed

lemma attach_loose:
  assumes t: "tidy (loose (insert p L) h)" and p: "p \<notin> L" "chunks h p = Some c" and n: "n \<noteq> p"
    and a: "upd p (tc_parent_update (\<lambda>_. Some n)) h = Some h2" "chunks h2 n = Some nc"
      "upd_opt (tc_child nc) (tc_parent_update (\<lambda>_. None)) h2 = Some h3" "child_add n p h3 = Some h4"
  shows "loose L h4 = hooked p n (loose (insert p L) h)" "tidy (loose L h4)"
    "\<And>x d. chunks h4 x = Some d \<Longrightarrow> \<exists>e. chunks h x = Some e \<and> tc_flags d = tc_flags e"
proof -
  let ?g = "loose (insert p L) h"
  have h2: "h2 = setc (Some p) (tc_parent_update (\<lambda>_. Some n)) h" using upd_setc [OF a(1)] .
  have nh: "chunks h n = Some nc" using a(2) n by (simp add: h2)
  have h3: "h3 = setc (tc_child nc) (tc_parent_update (\<lambda>_. None)) h2" using upd_opt_setc [OF a(3)] .
  obtain nc3 where nc3: "chunks h3 n = Some nc3" "tc_child nc3 = tc_child nc"
    using a(2) by (cases "tc_child nc = Some n") (auto simp: h3)
  have k: "k \<noteq> p" "k \<notin> L" if "tc_child nc = Some k" for k
    using tidy_but_child(1) [OF t nh that] by simp_all
  note h4 = child_add_setc [OF a(4) nc3(1) n, unfolded nc3(2)]
  have ng: "field tc_child (chunks ?g) n = tc_child nc"
    using nh by (simp add: field_def loose_chunks unlink_def)
  show eq: "loose L h4 = hooked p n ?g"
  proof (rule theap_eqI)
    fix x
    consider "x = p" | "x \<noteq> p" "x \<in> L" | "x \<noteq> p" "x \<notin> L" by blast
    then show "chunks (loose L h4) x = chunks (hooked p n ?g) x"
    proof cases
      case 1
      then show ?thesis using p n k by (auto simp: hooked_def ng loose_chunks h4 h3 h2 hook_def unlink_def)
    next
      case 2
      then have "tc_child nc \<noteq> Some x" using k by auto
      then show ?thesis using 2
        by (cases "chunks h x") (auto simp: hooked_def ng loose_chunks h4 h3 h2 hook_def unlink_def)
    next
      case 3
      then show ?thesis
        by (cases "chunks h x") (auto simp: hooked_def ng loose_chunks h4 h3 h2 hook_def unlink_def)
    qed
  qed (simp_all add: loose_def hooked_def h4 h3 h2)
  have pg: "chunks ?g p = Some (unlink c)" using p(2) by (simp add: loose_chunks)
  obtain ng' where "chunks ?g n = Some ng'" using nh by (cases "n \<in> insert p L") (simp_all add: loose_chunks)
  then show "tidy (loose L h4)" unfolding eq
    using tidy_hooked [OF t pg] n by (simp add: unlink_def)
  show "chunks h4 x = Some d \<Longrightarrow> \<exists>e. chunks h x = Some e \<and> tc_flags d = tc_flags e" for x d
    by (auto simp: h4 h3 h2 split: if_splits)
qed

lemma chunk_from_ptr_chunk: "talloc_chunk_from_ptr p h = Some c \<Longrightarrow> chunks h p = Some c"
  by (auto simp: talloc_chunk_from_ptr_def bind_eq_Some_conv split: if_splits)

lemma steal_tidy:
  assumes t: "tidy_but L h" and p: "p \<notin> L" and s: "talloc_steal ctx (Some p) h = Some (r, h')"
  shows "tidy_but L h'"
proof -
  define cx where "cx = (case ctx of None \<Rightarrow> null_context h | Some q \<Rightarrow> Some q)"
  obtain tc where tc: "chunks h p = Some tc" "talloc_chunk_from_ptr p h = Some tc"
    using s chunk_from_ptr_chunk by (auto simp: talloc_steal_def Let_def bind_eq_Some_conv)
  show ?thesis
  proof (cases cx)
    case None
    then obtain h1 where h1: "detach p h = Some h1"
      "upd p (\<lambda>c. c\<lparr>tc_parent := None, tc_next := None, tc_prev := None\<rparr>) h1 = Some h'"
      using s tc(2) by (auto simp: talloc_steal_def Let_def bind_eq_Some_conv cx_def split: option.splits)
    note d = detach_tidy [OF t p h1(1)]
    have "(\<lambda>c. c\<lparr>tc_parent := None, tc_next := None, tc_prev := None\<rparr>) = unlink"
      by (rule ext) (simp add: unlink_def)
    then have h': "h' = setc (Some p) unlink h1" using upd_setc [OF h1(2)] by simp
    have "loose L h' = loose (insert p L) h1"
      using p by (auto simp: h' loose_chunks intro!: theap_eqI) (simp_all add: loose_def)
    moreover have "has_flag TALLOC_FLAG_LOOP c" if "x \<in> L" "chunks h' x = Some c" for x c
      using d(3) that by (auto simp: h' split: if_splits)
    ultimately show ?thesis using d(1) by (simp add: tidy_but_def)
  next
    case (Some n)
    show ?thesis
    proof (cases "p = n \<or> tc_parent tc = Some n")
      case True
      then have "h' = h"
        using s tc(2) Some by (auto simp: talloc_steal_def Let_def bind_eq_Some_conv cx_def split: option.splits if_splits)
      then show ?thesis using t by simp
    next
      case False
      then obtain h1 h2 nc h3 where h: "detach p h = Some h1" "upd p (tc_parent_update (\<lambda>_. Some n)) h1 = Some h2"
        "chunks h2 n = Some nc" "upd_opt (tc_child nc) (tc_parent_update (\<lambda>_. None)) h2 = Some h3"
        "child_add n p h3 = Some h'"
        using s tc(2) Some by (auto simp: talloc_steal_def Let_def bind_eq_Some_conv cx_def split: option.splits if_splits)
      note d = detach_tidy [OF t p h(1)]
      obtain c where c: "chunks h1 p = Some c" using d(2) by blast
      have n: "n \<noteq> p" using False by simp
      note a = attach_loose [OF d(1) p c n h(2-5)]
      have "has_flag TALLOC_FLAG_LOOP c" if "x \<in> L" "chunks h' x = Some c" for x c
        using a(3) [OF that(2)] d(3) that(1) by (auto simp: has_flag_def)
      then show ?thesis using a(2) by (simp add: tidy_but_def)
    qed
  qed
qed

end
