(* ===== verification/TallocInv.thy ===== *)
theory TallocInv
  imports TallocTidy
begin

unbundle bit_operations_syntax

text \<open>
  The operations of src/talloc.c the others are built on keep the links of \<open>TallocTidy\<close> consistent: freeing, with
  destructors that refuse and children that are adopted, allocating, resizing, moving, and the
  walks that mark chunks. The allocator is taken to hand out unused memory, and users' destructors to
  leave the links alone (\<open>gentle\<close>).
\<close>

section \<open>Operations that leave the links alone\<close>

text \<open>The allocator hands out unused memory, and users' destructors do not move blocks.\<close>

definition gentle :: "tenv \<Rightarrow> bool" where
  "gentle env \<longleftrightarrow> (\<forall>n h p. t_malloc env n h = Some p \<longrightarrow> chunks h p = None) \<and>
     (\<forall>p n h q. t_realloc env p n h = Some q \<longrightarrow> q = p \<or> chunks h q = None) \<and>
     (\<forall>c p n h q. t_external env c p n h = Some q \<longrightarrow> p = Some q \<or> chunks h q = None) \<and>
     (\<forall>n p h. neutral h (snd (t_destructor env n p h)))"

lemma gentleD:
  assumes "gentle env"
  shows "t_malloc env n h = Some p \<Longrightarrow> chunks h p = None"
    "t_realloc env p n h = Some q \<Longrightarrow> q \<noteq> p \<Longrightarrow> chunks h q = None"
    "t_external env c s n h = Some q \<Longrightarrow> s \<noteq> Some q \<Longrightarrow> chunks h q = None"
    "neutral h (snd (t_destructor env n p h))"
  using assms unfolding gentle_def by blast+

lemma frame_update [simp]:
  "frame (tc_name_update a c) = frame c" "frame (tc_destructor_update b c) = frame c"
  "frame (tc_refs_update r c) = frame c" "has_flag x (tc_name_update a c) = has_flag x c"
  "has_flag x (tc_destructor_update b c) = has_flag x c" "has_flag x (tc_refs_update r c) = has_flag x c"
  "has_flag x (tc_data_update d c) = has_flag x c"
  by (simp_all add: frame_def chunk_links_def has_flag_def)

lemma frame_data: "length (f (tc_data c)) = length (tc_data c) \<Longrightarrow> frame (tc_data_update f c) = frame c"
  by (simp add: frame_def chunk_links_def has_flag_def)

text \<open>The flags are different bits.\<close>

lemma mark_keeps_external [simp]:
  "has_flag TALLOC_FLAG_EXT_ALLOC (set_flag TALLOC_FLAG_LOOP c) = has_flag TALLOC_FLAG_EXT_ALLOC c"
  "has_flag TALLOC_FLAG_EXT_ALLOC (clear_flag TALLOC_FLAG_LOOP c) = has_flag TALLOC_FLAG_EXT_ALLOC c"
  by (simp_all add: has_flag_def set_flag_def clear_flag_def bit.conj_disj_distrib2 and.assoc
      TALLOC_FLAG_EXT_ALLOC_def TALLOC_FLAG_LOOP_def)

lemma store_ptr_neutral: "store_ptr p off q h = Some h' \<Longrightarrow> neutral h h'"
  by (auto simp: store_ptr_def bind_eq_Some_conv frame_data split: if_splits elim!: upd_neutral)

lemma store_cells_neutral: "store_cells p off cs h = Some h' \<Longrightarrow> neutral h h'"
  by (auto simp: store_cells_def bind_eq_Some_conv frame_data put_cells_def split: if_splits elim!: upd_neutral)

lemma store_bytes_neutral: "store_bytes p off bs h = Some h' \<Longrightarrow> neutral h h'"
  unfolding store_bytes_def by (rule store_cells_neutral)

lemma upd_name_neutral: "upd p (tc_name_update f) h = Some h' \<Longrightarrow> neutral h h'"
  by (erule upd_neutral) simp

lemma set_name_neutral: "talloc_set_name_const p n h = Some h' \<Longrightarrow> neutral h h'"
  by (auto simp: talloc_set_name_const_def bind_eq_Some_conv elim!: upd_neutral)

lemma set_destructor_neutral: "talloc_set_destructor p d h = Some h' \<Longrightarrow> neutral h h'"
  by (auto simp: talloc_set_destructor_def bind_eq_Some_conv elim!: upd_neutral)

lemma set_handle_neutral:
  "set_handle_next r q h = Some h' \<Longrightarrow> neutral h h'" "set_handle_prev r q h = Some h' \<Longrightarrow> neutral h h'"
  by (auto simp: set_handle_next_def set_handle_prev_def split: option.splits elim: store_ptr_neutral)

lemma upd_refs_neutral: "upd p (tc_refs_update f) h = Some h' \<Longrightarrow> neutral h h'"
  by (erule upd_neutral) simp

lemma upd_destructor_neutral: "upd p (tc_destructor_update f) h = Some h' \<Longrightarrow> neutral h h'"
  by (erule upd_neutral) simp

lemma refs_add_neutral: "refs_add p r h = Some h' \<Longrightarrow> neutral h h'"
  by (auto simp: refs_add_def bind_eq_Some_conv dest!: set_handle_neutral upd_refs_neutral
      intro: neutral_trans)

lemma refs_remove_neutral:
  assumes "refs_remove p r h = Some h'"
  shows "neutral h h'"
proof -
  obtain c nxt h1 and c1 :: chunk where 1: "chunks h p = Some c" "(if tc_refs c = Some r
        then do { h1 \<leftarrow> upd p (tc_refs_update (\<lambda>_. nxt)) h; set_handle_prev nxt None h1 }
        else do { prev \<leftarrow> handle_prev r h; h1 \<leftarrow> set_handle_next prev nxt h; set_handle_prev nxt prev h1 }) = Some h1"
    "(if tc_refs c1 = Some r then Some h1
      else do { h2 \<leftarrow> set_handle_next (Some r) None h1; set_handle_prev (Some r) None h2 }) = Some h'"
    using assms by (auto simp: refs_remove_def bind_eq_Some_conv)
  have "neutral h h1"
    using 1(2) by (auto simp: bind_eq_Some_conv split: if_splits
        dest!: set_handle_neutral upd_refs_neutral intro: neutral_trans)
  moreover have "neutral h1 h'"
    using 1(3) by (auto simp: bind_eq_Some_conv split: if_splits
        dest!: set_handle_neutral intro: neutral_trans)
  ultimately show ?thesis by (rule neutral_trans)
qed

lemma run_destructor_neutral:
  assumes "gentle env" "run_destructor env d p h = Some (r, h')"
  shows "neutral h h'"
proof (cases d)
  case Destr_ref
  then show ?thesis
    using assms(2) by (auto simp: run_destructor_def talloc_reference_destructor_def bind_eq_Some_conv
        dest!: refs_remove_neutral)
next
  case Destr_autofree
  then show ?thesis using assms(2) by (auto simp: run_destructor_def neutral_def)
next
  case (Destr_user n)
  then have "h' = snd (t_destructor env n p h)" using assms(2) by (cases "t_destructor env n p h") (simp add: run_destructor_def)
  then show ?thesis using assms(1) by (simp add: gentle_def)
qed (use assms(2) in \<open>simp_all add: run_destructor_def\<close>)

lemma destroy_neutral:
  assumes "gentle env" "destroy env p h = Some (r, h')"
  shows "neutral h h'"
proof -
  obtain c where c: "chunks h p = Some c" using assms(2) by (auto simp: destroy_def bind_eq_Some_conv)
  show ?thesis
  proof (cases "tc_destructor c = Destr_none \<or> tc_destructor c = Destr_busy")
    case True
    then show ?thesis using assms(2) c by (auto simp: destroy_def)
  next
    case False
    then obtain h1 r2 h2 where h: "upd p (tc_destructor_update (\<lambda>_. Destr_busy)) h = Some h1"
      "run_destructor env (tc_destructor c) p h1 = Some (r2, h2)"
      "\<exists>d. upd p (tc_destructor_update (\<lambda>_. d)) h2 = Some h'"
      using assms(2) c by (auto simp: destroy_def bind_eq_Some_conv split: destructor.splits if_splits)
    from h(3) have "neutral h2 h'" by (elim exE upd_destructor_neutral)
    from neutral_trans [OF upd_destructor_neutral [OF h(1)]
        neutral_trans [OF run_destructor_neutral [OF assms(1) h(2)] this]]
    show ?thesis .
  qed
qed

section \<open>Freeing\<close>

lemma set_flag_loop: "has_flag TALLOC_FLAG_LOOP (set_flag TALLOC_FLAG_LOOP c)"
proof -
  have "(f OR TALLOC_FLAG_LOOP) AND TALLOC_FLAG_LOOP = TALLOC_FLAG_LOOP" for f :: u32
    by (intro bit_word_eqI) (auto simp: bit_simps)
  then show ?thesis by (simp add: has_flag_def set_flag_def) (simp add: TALLOC_FLAG_LOOP_def)
qed

lemma set_loop_neutral: "upd p (set_flag TALLOC_FLAG_LOOP) h = Some h' \<Longrightarrow> neutral h h'"
proof (erule upd_neutral)
  fix c
  have "(f OR TALLOC_FLAG_LOOP) AND (TALLOC_FLAG_FREE OR NOT 0xF) = f AND (TALLOC_FLAG_FREE OR NOT 0xF)" for f :: u32
    by (intro bit_word_eqI) (auto simp: bit_simps TALLOC_FLAG_LOOP_def TALLOC_FLAG_FREE_def)
  then show "same_frame (Some c) (Some (set_flag TALLOC_FLAG_LOOP c))"
    using set_flag_loop by (simp add: frame_def) (simp add: set_flag_def chunk_links_def)
qed

text \<open>A block taken out of its list and marked is one in the middle of being freed.\<close>

lemma detach_mark_tidy:
  assumes t: "tidy_but L h" and p: "p \<notin> L" and h: "detach p h = Some h1" "upd p (set_flag TALLOC_FLAG_LOOP) h1 = Some h2"
  shows "tidy_but (insert p L) h2"
proof -
  note dt = detach_tidy [OF t p h(1)]
  have n: "neutral h1 h2" by (rule set_loop_neutral [OF h(2)])
  have "tidy (loose (insert p L) h2)"
    by (rule tidy_neutral [OF dt(1) neutral_loose [OF n]]) (simp add: loose_def)
  moreover have "has_flag TALLOC_FLAG_LOOP d" if "x \<in> L" "chunks h2 x = Some d" for x d
    using neutralD(2) [OF n that(2)] dt(3) that(1) by auto
  moreover have "has_flag TALLOC_FLAG_LOOP d" if "chunks h2 p = Some d" for d
    using upd_setc [OF h(2)] that set_flag_loop by auto
  ultimately show ?thesis by (auto simp: tidy_but_def)
qed

lemma release_tidy:
  assumes t: "tidy_but (insert p L) h" and c: "chunks h p = Some c" "tc_child c = None"
    and r: "release p h = Some h'" and p: "p \<notin> L"
  shows "tidy_but L h'"
proof -
  have h': "h' = h\<lparr>chunks := (chunks h)(p := None)\<rparr>" using r c(1) by (simp add: release_def)
  have pl: "chunks (loose (insert p L) h) p = Some (unlink c)" using c by (simp add: loose_chunks)
  have "tidy ((loose (insert p L) h)\<lparr>chunks := (chunks (loose (insert p L) h))(p := None)\<rparr>)"
    using t c(2) by (intro tidy_release [OF _ pl]) (simp_all add: tidy_but_def unlink_def)
  moreover have "loose L h' = (loose (insert p L) h)\<lparr>chunks := (chunks (loose (insert p L) h))(p := None)\<rparr>"
  proof (rule theap_eqI)
    show "chunks (loose L h') x = chunks ((loose (insert p L) h)\<lparr>chunks := (chunks (loose (insert p L) h))(p := None)\<rparr>) x" for x
      using p by (simp add: h' loose_chunks)
  qed (simp_all add: h' loose_def)
  ultimately show ?thesis using t by (simp add: tidy_but_def h')
qed

lemma adopt_tidy:
  assumes t: "tidy_but L h" and k: "k \<notin> L" and a: "adopt new_parent p k h = Some h'"
  shows "tidy_but L h'"
proof -
  obtain np r where "talloc_steal np (Some k) h = Some (r, h')"
    using a by (auto simp: adopt_def bind_eq_Some_conv)
  then show ?thesis by (rule steal_tidy [OF t k])
qed

text \<open>What a job of freeing leaves.\<close>

fun freed_tidy :: "free_job \<Rightarrow> theap \<Rightarrow> theap \<Rightarrow> bool" where
  "freed_tidy (Free p) h h' = (\<forall>L. tidy_but L h \<longrightarrow> tidy_but L h')"
| "freed_tidy (Children p) h h' = (\<forall>L. tidy_but L h \<longrightarrow> p \<in> L \<longrightarrow>
     tidy_but L h' \<and> (\<exists>c. chunks h' p = Some c \<and> tc_child c = None))"

text \<open>The ways \<open>_talloc_free\<close> and its loop can return, as an induction rule.\<close>

lemma free_run_rule [consumes 1, case_names refs loop refused freed none child]:
  assumes run: "free_run env job h = Some y"
    and refs: "\<And>p h c q b r h1 y. talloc_chunk_from_ptr p h = Some c \<Longrightarrow> tc_refs c = Some q \<Longrightarrow>
      P (Free q) h (r, h1) \<Longrightarrow> if b then P (Free p) h1 y else y = (-1, h1) \<Longrightarrow> P (Free p) h y"
    and loop: "\<And>p h c. talloc_chunk_from_ptr p h = Some c \<Longrightarrow> has_flag TALLOC_FLAG_LOOP c \<Longrightarrow> P (Free p) h (0, h)"
    and refused: "\<And>p h c r h1. talloc_chunk_from_ptr p h = Some c \<Longrightarrow> destroy env p h = Some (r, h1) \<Longrightarrow> P (Free p) h (-1, h1)"
    and freed: "\<And>p h c r h1 c1 h2 h3 n h4 h5. talloc_chunk_from_ptr p h = Some c \<Longrightarrow> \<not> has_flag TALLOC_FLAG_LOOP c \<Longrightarrow>
      destroy env p h = Some (r, h1) \<Longrightarrow> chunks h1 p = Some c1 \<Longrightarrow>
      has_flag TALLOC_FLAG_EXT_ALLOC c1 \<longrightarrow> tc_lock env \<noteq> Some Waits \<Longrightarrow>
      detach p h1 = Some h2 \<Longrightarrow> upd p (set_flag TALLOC_FLAG_LOOP) h2 = Some h3 \<Longrightarrow>
      P (Children p) h3 (n, h4) \<Longrightarrow> release p h4 = Some h5 \<Longrightarrow> P (Free p) h (0, h5)"
    and none: "\<And>p h c. chunks h p = Some c \<Longrightarrow> tc_child c = None \<Longrightarrow> P (Children p) h (0, h)"
    and child: "\<And>p h c k r h1 h2 y. chunks h p = Some c \<Longrightarrow> tc_child c = Some k \<Longrightarrow> P (Free k) h (r, h1) \<Longrightarrow>
      h2 = h1 \<or> (\<exists>np. adopt np p k h1 = Some h2) \<Longrightarrow> P (Children p) h2 y \<Longrightarrow> P (Children p) h y"
  shows "P job h y"
proof -
  have "env = env \<longrightarrow> P job h y"
  proof (rule free_run.raw_induct [where P = "\<lambda>e job h y. e = env \<longrightarrow> P job h y", OF _ run], goal_cases)
    case (1 rec e job h y)
    have IH: "P j h0 z" if "rec env j h0 = Some z" for j h0 z using 1(1) [OF that] by simp
    show ?case
    proof (intro impI, cases job)
      fix p
      assume e: "e = env" and job: "job = Free p"
      obtain c where c: "talloc_chunk_from_ptr p h = Some c" using 1(2) job by (auto simp: bind_eq_Some_conv)
      note eq = 1(2) [unfolded e job]
      show "P job h y"
      proof (cases "tc_refs c")
        case (Some q)
        then obtain b r h1 where b: "rec env (Free q) h = Some (r, h1)"
          "(if b then rec env (Free p) h1 else Some (-1, h1)) = Some y"
          using eq c by (auto simp: bind_eq_Some_conv)
        show ?thesis unfolding job
          by (rule refs [OF c Some IH [OF b(1)], of b]) (use b(2) in \<open>auto split: if_splits intro: IH\<close>)
      next
        case no: None
        show ?thesis
        proof (cases "has_flag TALLOC_FLAG_LOOP c")
          case True
          then have "y = (0, h)" using eq c no by auto
          then show ?thesis unfolding job using loop [OF c True] by simp
        next
          case False
          obtain r h1 where d: "destroy env p h = Some (r, h1)"
            using eq c no False by (auto simp: bind_eq_Some_conv)
          show ?thesis
          proof (cases "r = -1")
            case True
            then have "y = (-1, h1)" using eq c no False d by auto
            then show ?thesis unfolding job using refused [OF c d] by simp
          next
            case ok: False
            obtain c1 where c1: "chunks h1 p = Some c1"
              using eq c no False d ok by (cases "chunks h1 p") simp_all
            have lock: "has_flag TALLOC_FLAG_EXT_ALLOC c1 \<longrightarrow> tc_lock env \<noteq> Some Waits"
              using eq c no False d ok c1 by (auto simp: relock_def)
            obtain h2 h3 n h4 h5 where h: "detach p h1 = Some h2" "upd p (set_flag TALLOC_FLAG_LOOP) h2 = Some h3"
              "rec env (Children p) h3 = Some (n, h4)" "release p h4 = Some h5" "y = (0, h5)"
              using eq c no False d ok c1 by (auto simp: bind_eq_Some_conv)
            show ?thesis unfolding job h(5) by (rule freed [OF c False d c1 lock h(1,2) IH [OF h(3)] h(4)])
          qed
        qed
      qed
    next
      fix p
      assume e: "e = env" and job: "job = Children p"
      note eq = 1(2) [unfolded e job]
      obtain c where c: "chunks h p = Some c" using eq by (auto simp: bind_eq_Some_conv)
      show "P job h y"
      proof (cases "tc_child c")
        case None
        then have "y = (0, h)" using eq c by auto
        then show ?thesis unfolding job using none [OF c None] by simp
      next
        case (Some k)
        obtain np r h1 h2 where h: "rec env (Free k) h = Some (r, h1)"
          "(if r = -1 then adopt np p k h1 else Some h1) = Some h2" "rec env (Children p) h2 = Some y"
          using eq c Some by (auto simp: bind_eq_Some_conv)
        show ?thesis unfolding job
          by (rule child [OF c Some IH [OF h(1)] _ IH [OF h(3)]]) (use h(2) in \<open>auto split: if_splits\<close>)
      qed
    qed
  qed
  then show ?thesis by simp
qed

lemma free_run_tidy:
  assumes "free_run env job h = Some y" "gentle env"
  shows "freed_tidy job h (snd y)"
  using assms(1)
proof (induction rule: free_run_rule)
  case (refs p h c q b r h1 y)
  then show ?case by (cases b) auto
next
  case (refused p h c r h1)
  then show ?case using tidy_but_neutral [OF _ destroy_neutral [OF assms(2) refused(2)]] by simp
next
  case (freed p h c r h1 c1 h2 h3 n h4 h5)
  have "tidy_but L h5" if t: "tidy_but L h" for L
  proof -
    have p: "p \<notin> L" using t chunk_from_ptr_chunk [OF freed(1)] freed(2) by (auto simp: tidy_but_def)
    have "tidy_but L h1" by (rule tidy_but_neutral [OF t destroy_neutral [OF assms(2) freed(3)]])
    from detach_mark_tidy [OF this p freed(6,7)] freed.IH
    obtain c4 where c4: "tidy_but (insert p L) h4" "chunks h4 p = Some c4" "tc_child c4 = None" by auto
    show ?thesis by (rule release_tidy [OF c4 freed(8) p])
  qed
  then show ?case by simp
next
  case (child p h c k r h1 h2 y)
  have "tidy_but L h2" if t: "tidy_but L h" for L
  proof -
    have tl: "tidy (loose L h)" using t by (simp add: tidy_but_def)
    have k: "k \<notin> L" by (rule tidy_but_child(1) [OF tl child(1,2)])
    have "tidy_but L h1" using child.IH(1) t by simp
    then show ?thesis using child(3) adopt_tidy [OF _ k] by blast
  qed
  then show ?case using child.IH(2) by auto
qed auto

lemma free_tidy:
  assumes "gentle env" "tidy_but L h" "talloc_free env p h = Some (r, h')"
  shows "tidy_but L h'"
proof (cases p)
  case None
  then show ?thesis using assms by (simp add: talloc_free_def)
next
  case (Some q)
  then have "free_run env (Free q) h = Some (r, h')" using assms(3) by (simp add: talloc_free_def)
  from free_run_tidy [OF this assms(1)] assms(2) show ?thesis by simp
qed

section \<open>Allocating and resizing\<close>

text \<open>A heap with no chunk in the middle of being freed.\<close>

abbreviation linked_heap :: "theap \<Rightarrow> bool" where
  "linked_heap \<equiv> tidy_but {}"

lemma linked_heap_def: "linked_heap h = tidy (h\<lparr>null_context := None\<rparr>)"
proof -
  have "loose {} h = h\<lparr>null_context := None\<rparr>" by (simp add: loose_def)
  then show ?thesis by (simp add: tidy_but_def)
qed

lemma null_chunks: "(h\<lparr>chunks := m\<rparr>)\<lparr>null_context := n\<rparr> = (h\<lparr>null_context := n\<rparr>)\<lparr>chunks := m\<rparr>" for h :: theap
  by (rule theap_eqI) simp_all

lemma init_tidy:
  assumes t: "linked_heap h" and p: "chunks h p = None" and i: "init_talloc parent (Some p) sz e h = Some (r, h')"
  shows "linked_heap h'"
proof -
  define g where "g = (h\<lparr>null_context := None\<rparr>)\<lparr>chunks := (chunks h)(p \<mapsto> new_chunk sz e None None)\<rparr>"
  have g: "tidy g" using tidy_root [of "h\<lparr>null_context := None\<rparr>" p sz e] t p by (simp add: linked_heap_def g_def)
  show ?thesis
  proof (cases parent)
    case None
    then have "h' = h\<lparr>chunks := (chunks h)(p \<mapsto> new_chunk sz e None None)\<rparr>" using i by (simp add: init_talloc_def)
    then show ?thesis using g by (simp add: linked_heap_def g_def null_chunks)
  next
    case (Some q)
    obtain pc h1 h2 where h: "chunks h q = Some pc" "upd_opt (tc_child pc) (\<lambda>c. c\<lparr>tc_parent := None, tc_prev := Some p\<rparr>) h = Some h1"
      "upd q (tc_child_update (\<lambda>_. Some p)) h1 = Some h2" "h' = h2\<lparr>chunks := (chunks h2)(p \<mapsto> new_chunk sz e (Some q) (tc_child pc))\<rparr>"
      using i Some by (auto simp: init_talloc_def bind_eq_Some_conv)
    have q: "q \<noteq> p" using h(1) p by auto
    have h2: "h2 = setc (Some q) (tc_child_update (\<lambda>_. Some p)) (setc (tc_child pc) (\<lambda>c. c\<lparr>tc_parent := None, tc_prev := Some p\<rparr>) h)"
      using upd_opt_setc [OF h(2)] upd_setc [OF h(3)] by simp
    have k: "tc_child pc \<noteq> Some p"
      using tidyD(7) [of "h\<lparr>null_context := None\<rparr>" q pc p] t h(1) p by (auto simp: linked_heap_def)
    have fq: "field tc_child (chunks g) q = tc_child pc" using h(1) q by (simp add: g_def field_def)
    have hk: "chunks (hooked p q g) y = map_option (hook p q (tc_child pc) y) (chunks g y)" for y
      by (simp add: hooked_def fq)
    have "h'\<lparr>null_context := None\<rparr> = hooked p q g"
    proof (rule theap_eqI)
      fix x
      show "chunks (h'\<lparr>null_context := None\<rparr>) x = chunks (hooked p q g) x"
      proof (cases "x = p")
        case True
        then show ?thesis using q k unfolding hk by (simp add: h(4) h2 g_def hook_def new_chunk_def)
      next
        case False
        then show ?thesis using q unfolding hk
          by (cases "chunks h x") (auto simp: h(4) h2 g_def hook_def)
      qed
    qed (simp_all add: h(4) h2 hooked_def g_def)
    moreover have "tidy (hooked p q g)"
      by (rule tidy_hooked [OF g, of p "new_chunk sz e None None" q pc])
        (use h(1) q in \<open>simp_all add: g_def new_chunk_def\<close>)
    ultimately show ?thesis by (simp add: linked_heap_def)
  qed
qed

lemma alloc_tidy:
  assumes g: "gentle env" and t: "linked_heap h" and a: "talloc_alloc env ctx sz h = Some (r, h')"
  shows "linked_heap h'"
proof (cases "sz \<ge> MAX_TALLOC_SIZE")
  case True
  then show ?thesis using a t by (simp add: talloc_alloc_def)
next
  case False
  then obtain q e where q: "init_talloc q (if e then t_external env q None sz h else t_malloc env sz h) sz e h = Some (r, h')"
    using a by (auto simp: talloc_alloc_def Let_def bind_eq_Some_conv)
  show ?thesis
  proof (cases "if e then t_external env q None sz h else t_malloc env sz h")
    case None
    then show ?thesis using q t by (simp add: init_talloc_def)
  next
    case (Some p)
    then have "chunks h p = None" using gentleD(1,3) [OF g] by (cases e) fastforce+
    then show ?thesis using init_tidy [OF t _ q [unfolded Some]] by blast
  qed
qed

lemma add_external_tidy:
  assumes g: "gentle env" and t: "linked_heap h" and a: "talloc_add_external env ctx h = Some (r, h')"
  shows "linked_heap h'"
proof -
  obtain c where c: "init_talloc ctx (t_external env c None 0 h) 0 True h = Some (r, h')"
    using a by (auto simp: talloc_add_external_def bind_eq_Some_conv)
  show ?thesis
  proof (cases "t_external env c None 0 h")
    case None
    then show ?thesis using c t by (simp add: init_talloc_def)
  next
    case (Some p)
    then have "chunks h p = None" using gentleD(3) [OF g] by fastforce
    then show ?thesis using init_tidy [OF t _ c [unfolded Some]] by blast
  qed
qed

lemma named_tidy:
  assumes g: "gentle env" and t: "linked_heap h" and a: "talloc_named_const env ctx sz name h = Some (r, h')"
  shows "linked_heap h'"
proof -
  obtain r1 h1 where h1: "talloc_alloc env ctx sz h = Some (r1, h1)"
    "(case r1 of None \<Rightarrow> Some (None, h1) | Some p \<Rightarrow> do { h2 \<leftarrow> talloc_set_name_const p name h1; Some (Some p, h2) }) = Some (r, h')"
    using a by (auto simp: talloc_named_const_def bind_eq_Some_conv)
  have t1: "linked_heap h1" by (rule alloc_tidy [OF g t h1(1)])
  show ?thesis
  proof (cases r1)
    case None
    then show ?thesis using h1(2) t1 by simp
  next
    case (Some p)
    then have "talloc_set_name_const p name h1 = Some h'" using h1(2) by (auto simp: bind_eq_Some_conv)
    then show ?thesis by (intro tidy_but_neutral [OF t1 set_name_neutral])
  qed
qed

lemma any_steal_tidy:
  assumes t: "linked_heap h" and a: "talloc_steal ctx ptr h = Some (r, h')"
  shows "linked_heap h'"
proof (cases ptr)
  case None
  then show ?thesis using a t by (simp add: talloc_steal_def)
next
  case (Some p)
  then show ?thesis using steal_tidy [OF t, of p ctx r h'] a by simp
qed

text \<open>What a call that resizes a block, and returns, has done.\<close>

lemma realloc_block_result:
  assumes t: "linked_heap h" and g: "gentle env" and c: "chunks h p = Some c"
    and a: "talloc_realloc env ctx (Some p) sz name h = Some (r, h')" "sz \<noteq> 0"
  shows "h' = h \<or> (\<exists>q. (q = p \<or> chunks h q = None) \<and> (has_flag TALLOC_FLAG_EXT_ALLOC c \<longrightarrow> tc_lock env \<noteq> Some Waits) \<and>
    h' = moved p q c (c\<lparr>tc_data := resize_cells sz (tc_data c), tc_size := sz, tc_name := name\<rparr>) h)"
proof (cases "sz \<ge> MAX_TALLOC_SIZE \<or> tc_refs c \<noteq> None")
  case True
  then show ?thesis using a c by (auto simp: talloc_realloc_def bind_eq_Some_conv talloc_chunk_from_ptr_def split: if_splits)
next
  case False
  have tc: "tidy (h\<lparr>null_context := None\<rparr>)" "chunks (h\<lparr>null_context := None\<rparr>) p = Some c"
    using t c by (simp_all add: linked_heap_def)
  have cp: "talloc_chunk_from_ptr p h = Some c"
    using tidy_flags [OF tc] c by (simp add: talloc_chunk_from_ptr_def)
  define h1 where "h1 = h\<lparr>chunks := (chunks h)(p \<mapsto> set_flag TALLOC_FLAG_FREE c)\<rparr>"
  have u: "upd p (set_flag TALLOC_FLAG_FREE) h = Some h1" using c by (simp add: upd_def h1_def)
  obtain par where par: "(if has_flag TALLOC_FLAG_EXT_ALLOC c then relock env (talloc_parent (Some p) h) else Some None) = Some par"
    using a False cp by (cases "has_flag TALLOC_FLAG_EXT_ALLOC c") (auto simp: talloc_realloc_def bind_eq_Some_conv)
  define answer where "answer = (if has_flag TALLOC_FLAG_EXT_ALLOC c then t_external env par (Some p) sz h1
    else t_realloc env p sz h1)"
  show ?thesis
  proof (cases answer)
    case None
    then have h': "upd p (clear_flag TALLOC_FLAG_FREE) h1 = Some h'"
      using a False cp u par
      by (cases "has_flag TALLOC_FLAG_EXT_ALLOC c") (auto simp: talloc_realloc_def bind_eq_Some_conv answer_def)
    have "(tc_flags c OR TALLOC_FLAG_FREE) AND NOT TALLOC_FLAG_FREE = tc_flags c"
      using tidy_flags [OF tc] by (intro clear_free) simp
    then show ?thesis
      using h' c by (auto simp: upd_def h1_def clear_flag_def set_flag_def bind_eq_Some_conv intro!: theap_eqI)
  next
    case (Some q)
    have "chunks h1 q = None" if "q \<noteq> p"
      using gentleD(2,3) [OF g] that Some unfolding answer_def
      by (cases "has_flag TALLOC_FLAG_EXT_ALLOC c") fastforce+
    then have q: "q = p \<or> chunks h q = None" by (cases "q = p") (simp_all add: h1_def)
    have wl: "links_ok h" using tc(1) by (simp add: tidy_def links_ok_def)
    define d where "d = c\<lparr>tc_data := resize_cells sz (tc_data c), tc_size := sz, tc_name := name\<rparr>"
    have "talloc_realloc env ctx (Some p) sz name h = Some (Some q, moved p q c d h)"
      using False a(2)
      by (intro realloc_moved [OF wl c _ _ _ par _ q d_def]) (use Some [unfolded answer_def h1_def] in \<open>auto simp: Let_def\<close>)
    then show ?thesis using a(1) q par by (auto simp: d_def split: if_splits)
  qed
qed

lemma realloc_result:
  assumes t: "linked_heap h" and g: "gentle env" and a: "talloc_realloc env ctx ptr sz name h = Some (r, h')"
  obtains "h' = h" | n where "talloc_free env ptr h = Some (n, h')"
  | "talloc_named_const env ctx sz name h = Some (r, h')"
  | p q c where "ptr = Some p" "chunks h p = Some c" "q = p \<or> chunks h q = None"
      "has_flag TALLOC_FLAG_EXT_ALLOC c \<longrightarrow> tc_lock env \<noteq> Some Waits"
      "h' = moved p q c (c\<lparr>tc_data := resize_cells sz (tc_data c), tc_size := sz, tc_name := name\<rparr>) h"
proof (cases "sz = 0 \<or> sz \<ge> MAX_TALLOC_SIZE \<or> ptr = None")
  case True
  then consider "sz = 0" | "sz \<noteq> 0" "sz \<ge> MAX_TALLOC_SIZE" | "sz \<noteq> 0" "\<not> sz \<ge> MAX_TALLOC_SIZE" "ptr = None" by blast
  then show ?thesis
  proof cases
    case 1
    then show ?thesis using a that(2) by (auto simp: talloc_realloc_def bind_eq_Some_conv)
  next
    case 2
    then show ?thesis using a that(1) by (simp add: talloc_realloc_def)
  next
    case 3
    then show ?thesis using a that(3) by (simp add: talloc_realloc_def)
  qed
next
  case False
  then obtain p where p: "ptr = Some p" by auto
  have "talloc_chunk_from_ptr p h \<noteq> None"
    using a False p by (cases "talloc_chunk_from_ptr p h") (simp_all add: talloc_realloc_def)
  then obtain c where c: "chunks h p = Some c" by (auto dest: chunk_from_ptr_chunk)
  from False have "sz \<noteq> 0" by simp
  note R = realloc_block_result [OF t g c a [unfolded p] this]
  show ?thesis
    by (rule disjE [OF R that(1)], assumption, elim exE conjE) (rule that(4) [OF p c])
qed

lemma realloc_tidy:
  assumes g: "gentle env" and t: "linked_heap h" and a: "talloc_realloc env ctx ptr sz name h = Some (r, h')"
  shows "linked_heap h'"
proof (rule realloc_result [OF t g a])
  fix p q and c :: chunk
  let ?d = "c\<lparr>tc_data := resize_cells sz (tc_data c), tc_size := sz, tc_name := name\<rparr>"
  assume h: "chunks h p = Some c" "q = p \<or> chunks h q = None" "h' = moved p q c ?d h"
  have "tidy (moved p q c ?d (h\<lparr>null_context := None\<rparr>))"
    by (rule tidy_moved) (use t h in \<open>simp_all add: linked_heap_def chunk_links_def\<close>)
  moreover have "moved p q c ?d (h\<lparr>null_context := None\<rparr>) = h'\<lparr>null_context := None\<rparr>"
    by (rule theap_eqI) (simp_all add: h(3) moved_def)
  ultimately show ?thesis by (simp add: linked_heap_def)
qed (use g t in \<open>auto intro: free_tidy named_tidy\<close>)

section \<open>Walks that mark the chunks they are in\<close>

text \<open>The marks are no part of a frame; without chunks in the middle of being freed they do not matter.\<close>

lemma mark_frame:
  "frame (set_flag TALLOC_FLAG_LOOP c) = frame c" "frame (clear_flag TALLOC_FLAG_LOOP c) = frame c"
proof -
  have "(f OR TALLOC_FLAG_LOOP) AND (TALLOC_FLAG_FREE OR NOT 0xF) = f AND (TALLOC_FLAG_FREE OR NOT 0xF)"
    "(f AND NOT TALLOC_FLAG_LOOP) AND (TALLOC_FLAG_FREE OR NOT 0xF) = f AND (TALLOC_FLAG_FREE OR NOT 0xF)" for f :: u32
    by (simp_all add: bit.conj_disj_distrib2 and.assoc TALLOC_FLAG_LOOP_def TALLOC_FLAG_FREE_def)
  then show "frame (set_flag TALLOC_FLAG_LOOP c) = frame c" "frame (clear_flag TALLOC_FLAG_LOOP c) = frame c"
    by (simp_all add: frame_def) (simp_all add: set_flag_def clear_flag_def chunk_links_def)
qed

lemma framed_mark:
  "upd p (set_flag TALLOC_FLAG_LOOP) h = Some h' \<Longrightarrow> framed h h'"
  "upd p (clear_flag TALLOC_FLAG_LOOP) h = Some h' \<Longrightarrow> framed h h'"
  by (auto simp: framed_def option.map_comp o_def mark_frame dest!: upd_setc)

lemma framed_marked:
  "upd p (set_flag TALLOC_FLAG_LOOP) h = Some a \<Longrightarrow> framed a b \<Longrightarrow>
   upd p (clear_flag TALLOC_FLAG_LOOP) b = Some h' \<Longrightarrow> framed h h'"
  by (meson framed_mark framed_trans)

lemma framed_tidy:
  assumes "framed h h'" "linked_heap h"
  shows "linked_heap h'"
  unfolding linked_heap_def
  by (rule tidy_framed) (use assms in \<open>auto simp: linked_heap_def framed_def\<close>)

lemma total_run_framed: "total_run f job h = Some (n, h') \<Longrightarrow> framed h h'"
proof -
  assume a: "total_run f job h = Some (n, h')"
  have "framed h (snd (n, h'))"
  proof (rule total_run.raw_induct [where P = "\<lambda>f job h r. framed h (snd r)", OF _ a], goal_cases)
    case (1 run f job h r)
    have IH: "run f j g = Some (t, g') \<Longrightarrow> framed g g'" for j g t g' using 1(1) [of f j g "(t, g')"] by simp
    show ?case
    proof (cases job)
      case (Block p)
      then show ?thesis
        using 1(2) by (auto simp: bind_eq_Some_conv framed_refl split: if_splits)
          (blast intro: framed_marked IH)+
    next
      case (Siblings q)
      then show ?thesis
        using 1(2) by (auto simp: bind_eq_Some_conv framed_refl split: option.splits)
          (metis 1(1) framed_trans snd_conv)
    qed
  qed
  then show ?thesis by simp
qed

text \<open>A callback of a report may change what is no part of a frame.\<close>

definition frames_only :: "'a report_cb \<Rightarrow> bool" where
  "frames_only cb \<longleftrightarrow> (\<forall>p depth m is_ref a h a' h'. cb p depth m is_ref a h = Some (a', h') \<longrightarrow> framed h h')"

lemma report_run_framed:
  assumes cb: "frames_only cb" and a: "report_run cb m job a h = Some (a', h')"
  shows "framed h h'"
proof -
  have "frames_only cb \<longrightarrow> framed h (snd (a', h'))"
  proof (rule report_run.raw_induct [where P = "\<lambda>cb m job a h r. frames_only cb \<longrightarrow> framed h (snd r)", OF _ a], goal_cases)
    case (1 run cb m job a h r)
    show ?case
    proof
      assume f: "frames_only cb"
      have C: "cb p d n r b g = Some (b', g') \<Longrightarrow> framed g g'" for p d n r b g b' g'
        using f unfolding frames_only_def by blast
      have IH: "run cb m j b g = Some (t, g') \<Longrightarrow> framed g g'" for j b g t g'
        using 1(1) [of cb m j b g "(t, g')"] f by simp
      show "framed h (snd r)"
      proof (cases job)
        case (Report p d)
        then obtain tc where tc: "talloc_chunk_from_ptr p h = Some tc" using 1(2) by (auto simp: bind_eq_Some_conv)
        show ?thesis
        proof (cases "has_flag TALLOC_FLAG_LOOP tc")
          case True
          then show ?thesis using 1(2) Report tc by (auto simp: framed_refl)
        next
          case False
          then obtain b1 h1 where cb: "cb (Some p) d m False a h = Some (b1, h1)"
            using 1(2) Report tc by (auto simp: bind_eq_Some_conv)
          show ?thesis
          proof (cases "m \<ge> 0 \<and> d \<ge> m")
            case True
            then have "r = (b1, h1)" using 1(2) Report tc \<open>\<not> has_flag _ _\<close> cb by simp
            then show ?thesis using C [OF cb] by simp
          next
            case False
            have "framed h1 (snd r)"
              using 1(2) Report tc \<open>\<not> has_flag _ _\<close> cb False
              by (auto simp: bind_eq_Some_conv split: if_splits intro: framed_marked [OF _ IH])
            then show ?thesis by (rule framed_trans [OF C [OF cb]])
          qed
        qed
      next
        case (Reports q d)
        then show ?thesis
          using 1(2) by (auto simp: bind_eq_Some_conv framed_refl split: option.splits if_splits)
            (metis C IH framed_trans prod.collapse)+
      qed
    qed
  qed
  then show ?thesis using cb by simp
qed

lemma total_framed:
  "talloc_total_size ptr h = Some (n, h') \<Longrightarrow> framed h h'" "talloc_total_blocks p h = Some (n, h') \<Longrightarrow> framed h h'"
  by (auto simp: talloc_total_size_def talloc_total_size_run_def talloc_total_blocks_def framed_refl
      split: option.splits intro: total_run_framed)

lemma FILE_helper_framed: "frames_only (talloc_report_depth_FILE_helper env show_ptr)"
  unfolding frames_only_def talloc_report_depth_FILE_helper_def
  by (auto simp: bind_eq_Some_conv framed_refl Let_def split: if_splits)
    (blast intro: framed_trans [OF total_framed(1) total_framed(2)])+

lemma report_framed:
  "frames_only cb \<Longrightarrow> talloc_report_depth_cb cb ptr d m a h = Some (a', h') \<Longrightarrow> framed h h'"
  by (auto simp: talloc_report_depth_cb_def framed_refl split: option.splits intro: report_run_framed)

lemma report_file_framed: "talloc_report_depth_file env show_ptr ptr d m f h = Some (f', h') \<Longrightarrow> framed h h'"
  unfolding talloc_report_depth_file_def by (rule report_framed [OF FILE_helper_framed])

lemma report_null_framed:
  "talloc_report_null env show_ptr f h = Some (f', h') \<Longrightarrow> framed h h'"
  "talloc_report_null_full env show_ptr f h = Some (f', h') \<Longrightarrow> framed h h'"
  by (auto simp: talloc_report_null_def talloc_report_null_full_def talloc_report_def talloc_report_full_def
      bind_eq_Some_conv split: if_splits)
    (blast intro: framed_trans [OF total_framed(1) report_file_framed] total_framed(1))+

end
