(* ===== verification/Strings.thy ===== *)
theory Strings
  imports TallocLinks
begin

unbundle bit_operations_syntax

text \<open>
  src/string.c and src/noerr.c: splitting a string into an array of strings, joining such an array,
  and reading a whole file, over the allocator of src/talloc.c.

  A string argument is its text; an array of strings is read in the heap. A pointer that
  is null where the code follows it gives the result \<open>None\<close>. Values of type
  \<open>size_t\<close> are natural numbers: they count bytes of blocks, which are smaller than \<open>MAX_TALLOC_SIZE\<close>.
\<close>

section \<open>string.h\<close>

definition strstarts :: "string \<Rightarrow> string \<Rightarrow> bool" where
  "strstarts str prefix \<longleftrightarrow> strneq str prefix (length prefix)"

definition strends :: "string \<Rightarrow> string \<Rightarrow> bool" where
  "strends str postfix \<longleftrightarrow>
     (if length str < length postfix then False
      else streq (drop (length str - length postfix) str) postfix)"

text \<open>\<open>strspn\<close> and \<open>strcspn\<close> of the C library.\<close>

definition strspn :: "string \<Rightarrow> string \<Rightarrow> nat" where
  "strspn s set_of = length (takeWhile (\<lambda>c. c \<in> set set_of) s)"

definition strcspn :: "string \<Rightarrow> string \<Rightarrow> nat" where
  "strcspn s set_of = length (takeWhile (\<lambda>c. c \<notin> set set_of) s)"

section \<open>strsplit\<close>

text \<open>The step \<open>max*=2 + 1\<close> of the code triples \<open>max\<close>.\<close>

partial_function (option) strsplit_loop ::
  "tenv \<Rightarrow> ptr option \<Rightarrow> string \<Rightarrow> string \<Rightarrow> ptr option \<Rightarrow> u32 \<Rightarrow> u32 \<Rightarrow> theap \<Rightarrow>
   (ptr option \<times> u32 \<times> theap) option" where
  "strsplit_loop env ctx delims string lines maxn num h =
     (if string = [] then Some (lines, num, h)
      else (let len = of_nat (strcspn string delims) :: u32;
                rest = drop (unat len) string;
                rest' = drop (if strspn rest delims = 0 then 0 else 1) rest
            in do { l \<leftarrow> lines;
                    (r, h1) \<leftarrow> talloc_array env (Some l) 1 (unat (len + 1)) (Name_const ''char'') h;
                    h2 \<leftarrow> store_ptr l (8 * unat num) r h1;
                    p \<leftarrow> r;
                    h3 \<leftarrow> store_bytes p 0 (take (unat len) string) h2;
                    h4 \<leftarrow> store_bytes p (unat len) [NUL] h3;
                    (lines', maxn', h5) \<leftarrow>
                      (if num + 1 = maxn
                       then do { (l', h5) \<leftarrow> talloc_realloc_array env ctx (Some l) 8 (unat (maxn * (2 + 1)))
                                             (Name_const ''char *'') h4;
                                 Some (l', maxn * (2 + 1), h5) }
                       else Some (Some l, maxn, h4));
                    strsplit_loop env ctx delims rest' lines' maxn' (num + 1) h5 }))"

text \<open>The array and the number of strings, which the code returns through \<open>nump\<close>.\<close>

definition strsplit ::
  "tenv \<Rightarrow> ptr option \<Rightarrow> string \<Rightarrow> string \<Rightarrow> theap \<Rightarrow> (ptr \<times> u32 \<times> theap) option" where
  "strsplit env ctx string delims h =
     do { (r, h1) \<leftarrow> talloc_array env ctx 8 (unat (64 + 1 :: u32)) (Name_const ''char *'') h;
          (lines, num, h2) \<leftarrow> strsplit_loop env ctx delims string r 64 0 h1;
          l \<leftarrow> lines;
          h3 \<leftarrow> store_ptr l (8 * unat num) None h2;
          Some (l, num, h3) }"

section \<open>strjoin\<close>

partial_function (option) strjoin_loop ::
  "tenv \<Rightarrow> ptr \<Rightarrow> string option \<Rightarrow> u32 \<Rightarrow> ptr option \<Rightarrow> theap \<Rightarrow> (ptr option \<times> theap) option" where
  "strjoin_loop env strings delim i ret h =
     do { s \<leftarrow> load_ptr strings (8 * unat i) h;
          (case s of
             None \<Rightarrow> Some (ret, h)
           | Some q \<Rightarrow>
               do { r \<leftarrow> ret;
                    text \<leftarrow> load_string q h;
                    (ret1, h1) \<leftarrow> talloc_append_string env r (Some text) h;
                    r1 \<leftarrow> ret1;
                    (ret2, h2) \<leftarrow> talloc_append_string env r1 delim h1;
                    strjoin_loop env strings delim (i + 1) ret2 h2 }) }"

definition strjoin ::
  "tenv \<Rightarrow> ptr option \<Rightarrow> ptr \<Rightarrow> string option \<Rightarrow> theap \<Rightarrow> (ptr option \<times> theap) option" where
  "strjoin env ctx strings delim h =
     do { (ret, h1) \<leftarrow> talloc_strdup env ctx (Some []) h; strjoin_loop env strings delim 0 ret h1 }"

section \<open>noerr.c\<close>

text \<open>
  The calls of the C library take \<open>errno\<close> and give their result and the new \<open>errno\<close>. The result of a
  wrapper is its return value and the \<open>errno\<close> it leaves.
\<close>

definition close_noerr :: "(int \<Rightarrow> int \<Rightarrow> int \<times> int) \<Rightarrow> int \<Rightarrow> int \<Rightarrow> int \<times> int" where
  "close_noerr close fd errno =
     (let saved_errno = errno; (r, errno1) = close fd errno; ret = (if r \<noteq> 0 then errno1 else 0)
      in (ret, saved_errno))"

definition fclose_noerr :: "('f \<Rightarrow> int \<Rightarrow> int \<times> int) \<Rightarrow> 'f \<Rightarrow> int \<Rightarrow> int \<times> int" where
  "fclose_noerr fclose fp errno =
     (let saved_errno = errno; (r, errno1) = fclose fp errno; ret = (if r \<noteq> 0 then errno1 else 0)
      in (ret, saved_errno))"

definition unlink_noerr :: "(string \<Rightarrow> int \<Rightarrow> int \<times> int) \<Rightarrow> string \<Rightarrow> int \<Rightarrow> int \<times> int" where
  "unlink_noerr unlink pathname errno =
     (let saved_errno = errno; (r, errno1) = unlink pathname errno; ret = (if r \<noteq> 0 then errno1 else 0)
      in (ret, saved_errno))"

section \<open>grab_fd and grab_file\<close>

text \<open>
  \<open>rd n f\<close> is \<open>read\<close> of at most \<open>n\<close> bytes from the file \<open>f\<close>: the bytes, or \<open>None\<close> on an error, and the file
  after it.
\<close>

partial_function (option) grab_loop ::
  "(nat \<Rightarrow> 'f \<Rightarrow> char list option \<times> 'f) \<Rightarrow> tenv \<Rightarrow> ptr option \<Rightarrow> ptr option \<Rightarrow> nat \<Rightarrow> nat \<Rightarrow> 'f \<Rightarrow> theap \<Rightarrow>
   (bool \<times> ptr option \<times> nat \<times> 'f \<times> theap) option" where
  "grab_loop rd env ctx buffer maxn sz f h =
     do { b \<leftarrow> buffer;
          (case fst (rd (maxn - sz) f) of
             None \<Rightarrow> Some (False, buffer, sz, snd (rd (maxn - sz) f), h)
           | Some bs \<Rightarrow>
               (if bs = [] then Some (True, buffer, sz, snd (rd (maxn - sz) f), h)
                else do { h1 \<leftarrow> store_bytes b sz bs h;
                          (buffer', maxn', h2) \<leftarrow>
                            (if sz + length bs = maxn
                             then do { (r, h2) \<leftarrow> talloc_realloc_array env ctx (Some b) 1 (maxn * (2 + 1))
                                                   (Name_const ''char'') h1;
                                       Some (r, maxn * (2 + 1), h2) }
                             else Some (Some b, maxn, h1));
                          grab_loop rd env ctx buffer' maxn' (sz + length bs) (snd (rd (maxn - sz) f)) h2 })) }"

text \<open>The buffer or null, and the size.\<close>

definition grab_fd ::
  "(nat \<Rightarrow> 'f \<Rightarrow> char list option \<times> 'f) \<Rightarrow> tenv \<Rightarrow> ptr option \<Rightarrow> 'f \<Rightarrow> theap \<Rightarrow>
   (ptr option \<times> nat \<times> 'f \<times> theap) option" where
  "grab_fd rd env ctx f h =
     do { (r, h1) \<leftarrow> talloc_array env ctx 1 (16384 + 1) (Name_const ''char'') h;
          (ok, buffer, sz, f', h2) \<leftarrow> grab_loop rd env ctx r 16384 0 f h1;
          if ok
          then do { b \<leftarrow> buffer; h3 \<leftarrow> store_bytes b sz [NUL] h2; Some (buffer, sz, f', h3) }
          else do { (_, h3) \<leftarrow> talloc_free env buffer h2; Some (None, sz, f', h3) } }"

text \<open>
  \<open>fd\<close> is what \<open>open\<close>, or \<open>dup\<close> of the standard input, gives. The results are the buffer, the size
  when a file was read, the heap, and \<open>errno\<close> as it is after the descriptor is closed.
\<close>

definition grab_file ::
  "(nat \<Rightarrow> 'f \<Rightarrow> char list option \<times> 'f) \<Rightarrow> (string option \<Rightarrow> (int \<times> 'f) option) \<Rightarrow>
   (int \<Rightarrow> int \<Rightarrow> int \<times> int) \<Rightarrow> tenv \<Rightarrow> ptr option \<Rightarrow> string option \<Rightarrow> int \<Rightarrow> theap \<Rightarrow>
   (ptr option \<times> nat option \<times> int \<times> theap) option" where
  "grab_file rd opn close env ctx filename errno h =
     (case opn filename of
        None \<Rightarrow> Some (None, None, errno, h)
      | Some (fd, f) \<Rightarrow>
          do { (buffer, sz, f', h1) \<leftarrow> grab_fd rd env ctx f h;
               Some (buffer, Some sz, snd (close_noerr close fd errno), h1) })"

end
