(* ===== verification/StringSpec.thy ===== *)
theory StringSpec
  imports Strings
begin

unbundle bit_operations_syntax

text \<open>
  What the functions of src/string.c produce: \<open>strsplit\<close> makes the array of the pieces of its
  argument, \<open>strjoin\<close> puts the strings of an array together, and \<open>grab_fd\<close> gets all of a file,
  whatever lengths the single reads have. All of it in a heap that already holds other
  blocks, which keep their contents, and for as many pieces and bytes as the growth of the
  buffers can reach.
\<close>

section \<open>Pieces of a string\<close>

function pieces :: "string \<Rightarrow> string \<Rightarrow> string list" where
  "pieces ds s =
     (if s = [] then []
      else takeWhile (\<lambda>c. c \<notin> set ds) s # pieces ds (drop 1 (dropWhile (\<lambda>c. c \<notin> set ds) s)))"
  by pat_completeness auto

lemma after_piece_shorter:
  assumes "s \<noteq> []"
  shows "length (drop 1 (dropWhile P s)) < length s"
proof -
  have "length (dropWhile P s) \<le> length s" by (rule length_dropWhile_le)
  moreover have "0 < length s" using assms by simp
  ultimately show ?thesis unfolding length_drop by linarith
qed

termination pieces
  using after_piece_shorter by (relation "measure (\<lambda>(ds, s). length s)") auto

declare pieces.simps [simp del]

lemma pieces_Nil [simp]: "pieces ds [] = []"
  by (simp add: pieces.simps)

lemma pieces_Cons:
  "s \<noteq> [] \<Longrightarrow> pieces ds s =
     takeWhile (\<lambda>c. c \<notin> set ds) s # pieces ds (drop 1 (dropWhile (\<lambda>c. c \<notin> set ds) s))"
  by (subst pieces.simps) simp

lemma pieces_no_delim: "t \<in> set (pieces ds s) \<Longrightarrow> c \<in> set t \<Longrightarrow> c \<notin> set ds \<and> c \<in> set s"
proof (induction ds s rule: pieces.induct)
  case (1 ds s)
  show ?case
  proof (cases "s = []")
    case False
    then consider "t = takeWhile (\<lambda>c. c \<notin> set ds) s"
      | "t \<in> set (pieces ds (drop 1 (dropWhile (\<lambda>c. c \<notin> set ds) s)))"
      using "1.prems"(1) by (auto simp: pieces_Cons)
    then show ?thesis
    proof cases
      case 1
      then show ?thesis using "1.prems"(2) by (auto dest: set_takeWhileD)
    next
      case 2
      with "1.IH" [OF False 2 "1.prems"(2)] show ?thesis
        by (meson in_set_dropD set_dropWhileD)
    qed
  qed (use "1.prems" in simp)
qed

text \<open>The strings with a delimiter after each give back the string, but for a delimiter at its end.\<close>

definition with_end :: "char \<Rightarrow> string \<Rightarrow> string" where
  "with_end c s = (if s = [] \<or> last s = c then s else s @ [c])"

lemma pieces_join: "concat (map (\<lambda>t. t @ [c]) (pieces [c] s)) = with_end c s"
proof (induction "[c]" s rule: pieces.induct)
  case (1 s)
  show ?case
  proof (cases "s = []")
    case False
    define a where "a = takeWhile (\<lambda>x. x \<notin> set [c]) s"
    define b where "b = dropWhile (\<lambda>x. x \<notin> set [c]) s"
    have s: "s = a @ b" by (simp add: a_def b_def)
    have IH: "concat (map (\<lambda>t. t @ [c]) (pieces [c] (drop 1 b))) = with_end c (drop 1 b)"
      using 1 [OF False] by (simp add: b_def)
    have p: "pieces [c] s = a # pieces [c] (drop 1 b)"
      using False by (simp add: pieces_Cons a_def b_def)
    show ?thesis
    proof (cases b)
      case Nil
      have "c \<notin> set a" by (auto simp: a_def dest: set_takeWhileD)
      then have "last a \<noteq> c" using False s Nil by (metis append_Nil2 last_in_set)
      then show ?thesis using p s Nil False by (simp add: with_end_def)
    next
      case (Cons x b')
      then have "x = c"
        using hd_dropWhile [of "\<lambda>x. x \<notin> set [c]" s] by (simp add: b_def)
      then show ?thesis using p s Cons IH by (auto simp: with_end_def)
    qed
  qed (simp add: with_end_def)
qed

section \<open>Arrays of strings\<close>

text \<open>The block \<open>l\<close> has room for \<open>n\<close> pointers; the first ones point to blocks with the strings \<open>ps\<close>.\<close>

definition string_array :: "theap \<Rightarrow> ptr \<Rightarrow> nat \<Rightarrow> string list \<Rightarrow> bool" where
  "string_array h l n ps \<longleftrightarrow>
     (\<exists>d. block h l d \<and> 8 * n \<le> length d \<and> length ps \<le> n \<and>
          (\<forall>i < length ps. \<exists>p. p \<noteq> l \<and> d ! (8 * i) = Pointer (Some p) \<and>
             block h p (map Byte (ps ! i @ [NUL]))))"

lemma string_array_mono:
  assumes "string_array h l n ps" "\<And>x d. block h x d \<Longrightarrow> block h' x d"
  shows "string_array h' l n ps"
  using assms unfolding string_array_def by blast

lemma string_array_less: "string_array h l n ps \<Longrightarrow> length ps \<le> m \<Longrightarrow> m \<le> n \<Longrightarrow> string_array h l m ps"
  unfolding string_array_def by (meson le_trans mult_le_mono2)

lemma keeps_fresh_block:
  "keeps p h h' \<Longrightarrow> chunks h p = None \<Longrightarrow> block h x d \<Longrightarrow> block h' x d"
  by (rule keeps_block [of p h h' x d]) (auto simp: block_def)

text \<open>Steps that write to a block allocated on the way do not count.\<close>

lemma keeps_fresh: "keeps p h h1 \<Longrightarrow> chunks h p = None \<Longrightarrow> keeps l h h1"
  unfolding keeps_def by metis

lemma keeps_later:
  assumes "keeps l h h1" "keeps p h1 h2" "chunks h p = None"
  shows "keeps l h h2"
  unfolding keeps_def
proof (intro conjI allI impI)
  show "well_linked h2" "null_context h2 = null_context h" using assms by (simp_all add: keeps_def)
  fix x assume x: "x \<noteq> l" "chunks h x \<noteq> None"
  have "x \<noteq> p" using x(2) assms(3) by auto
  moreover have "chunks h1 x \<noteq> None" using keeps_allocated [OF assms(1) x] .
  ultimately show "content h2 x = content h x" using assms(1,2) x by (simp add: keeps_def)
qed

lemma keeps_linked: "keeps p h h' \<Longrightarrow> well_linked h'"
  by (simp add: keeps_def)

lemma put_string:
  "put_cells (length t) [Byte NUL] (put_cells 0 (map Byte t) (replicate (length t + 1) Undef)) = map Byte (t @ [NUL])"
  by (simp add: put_cells_def replicate_append_same [symmetric] del: replicate.simps)

text \<open>A fresh block gets a string and its terminator.\<close>

lemma store_string:
  assumes "well_linked h" "block h p (replicate (length t + 1) Undef)"
  shows "\<exists>h1 h2. store_bytes p 0 t h = Some h1 \<and> store_bytes p (length t) [NUL] h1 = Some h2 \<and>
    keeps p h h2 \<and> block h2 p (map Byte (t @ [NUL]))"
proof -
  from store_cells_block [OF assms, of 0 "map Byte t"] obtain h1 where
    h1: "store_bytes p 0 t h = Some h1" "keeps p h h1"
      "block h1 p (put_cells 0 (map Byte t) (replicate (length t + 1) Undef))"
    by (auto simp: store_bytes_def)
  from store_cells_block [OF keeps_linked [OF h1(2)] h1(3), of "length t" "[Byte NUL]"] obtain h2 where
    h2: "store_bytes p (length t) [NUL] h1 = Some h2" "keeps p h1 h2"
      "block h2 p (map Byte (t @ [NUL]))"
    unfolding put_string by (auto simp: store_bytes_def put_cells_def)
  with h1 keeps_trans [OF h1(2) h2(2)] show ?thesis by blast
qed

text \<open>One more string, in a block of its own.\<close>

lemma split_step:
  assumes "allocates env" "well_linked h" "string_array h l n ps" "length ps < n" "length t + 1 < MAX_TALLOC_SIZE"
  shows "\<exists>p h1 h2 h3 h4. talloc_array env (Some l) 1 (length t + 1) name h = Some (Some p, h1) \<and>
    store_ptr l (8 * length ps) (Some p) h1 = Some h2 \<and> store_bytes p 0 t h2 = Some h3 \<and>
    store_bytes p (length t) [NUL] h3 = Some h4 \<and> string_array h4 l n (ps @ [t]) \<and> keeps l h h4"
proof -
  from assms(3) obtain d where d: "block h l d" "8 * n \<le> length d" "length ps \<le> n"
      "\<And>i. i < length ps \<Longrightarrow> \<exists>p. p \<noteq> l \<and> d ! (8 * i) = Pointer (Some p) \<and> block h p (map Byte (ps ! i @ [NUL]))"
    unfolding string_array_def by blast
  from array_block [OF assms(1,2), of "Some l" 1 "length t + 1" name] assms(5) block_allocated [OF d(1)]
  obtain p h1 where
    p: "talloc_array env (Some l) 1 (length t + 1) name h = Some (Some p, h1)" "chunks h p = None"
      "keeps p h h1" "block h1 p (replicate (length t + 1) Undef)" by auto
  have pl: "p \<noteq> l" using p(2) block_allocated [OF d(1)] by auto
  have r: "8 * length ps + 8 \<le> length d" using assms(4) d(2) by linarith
  have l1: "block h1 l d" by (rule keeps_fresh_block [OF p(3,2) d(1)])
  from store_ptr_block [OF keeps_linked [OF p(3)] l1 r] obtain h2 where
    h2: "store_ptr l (8 * length ps) (Some p) h1 = Some h2" "keeps l h1 h2"
      "block h2 l (d[8 * length ps := Pointer (Some p)])" by blast
  from store_string [OF keeps_linked [OF h2(2)] keeps_block [OF h2(2) pl p(4)]] obtain h3 h4 where
    h4: "store_bytes p 0 t h2 = Some h3" "store_bytes p (length t) [NUL] h3 = Some h4"
      "keeps p h2 h4" "block h4 p (map Byte (t @ [NUL]))" by blast
  have k: "keeps l h h4"
    by (rule keeps_later [OF keeps_trans [OF keeps_fresh [OF p(3,2)] h2(2)] h4(3) p(2)])
  have "string_array h4 l n (ps @ [t])"
    unfolding string_array_def
  proof (rule exI, intro conjI allI impI)
    show "block h4 l (d[8 * length ps := Pointer (Some p)])"
      using keeps_block [OF h4(3) _ h2(3)] pl by simp
    fix i assume i: "i < length (ps @ [t])"
    show "\<exists>p'. p' \<noteq> l \<and> d[8 * length ps := Pointer (Some p)] ! (8 * i) = Pointer (Some p') \<and>
        block h4 p' (map Byte ((ps @ [t]) ! i @ [NUL]))"
    proof (cases "i = length ps")
      case True
      then show ?thesis using pl h4(4) r by (intro exI [of _ p]) simp
    next
      case False
      with i have i': "i < length ps" by simp
      from d(4) [OF i'] obtain p' where "p' \<noteq> l" "d ! (8 * i) = Pointer (Some p')"
        "block h p' (map Byte (ps ! i @ [NUL]))" by blast
      then show ?thesis using keeps_block [OF k] i' by (intro exI [of _ p']) (simp add: nth_append)
    qed
  qed (use d assms(4) in auto)
  with p(1) h2(1) h4(1,2) k show ?thesis by blast
qed

text \<open>The array grows; it may move.\<close>

lemma split_grow:
  assumes "allocates env" "well_linked h" "string_array h l n ps" "n \<le> m" "0 < m"
    and "m < MAX_TALLOC_SIZE div 8" "null_context h \<noteq> Some l"
  shows "\<exists>l' h'. talloc_realloc_array env ctx (Some l) 8 m name h = Some (Some l', h') \<and>
    string_array h' l' m ps \<and> keeps l h h' \<and> (l' = l \<or> chunks h l' = None)"
proof -
  from assms(3) obtain d where d: "block h l d" "8 * n \<le> length d" "length ps \<le> n"
      "\<And>i. i < length ps \<Longrightarrow> \<exists>p. p \<noteq> l \<and> d ! (8 * i) = Pointer (Some p) \<and> block h p (map Byte (ps ! i @ [NUL]))"
    unfolding string_array_def by blast
  from grow_block [where ctx = ctx and name = name, OF assms(1,2) d(1) _ assms(5,6,7)] obtain l' h' where
    h': "talloc_realloc_array env ctx (Some l) 8 m name h = Some (Some l', h')" "keeps l h h'"
      "block h' l' (resize_cells (8 * m) d)" "l' = l \<or> chunks h l' = None" by auto
  note k = h'(2)
  have "string_array h' l' m ps"
    unfolding string_array_def
  proof (rule exI, intro conjI allI impI)
    fix i assume i: "i < length ps"
    from d(4) [OF i] obtain p where p: "p \<noteq> l" "d ! (8 * i) = Pointer (Some p)"
      "block h p (map Byte (ps ! i @ [NUL]))" by blast
    have "p \<noteq> l'" using h'(4) p(1) block_allocated [OF p(3)] by auto
    moreover have "resize_cells (8 * m) d ! (8 * i) = d ! (8 * i)"
      using i d(2,3) assms(4) by (simp add: resize_cells_def nth_append)
    ultimately show "\<exists>p. p \<noteq> l' \<and> resize_cells (8 * m) d ! (8 * i) = Pointer (Some p) \<and>
        block h' p (map Byte (ps ! i @ [NUL]))"
      using p keeps_block [OF k p(1,3)] by auto
  qed (use h'(3) d(3) assms(4) in auto)
  with h'(1,4) k show ?thesis by blast
qed

section \<open>strsplit\<close>

text \<open>
  A buffer starts with room for \<open>b\<close> and is tripled when it is full. For the array of \<open>strsplit\<close>
  the capacity after \<open>SPLIT_MAX\<close> is more than an array may have.
\<close>

definition capacity :: "nat \<Rightarrow> nat \<Rightarrow> nat \<Rightarrow> bool" where
  "capacity b k n \<longleftrightarrow> (\<exists>j \<le> k. n = b * 3 ^ j)"

lemma capacity_le: "capacity b k n \<Longrightarrow> n \<le> b * 3 ^ k"
proof -
  assume "capacity b k n"
  then obtain j where "j \<le> k" "n = b * 3 ^ j" by (auto simp: capacity_def)
  moreover from this(1) have "(3::nat) ^ j \<le> 3 ^ k" by (rule power_increasing) simp
  ultimately show ?thesis by (metis mult_le_mono2)
qed

lemma capacity_grow: "capacity b k n \<Longrightarrow> n < b * 3 ^ k \<Longrightarrow> capacity b k (3 * n)"
proof -
  assume "capacity b k n" and n: "n < b * 3 ^ k"
  then obtain j where j: "j \<le> k" "n = b * 3 ^ j" by (auto simp: capacity_def)
  have "j \<noteq> k" using n j(2) by auto
  then show ?thesis using j by (auto simp: capacity_def intro!: exI [of _ "Suc j"])
qed

lemma capacity_start: "capacity b k b"
  by (auto simp: capacity_def intro: exI [of _ 0])

definition SPLIT_MAX :: nat where "SPLIT_MAX = 64 * 3 ^ 11"

lemma unat_of_small: "n < 2 ^ 32 \<Longrightarrow> unat (of_nat n :: u32) = n"
  by (simp add: unsigned_of_nat take_bit_nat_eq_self)

lemma keeps_moved:
  assumes "keeps l h h1" "keeps l1 h1 h2" "l1 = l \<or> chunks h l1 = None"
  shows "keeps l h h2"
  using assms keeps_trans keeps_later by blast

lemma keeps_unallocated: "keeps l h h1 \<Longrightarrow> x \<noteq> l \<Longrightarrow> chunks h1 x = None \<Longrightarrow> chunks h x = None"
  using keeps_allocated by blast

text \<open>What happens after a string was stored: the array grows when it is full.\<close>

lemma split_next:
  fixes num maxn :: u32
  assumes "allocates env" "well_linked h" "string_array h l (unat maxn) ps" "null_context h \<noteq> Some l"
    and "unat num + 1 = length ps" "length ps \<le> unat maxn" "capacity 64 11 (unat maxn)" "length ps < SPLIT_MAX"
  shows "\<exists>l' maxn' h'.
    (if num + 1 = maxn
     then do { (l', h5) \<leftarrow> talloc_realloc_array env ctx (Some l) 8 (unat (maxn * (2 + 1))) name h;
               Some (l', maxn * (2 + 1), h5) }
     else Some (Some l, maxn, h)) = Some (Some l', maxn', h') \<and>
    string_array h' l' (unat maxn') ps \<and> keeps l h h' \<and> (l' = l \<or> chunks h l' = None) \<and>
    length ps < unat maxn' \<and> capacity 64 11 (unat maxn')"
proof -
  have le: "unat maxn \<le> SPLIT_MAX" using capacity_le [OF assms(7)] by (simp add: SPLIT_MAX_def)
  have num: "unat (num + 1) = length ps"
    using assms(5,8) by (simp add: unat_word_ariths SPLIT_MAX_def)
  then have eq: "num + 1 = maxn \<longleftrightarrow> length ps = unat maxn" by (metis word_unat_eq_iff)
  show ?thesis
  proof (cases "length ps = unat maxn")
    case True
    have u: "unat (maxn * (2 + 1)) = 3 * unat maxn"
      using le by (simp add: unat_word_ariths SPLIT_MAX_def)
    have c: "capacity 64 11 (3 * unat maxn)"
      using capacity_grow [OF assms(7)] assms(8) True by (simp add: SPLIT_MAX_def)
    have "3 * unat maxn \<le> SPLIT_MAX" using capacity_le [OF c] by (simp add: SPLIT_MAX_def)
    then have m: "3 * unat maxn < MAX_TALLOC_SIZE div 8"
      by (simp add: SPLIT_MAX_def MAX_TALLOC_SIZE_def)
    have pos: "0 < 3 * unat maxn" using assms(5,6) by simp
    from split_grow [where ctx = ctx and name = name, OF assms(1-3) _ pos m assms(4)] obtain l' h' where
      "talloc_realloc_array env ctx (Some l) 8 (3 * unat maxn) name h = Some (Some l', h')"
      "string_array h' l' (3 * unat maxn) ps" "keeps l h h'" "l' = l \<or> chunks h l' = None" by auto
    with True eq u c pos show ?thesis
      by (intro exI [of _ l'] exI [of _ "maxn * (2 + 1)"] exI [of _ h']) simp
  next
    case False
    have "keeps l h h" using assms(2) by (simp add: keeps_def)
    with False eq assms show ?thesis
      by (intro exI [of _ l] exI [of _ maxn] exI [of _ h]) simp
  qed
qed

lemma strsplit_loop_step:
  fixes num maxn len :: u32
  assumes "s \<noteq> []" "of_nat (strcspn s ds) = len" "drop (unat len) s = b" "take (unat len) s = t"
    and "drop (if strspn b ds = 0 then 0 else 1) b = b'"
    and "talloc_array env (Some l) 1 (unat (len + 1)) (Name_const ''char'') h = Some (Some p, h1)"
    and "store_ptr l (8 * unat num) (Some p) h1 = Some h2"
    and "store_bytes p 0 t h2 = Some h3" "store_bytes p (unat len) [NUL] h3 = Some h4"
    and "(if num + 1 = maxn
          then do { (l', h5) \<leftarrow> talloc_realloc_array env ctx (Some l) 8 (unat (maxn * (2 + 1))) (Name_const ''char *'') h4;
                    Some (l', maxn * (2 + 1), h5) }
          else Some (Some l, maxn, h4)) = Some (lines', maxn', h5)"
  shows "strsplit_loop env ctx ds s (Some l) maxn num h = strsplit_loop env ctx ds b' lines' maxn' (num + 1) h5"
proof -
  have "strsplit_loop env ctx ds s (Some l) maxn num h =
    (let len = of_nat (strcspn s ds) :: u32; rest = drop (unat len) s;
         rest' = drop (if strspn rest ds = 0 then 0 else 1) rest
     in do { l \<leftarrow> Some l;
             (r, h1) \<leftarrow> talloc_array env (Some l) 1 (unat (len + 1)) (Name_const ''char'') h;
             h2 \<leftarrow> store_ptr l (8 * unat num) r h1;
             p \<leftarrow> r;
             h3 \<leftarrow> store_bytes p 0 (take (unat len) s) h2;
             h4 \<leftarrow> store_bytes p (unat len) [NUL] h3;
             (lines', maxn', h5) \<leftarrow>
               (if num + 1 = maxn
                then do { (l', h5) \<leftarrow> talloc_realloc_array env ctx (Some l) 8 (unat (maxn * (2 + 1)))
                                      (Name_const ''char *'') h4;
                          Some (l', maxn * (2 + 1), h5) }
                else Some (Some l, maxn, h4));
             strsplit_loop env ctx ds rest' lines' maxn' (num + 1) h5 })"
    by (rule trans [OF strsplit_loop.simps if_not_P [OF assms(1)]])
  then show ?thesis
    unfolding Let_def assms(2-5) by (simp only: assms(6-10) bind.bind_lunit prod.case)
qed

text \<open>One piece: what one round of the loop leaves for the next.\<close>

lemma strsplit_round:
  fixes num maxn :: u32
  assumes "allocates env" "well_linked h" "string_array h l (unat maxn) ps" "null_context h \<noteq> Some l"
    and "unat num = length ps" "length ps < unat maxn" "capacity 64 11 (unat maxn)"
    and "length ps + length (pieces ds s) < SPLIT_MAX" "length s + 1 < MAX_TALLOC_SIZE" "s \<noteq> []"
  defines "t \<equiv> takeWhile (\<lambda>c. c \<notin> set ds) s" and "b \<equiv> dropWhile (\<lambda>c. c \<notin> set ds) s"
  shows "\<exists>l' maxn' h'. strsplit_loop env ctx ds s (Some l) maxn num h
        = strsplit_loop env ctx ds (drop 1 b) (Some l') maxn' (num + 1) h' \<and>
      string_array h' l' (unat maxn') (ps @ [t]) \<and> null_context h' \<noteq> Some l' \<and>
      unat (num + 1) = length (ps @ [t]) \<and> length (ps @ [t]) < unat maxn' \<and> capacity 64 11 (unat maxn') \<and>
      keeps l h h' \<and> (l' = l \<or> chunks h l' = None)"
proof -
  have s: "s = t @ b" by (simp add: t_def b_def)
  have dt: "drop (length t) s = b" "take (length t) s = t" by (simp_all add: s)
  have tl: "length t + 1 < MAX_TALLOC_SIZE" using assms(9) s by simp
  have len: "unat (of_nat (length t) :: u32) = length t" "unat (of_nat (length t) + 1 :: u32) = length t + 1"
    using tl unat_of_small [of "length t"] unat_of_small [of "length t + 1"]
    by (simp_all add: MAX_TALLOC_SIZE_def add.commute)
  have cs: "strcspn s ds = length t" by (simp add: strcspn_def t_def)
  have rest: "drop (if strspn b ds = 0 then 0 else 1) b = drop 1 b"
  proof (cases b)
    case (Cons x b')
    then have "x \<in> set ds" using hd_dropWhile [of "\<lambda>c. c \<notin> set ds" s] by (simp add: b_def)
    with Cons show ?thesis by (simp add: strspn_def)
  qed simp
  have p: "pieces ds s = t # pieces ds (drop 1 b)" using assms(10) by (simp add: pieces_Cons t_def b_def)
  from split_step [OF assms(1-3,6) tl, of "Name_const ''char''"] obtain p h1 h2 h3 h4 where
    st: "talloc_array env (Some l) 1 (length t + 1) (Name_const ''char'') h = Some (Some p, h1)"
      "store_ptr l (8 * length ps) (Some p) h1 = Some h2" "store_bytes p 0 t h2 = Some h3"
      "store_bytes p (length t) [NUL] h3 = Some h4" "string_array h4 l (unat maxn) (ps @ [t])"
      "keeps l h h4" by blast
  have n4: "null_context h4 \<noteq> Some l" using st(6) assms(4) by (simp add: keeps_def)
  from split_next [where ctx = ctx and name = "Name_const ''char *''" and num = num,
      OF assms(1) keeps_linked [OF st(6)] st(5) n4] assms(5-8) p obtain l' maxn' h5 where
    nx: "(if num + 1 = maxn
       then do { (l', h5) \<leftarrow> talloc_realloc_array env ctx (Some l) 8 (unat (maxn * (2 + 1))) (Name_const ''char *'') h4;
                 Some (l', maxn * (2 + 1), h5) }
       else Some (Some l, maxn, h4)) = Some (Some l', maxn', h5)"
      "string_array h5 l' (unat maxn') (ps @ [t])" "keeps l h4 h5" "l' = l \<or> chunks h4 l' = None"
      "length (ps @ [t]) < unat maxn'" "capacity 64 11 (unat maxn')" by auto
  have run: "strsplit_loop env ctx ds s (Some l) maxn num h
      = strsplit_loop env ctx ds (drop 1 b) (Some l') maxn' (num + 1) h5"
  proof (rule strsplit_loop_step [OF assms(10) arg_cong [OF cs, of of_nat]])
    show "drop (unat (of_nat (length t) :: u32)) s = b" "take (unat (of_nat (length t) :: u32)) s = t"
      unfolding len by (rule dt)+
    show "drop (if strspn b ds = 0 then 0 else 1) b = drop 1 b" by (rule rest)
    show "talloc_array env (Some l) 1 (unat (of_nat (length t) + 1 :: u32)) (Name_const ''char'') h = Some (Some p, h1)"
      unfolding len by (rule st(1))
    show "store_ptr l (8 * unat num) (Some p) h1 = Some h2" unfolding assms(5) by (rule st(2))
    show "store_bytes p 0 t h2 = Some h3" by (rule st(3))
    show "store_bytes p (unat (of_nat (length t) :: u32)) [NUL] h3 = Some h4" unfolding len by (rule st(4))
  qed (rule nx(1))
  have k5: "keeps l h h5" by (rule keeps_trans [OF st(6) nx(3)])
  have l': "l' = l \<or> chunks h l' = None" using nx(4) keeps_unallocated [OF st(6), of l'] by (cases "l' = l") auto
  have n5: "null_context h5 \<noteq> Some l'"
    using l' k5 assms(4) linked_null [OF assms(2)] by (auto simp: keeps_def)
  have u: "unat (num + 1) = length (ps @ [t])"
    using assms(5,8) p by (simp add: unat_word_ariths SPLIT_MAX_def)
  show ?thesis using run nx(2,5,6) n5 u k5 l' by blast
qed

lemma strsplit_loop_ok:
  assumes "allocates env"
  shows "well_linked h \<Longrightarrow> string_array h l (unat maxn) ps \<Longrightarrow> null_context h \<noteq> Some l \<Longrightarrow>
    unat num = length ps \<Longrightarrow> length ps < unat maxn \<Longrightarrow> capacity 64 11 (unat maxn) \<Longrightarrow>
    length ps + length (pieces ds s) < SPLIT_MAX \<Longrightarrow> length s + 1 < MAX_TALLOC_SIZE \<Longrightarrow>
    \<exists>l' m h'. strsplit_loop env ctx ds s (Some l) maxn num h
        = Some (Some l', of_nat (length ps + length (pieces ds s)), h') \<and>
      string_array h' l' m (ps @ pieces ds s) \<and> length ps + length (pieces ds s) < m \<and>
      keeps l h h' \<and> (l' = l \<or> chunks h l' = None)"
proof (induction ds s arbitrary: h l maxn num ps rule: pieces.induct)
  case (1 ds s)
  note prem = "1.prems"
  show ?case
  proof (cases "s = []")
    case True
    have "num = of_nat (length ps)" unfolding prem(4) [symmetric] by simp
    with True prem show ?thesis by (subst strsplit_loop.simps) (auto simp: keeps_def)
  next
    case False
    define t where "t = takeWhile (\<lambda>c. c \<notin> set ds) s"
    define b where "b = dropWhile (\<lambda>c. c \<notin> set ds) s"
    have p: "pieces ds s = t # pieces ds (drop 1 b)" using False by (simp add: pieces_Cons t_def b_def)
    from strsplit_round [OF assms prem False, where ctx = ctx, folded t_def b_def] obtain l' maxn' h5 where
      run: "strsplit_loop env ctx ds s (Some l) maxn num h
          = strsplit_loop env ctx ds (drop 1 b) (Some l') maxn' (num + 1) h5"
      and nx: "string_array h5 l' (unat maxn') (ps @ [t])" "null_context h5 \<noteq> Some l'"
        "unat (num + 1) = length (ps @ [t])" "length (ps @ [t]) < unat maxn'" "capacity 64 11 (unat maxn')"
      and k5: "keeps l h h5" and l': "l' = l \<or> chunks h l' = None" by blast
    have "length b \<le> length s" by (simp add: b_def length_dropWhile_le)
    then have b8: "length (drop 1 b) + 1 < MAX_TALLOC_SIZE" using prem(8) by simp
    have c7: "length (ps @ [t]) + length (pieces ds (drop 1 b)) < SPLIT_MAX" using prem(7) p by simp
    from "1.IH" [OF False, folded b_def, OF keeps_linked [OF k5] nx c7 b8] obtain l2 m h' where
      r: "strsplit_loop env ctx ds (drop 1 b) (Some l') maxn' (num + 1) h5
          = Some (Some l2, of_nat (length (ps @ [t]) + length (pieces ds (drop 1 b))), h')"
        "string_array h' l2 m ((ps @ [t]) @ pieces ds (drop 1 b))"
        "length (ps @ [t]) + length (pieces ds (drop 1 b)) < m" "keeps l' h5 h'"
        "l2 = l' \<or> chunks h5 l2 = None" by blast
    have "keeps l h h'" by (rule keeps_moved [OF k5 r(4) l'])
    moreover have "l2 = l \<or> chunks h l2 = None" using r(5) l' keeps_unallocated [OF k5, of l2] by (cases "l2 = l") auto
    ultimately show ?thesis using run r(1-3) p by (intro exI [of _ l2] exI [of _ m] exI [of _ h']) simp
  qed
qed

section \<open>Reading the array\<close>

text \<open>The array \<open>l\<close> is ended by a null pointer and its pointers are to the strings \<open>ps\<close>.\<close>

definition holds_strings :: "theap \<Rightarrow> ptr \<Rightarrow> string list \<Rightarrow> bool" where
  "holds_strings h l ps \<longleftrightarrow>
     (\<forall>i < length ps. (case load_ptr l (8 * i) h of
        Some (Some p) \<Rightarrow> load_string p h = Some (ps ! i) | _ \<Rightarrow> False)) \<and>
     load_ptr l (8 * length ps) h = Some None"

lemma holds_strings_nth:
  "holds_strings h l ps \<Longrightarrow> i < length ps \<Longrightarrow>
   \<exists>p. load_ptr l (8 * i) h = Some (Some p) \<and> load_string p h = Some (ps ! i)"
  unfolding holds_strings_def by (fastforce split: option.splits)

lemma load_ptr_block: "block h l d \<Longrightarrow> off + 8 \<le> length d \<Longrightarrow> d ! off = Pointer q \<Longrightarrow> load_ptr l off h = Some q"
  by (auto simp: block_def load_ptr_def)

lemma cell_string_Bytes: "NUL \<notin> set t \<Longrightarrow> cell_string (map Byte (t @ [NUL])) = Some t"
  by (induction t) auto

lemma load_string_block: "block h p (map Byte (t @ [NUL])) \<Longrightarrow> NUL \<notin> set t \<Longrightarrow> load_string p h = Some t"
  using cell_string_Bytes by (auto simp: block_def load_string_def)

lemma load_content:
  assumes "content h' p = content h p"
  shows "load_ptr p off h' = load_ptr p off h" "load_string p h' = load_string p h"
proof -
  have "map_option tc_data (chunks h' p) = map_option tc_data (chunks h p)"
    using assms by (cases "chunks h p"; cases "chunks h' p") (auto simp: content_def payload_def)
  then show "load_ptr p off h' = load_ptr p off h" "load_string p h' = load_string p h"
    by (cases "chunks h p"; cases "chunks h' p"; simp add: load_ptr_def load_string_def)+
qed

lemma load_allocated: "load_ptr p off h = Some q \<Longrightarrow> chunks h p \<noteq> None" "load_string p h = Some t \<Longrightarrow> chunks h p \<noteq> None"
  by (cases "chunks h p"; simp add: load_ptr_def load_string_def)+

lemma holds_strings_keep:
  assumes "holds_strings h l ps" "\<And>x. chunks h x \<noteq> None \<Longrightarrow> content h' x = content h x"
  shows "holds_strings h' l ps"
proof -
  have l: "load_ptr l off h' = load_ptr l off h" for off
    by (rule load_content(1) [OF assms(2)]) (use assms(1) load_allocated(1) in \<open>auto simp: holds_strings_def\<close>)
  have "\<exists>p. load_ptr l (8 * i) h' = Some (Some p) \<and> load_string p h' = Some (ps ! i)" if "i < length ps" for i
  proof -
    from holds_strings_nth [OF assms(1) that] obtain p where
      p: "load_ptr l (8 * i) h = Some (Some p)" "load_string p h = Some (ps ! i)" by blast
    with load_content(2) [OF assms(2) [OF load_allocated(2) [OF p(2)]]] l show ?thesis by simp
  qed
  then show ?thesis using assms(1) unfolding holds_strings_def l by fastforce
qed

lemma string_array_end:
  assumes "well_linked h" "string_array h l n ps" "length ps < n" "\<And>t. t \<in> set ps \<Longrightarrow> NUL \<notin> set t"
  shows "\<exists>h'. store_ptr l (8 * length ps) None h = Some h' \<and> holds_strings h' l ps \<and> keeps l h h'"
proof -
  from assms(2) obtain d where d: "block h l d" "8 * n \<le> length d"
      "\<And>i. i < length ps \<Longrightarrow> \<exists>p. p \<noteq> l \<and> d ! (8 * i) = Pointer (Some p) \<and> block h p (map Byte (ps ! i @ [NUL]))"
    unfolding string_array_def by blast
  let ?d = "d[8 * length ps := Pointer None]"
  have r: "8 * length ps + 8 \<le> length d" using assms(3) d(2) by linarith
  from store_ptr_block [OF assms(1) d(1) r] obtain h' where
    h': "store_ptr l (8 * length ps) None h = Some h'" "keeps l h h'" "block h' l ?d" by blast
  have "load_ptr l (8 * length ps) h' = Some None"
    using r by (intro load_ptr_block [OF h'(3)]) auto
  moreover have "\<exists>p. load_ptr l (8 * i) h' = Some (Some p) \<and> load_string p h' = Some (ps ! i)"
    if i: "i < length ps" for i
  proof -
    from d(3) [OF i] obtain p where p: "p \<noteq> l" "d ! (8 * i) = Pointer (Some p)"
      "block h p (map Byte (ps ! i @ [NUL]))" by blast
    have "load_ptr l (8 * i) h' = Some (Some p)"
      using r i p(2) by (intro load_ptr_block [OF h'(3)]) auto
    moreover have "load_string p h' = Some (ps ! i)"
      using assms(4) i by (intro load_string_block [OF keeps_block [OF h'(2) p(1,3)]]) simp
    ultimately show ?thesis by blast
  qed
  ultimately have "holds_strings h' l ps" unfolding holds_strings_def by fastforce
  with h'(1,2) show ?thesis by blast
qed

lemma strsplit_ok:
  assumes "allocates env" "well_linked h" "\<And>q. ctx = Some q \<Longrightarrow> chunks h q \<noteq> None" "cstring s"
    and "length (pieces ds s) < SPLIT_MAX" "length s + 1 < MAX_TALLOC_SIZE"
  shows "\<exists>l h'. strsplit env ctx s ds h = Some (l, of_nat (length (pieces ds s)), h') \<and>
    holds_strings h' l (pieces ds s) \<and> chunks h l = None \<and> keeps l h h'"
proof -
  have u: "unat (64 + 1 :: u32) = 65" by simp
  have m: "(65::nat) < MAX_TALLOC_SIZE div 8" by (simp add: MAX_TALLOC_SIZE_def)
  from array_block [where ctx = ctx and el = 8 and n = 65 and name = "Name_const ''char *''",
      OF assms(1,2) _ _ m] assms(3) obtain r h1 where
    r: "talloc_array env ctx 8 65 (Name_const ''char *'') h = Some (Some r, h1)" "chunks h r = None"
      "keeps r h h1" "block h1 r (replicate (8 * 65) Undef)" by auto
  have "string_array h1 r 64 []" using r(4) by (auto simp: string_array_def)
  then have a: "string_array h1 r (unat (64 :: u32)) []" by simp
  have n: "null_context h1 \<noteq> Some r"
    using r(2,3) linked_null [OF assms(2)] by (auto simp: keeps_def)
  have c: "capacity 64 11 (unat (64 :: u32))" using capacity_start [of 64] by simp
  from strsplit_loop_ok [where num = 0 and maxn = 64 and ctx = ctx and ds = ds and s = s,
      OF assms(1) keeps_linked [OF r(3)] a n _ _ c _ assms(6)] assms(5) obtain l m h2 where
    l: "strsplit_loop env ctx ds s (Some r) 64 0 h1 = Some (Some l, of_nat (length (pieces ds s)), h2)"
      "string_array h2 l m (pieces ds s)" "length (pieces ds s) < m" "keeps r h1 h2"
      "l = r \<or> chunks h1 l = None" by auto
  have nn: "NUL \<notin> set t" if "t \<in> set (pieces ds s)" for t
    using pieces_no_delim [OF that] assms(4) by (auto simp: cstring_def)
  from string_array_end [OF keeps_linked [OF l(4)] l(2,3) nn] obtain h' where
    h': "store_ptr l (8 * length (pieces ds s)) None h2 = Some h'" "holds_strings h' l (pieces ds s)" "keeps l h2 h'"
    by blast
  have k2: "keeps r h h2" by (rule keeps_trans [OF r(3) l(4)])
  have hl: "chunks h l = None"
    using l(5) r(2) keeps_unallocated [OF r(3), of l] by (cases "l = r") auto
  have "keeps l h h'"
    by (rule keeps_trans [OF keeps_fresh [OF k2 r(2)] h'(3)])
  moreover have "unat (of_nat (length (pieces ds s)) :: u32) = length (pieces ds s)"
    using assms(5) by (intro unat_of_small) (simp add: SPLIT_MAX_def)
  ultimately show ?thesis
    using r(1) l(1) h'(1,2) hl by (simp add: strsplit_def)
qed

section \<open>strjoin\<close>

text \<open>Appending to a string in a block that holds just that string.\<close>

lemma append_ok:
  assumes "allocates env" "well_linked h" "block h r (map Byte (acc @ [NUL]))" "NUL \<notin> set acc"
    and "length acc + length a + 1 < MAX_TALLOC_SIZE" "null_context h \<noteq> Some r"
  shows "\<exists>r' h'. talloc_append_string env r (Some a) h = Some (Some r', h') \<and>
    block h' r' (map Byte ((acc @ a) @ [NUL])) \<and> keeps r h h' \<and> (r' = r \<or> chunks h r' = None)"
proof -
  let ?n = "length acc + (length a + 1)"
  let ?d = "resize_cells (1 * ?n) (map Byte (acc @ [NUL]))"
  have n: "0 < ?n" "?n < MAX_TALLOC_SIZE div 1" using assms(5) by auto
  from grow_block [where ctx = None and name = "Name_const ''char''", OF assms(1-3) zero_less_one n assms(6)]
  obtain r' h1 where g: "talloc_realloc_array env None (Some r) 1 ?n (Name_const ''char'') h = Some (Some r', h1)"
      "keeps r h h1" "block h1 r' ?d" "r' = r \<or> chunks h r' = None" by blast
  have "length acc + length (map Byte (a @ [NUL])) \<le> length ?d" by simp
  from store_cells_block [OF keeps_linked [OF g(2)] g(3) this] obtain h2 where
    s: "store_bytes r' (length acc) (a @ [NUL]) h1 = Some h2" "keeps r' h1 h2"
      "block h2 r' (put_cells (length acc) (map Byte (a @ [NUL])) ?d)"
    by (auto simp: store_bytes_def)
  have "take (length acc) ?d = map Byte acc"
    by (simp add: resize_cells_def take_map)
  then have p: "put_cells (length acc) (map Byte (a @ [NUL])) ?d = map Byte ((acc @ a) @ [NUL])"
    by (simp add: put_cells_def)
  from set_name_block [OF keeps_linked [OF s(2)] s(3)] obtain h3 where
    t: "talloc_set_name_const r' (Name_at r') h2 = Some h3" "keeps r' h2 h3"
      "block h3 r' (map Byte ((acc @ a) @ [NUL]))" unfolding p by blast
  have "keeps r h h3"
    by (rule keeps_moved [OF g(2) keeps_trans [OF s(2) t(2)] g(4)])
  with g(1,4) s(1) t(1,3) load_string_block [OF assms(3,4)] show ?thesis
    by (simp add: talloc_append_string_def)
qed

lemma strdup_empty:
  assumes "allocates env" "well_linked h" "\<And>q. ctx = Some q \<Longrightarrow> chunks h q \<noteq> None"
  shows "\<exists>r h'. talloc_strdup env ctx (Some []) h = Some (Some r, h') \<and> chunks h r = None \<and>
    keeps r h h' \<and> block h' r (map Byte ([] @ [NUL]))"
proof -
  have "finite {p. chunks h p \<noteq> None}" using linked_finite [OF assms(2)] .
  then obtain r where r: "t_malloc env 1 h = Some r" "chunks h r = None"
    using assms(1) unfolding allocates_def by blast
  have "(1::nat) < MAX_TALLOC_SIZE" by (simp add: MAX_TALLOC_SIZE_def)
  from named_alloc [where ctx = ctx and name = "Name_const ''talloc.c''", OF assms(2) _ this r] assms(3)
  obtain h1 where h1: "talloc_named_const env ctx 1 (Name_const ''talloc.c'') h = Some (Some r, h1)"
    "keeps r h h1" "block h1 r (replicate 1 Undef)" by blast
  from store_cells_block [OF keeps_linked [OF h1(2)] h1(3), of 0 "[Byte NUL]"] obtain h2 where
    h2: "store_bytes r 0 [NUL] h1 = Some h2" "keeps r h1 h2" "block h2 r [Byte NUL]"
    by (auto simp: store_bytes_def put_cells_def)
  from set_name_block [OF keeps_linked [OF h2(2)] h2(3), of "Name_at r"] obtain h3 where
    h3: "talloc_set_name_const r (Name_at r) h2 = Some h3" "keeps r h2 h3" "block h3 r [Byte NUL]" by blast
  have "keeps r h h3" by (rule keeps_trans [OF keeps_trans [OF h1(2) h2(2)] h3(2)])
  with h1(1) h2(1) h3(1,3) r(2) show ?thesis
    by (simp add: talloc_strdup_def talloc_memdup_def)
qed

text \<open>\<open>since h0 r h\<close>: the heap \<open>h\<close> came from \<open>h0\<close>, whose blocks it keeps; \<open>r\<close> is a newer block.\<close>

definition since :: "theap \<Rightarrow> ptr \<Rightarrow> theap \<Rightarrow> bool" where
  "since h0 r h \<longleftrightarrow> well_linked h \<and> null_context h = null_context h0 \<and> chunks h0 r = None \<and>
     (\<forall>x. chunks h0 x \<noteq> None \<longrightarrow> content h x = content h0 x)"

lemma since_null: "well_linked h0 \<Longrightarrow> since h0 r h \<Longrightarrow> null_context h \<noteq> Some r"
  using linked_null [of h0 r] by (auto simp: since_def)

lemma since_allocated: "since h0 r h \<Longrightarrow> chunks h x = None \<Longrightarrow> chunks h0 x = None"
  unfolding since_def content_def by (metis map_option_is_None)

lemma since_step:
  assumes "since h0 r h" "keeps r h h1" "r1 = r \<or> chunks h r1 = None"
  shows "since h0 r1 h1"
  unfolding since_def
proof (intro conjI allI impI)
  show "well_linked h1" "null_context h1 = null_context h0" using assms(1,2) by (simp_all add: since_def keeps_def)
  show "chunks h0 r1 = None" using assms(1,3) since_allocated [OF assms(1), of r1] by (auto simp: since_def)
  fix x assume x: "chunks h0 x \<noteq> None"
  then have "x \<noteq> r" using assms(1) by (auto simp: since_def)
  moreover have "chunks h x \<noteq> None" using since_allocated [OF assms(1), of x] x by blast
  ultimately show "content h1 x = content h0 x" using assms(1,2) x by (simp add: since_def keeps_def)
qed

lemma strjoin_loop_ok:
  assumes "allocates env" "well_linked h0" "holds_strings h0 l ps" "\<And>t. t \<in> set ps \<Longrightarrow> NUL \<notin> set t" "NUL \<notin> set dl"
    and "length ps < 2 ^ 32"
  shows "since h0 r h \<Longrightarrow> block h r (map Byte (acc @ [NUL])) \<Longrightarrow> NUL \<notin> set acc \<Longrightarrow> unat i \<le> length ps \<Longrightarrow>
    length acc + length (concat (map (\<lambda>t. t @ dl) (drop (unat i) ps))) + 1 < MAX_TALLOC_SIZE \<Longrightarrow>
    \<exists>r' h'. strjoin_loop env l (Some dl) i (Some r) h = Some (Some r', h') \<and> since h0 r' h' \<and>
      block h' r' (map Byte ((acc @ concat (map (\<lambda>t. t @ dl) (drop (unat i) ps))) @ [NUL]))"
proof (induction "length ps - unat i" arbitrary: i r h acc)
  case 0
  then have i: "unat i = length ps" by simp
  have "load_ptr l (8 * unat i) h = Some None"
    using holds_strings_keep [OF assms(3)] 0(2) unfolding i by (simp add: since_def holds_strings_def)
  with 0 i show ?case by (subst strjoin_loop.simps) simp
next
  case (Suc n)
  then have i: "unat i < length ps" by simp
  define t where "t = ps ! unat i"
  have d: "drop (unat i) ps = t # drop (unat i + 1) ps" using i by (simp add: t_def Cons_nth_drop_Suc)
  have u: "unat (i + 1) = unat i + 1"
    using i assms(6) by (simp add: unat_word_ariths)
  have nt: "NUL \<notin> set t" using assms(4) i by (simp add: t_def)
  have "holds_strings h l ps" using holds_strings_keep [OF assms(3)] Suc(3) by (simp add: since_def)
  from holds_strings_nth [OF this i] obtain p where
    p: "load_ptr l (8 * unat i) h = Some (Some p)" "load_string p h = Some t" by (auto simp: t_def)
  have lk: "well_linked h" using Suc(3) by (simp add: since_def)
  have b1: "length acc + length t + 1 < MAX_TALLOC_SIZE" using Suc(7) d by simp
  from append_ok [OF assms(1) lk Suc(4,5) b1 since_null [OF assms(2) Suc(3)]] obtain r1 h1 where
    s1: "talloc_append_string env r (Some t) h = Some (Some r1, h1)" "block h1 r1 (map Byte ((acc @ t) @ [NUL]))"
      "keeps r h h1" "r1 = r \<or> chunks h r1 = None" by blast
  have i1: "since h0 r1 h1" by (rule since_step [OF Suc(3) s1(3,4)])
  have b2: "length (acc @ t) + length dl + 1 < MAX_TALLOC_SIZE" using Suc(7) d by simp
  have n1: "NUL \<notin> set (acc @ t)" using Suc(5) nt by simp
  from append_ok [OF assms(1) keeps_linked [OF s1(3)] s1(2) n1 b2 since_null [OF assms(2) i1]] obtain r2 h2 where
    s2: "talloc_append_string env r1 (Some dl) h1 = Some (Some r2, h2)"
      "block h2 r2 (map Byte (((acc @ t) @ dl) @ [NUL]))" "keeps r1 h1 h2" "r2 = r1 \<or> chunks h1 r2 = None" by blast
  have run: "strjoin_loop env l (Some dl) i (Some r) h = strjoin_loop env l (Some dl) (i + 1) (Some r2) h2"
    using p s1(1) s2(1) by (subst strjoin_loop.simps) simp
  have i2: "since h0 r2 h2" by (rule since_step [OF i1 s2(3,4)])
  have n: "n = length ps - unat (i + 1)" using Suc(2) u by simp
  from Suc(1) [OF n i2 s2(2)] show ?case
    using n1 assms(5) Suc(7) d u i unfolding run by simp
qed

lemma strjoin_ok:
  assumes "allocates env" "well_linked h" "\<And>q. ctx = Some q \<Longrightarrow> chunks h q \<noteq> None" "holds_strings h l ps"
    and "\<And>t. t \<in> set ps \<Longrightarrow> NUL \<notin> set t" "NUL \<notin> set dl" "length ps < 2 ^ 32"
    and "length (concat (map (\<lambda>t. t @ dl) ps)) + 1 < MAX_TALLOC_SIZE"
  shows "\<exists>r h'. strjoin env ctx l (Some dl) h = Some (Some r, h') \<and> since h r h' \<and>
    load_string r h' = Some (concat (map (\<lambda>t. t @ dl) ps))"
proof -
  from strdup_empty [OF assms(1-3)] obtain r h1 where
    r: "talloc_strdup env ctx (Some []) h = Some (Some r, h1)" "chunks h r = None" "keeps r h h1"
      "block h1 r (map Byte ([] @ [NUL]))" by blast
  have "since h r h1" unfolding since_def
  proof (intro conjI allI impI)
    fix x assume x: "chunks h x \<noteq> None"
    then have "x \<noteq> r" using r(2) by auto
    with x r(3) show "content h1 x = content h x" by (simp add: keeps_def)
  qed (use r(2,3) in \<open>simp_all add: keeps_def\<close>)
  from strjoin_loop_ok [where i = 0, OF assms(1,2,4-7) this r(4)] assms(8) obtain r' h' where
    l: "strjoin_loop env l (Some dl) 0 (Some r) h1 = Some (Some r', h')" "since h r' h'"
      "block h' r' (map Byte (concat (map (\<lambda>t. t @ dl) ps) @ [NUL]))" by auto
  have "NUL \<notin> set (concat (map (\<lambda>t. t @ dl) ps))" using assms(5,6) by auto
  from load_string_block [OF l(3) this] l(1,2) r(1) show ?thesis by (simp add: strjoin_def)
qed

section \<open>grab_fd\<close>

text \<open>
  A file that can be read to its end: \<open>rest f\<close> is what is left to read, and every read gives a part of it,
  of any length up to the one asked for, and nothing only at the end.
\<close>

definition delivers :: "(nat \<Rightarrow> 'f \<Rightarrow> char list option \<times> 'f) \<Rightarrow> ('f \<Rightarrow> char list) \<Rightarrow> bool" where
  "delivers rd rest \<longleftrightarrow> (\<forall>n f. 0 < n \<longrightarrow>
     (\<exists>bs f'. rd n f = (Some bs, f') \<and> length bs \<le> n \<and> rest f = bs @ rest f' \<and> (bs = [] \<longrightarrow> rest f = [])))"

definition GRAB_MAX :: nat where "GRAB_MAX = 16384 * 3 ^ 8"

lemma put_next:
  assumes "take n d = map Byte s" "length s = n" "n + length bs \<le> length d"
  shows "take (n + length bs) (put_cells n (map Byte bs) d) = map Byte (s @ bs)"
  using assms by (simp add: put_cells_def)

text \<open>After a read: the buffer grows when it is full.\<close>

lemma grab_next:
  assumes "allocates env" "well_linked h0" "since h0 b h" "block h b d" "take n d = map Byte s" "n \<le> maxn"
    and "maxn \<le> length d" "capacity 16384 8 maxn" "n < GRAB_MAX"
  shows "\<exists>b' maxn' h' d'.
    (if n = maxn
     then do { (r, h2) \<leftarrow> talloc_realloc_array env ctx (Some b) 1 (maxn * (2 + 1)) name h; Some (r, maxn * (2 + 1), h2) }
     else Some (Some b, maxn, h)) = Some (Some b', maxn', h') \<and> since h0 b' h' \<and>
    block h' b' d' \<and> take n d' = map Byte s \<and> n < maxn' \<and> maxn' \<le> length d' \<and> capacity 16384 8 maxn'"
proof (cases "n = maxn")
  case True
  have c: "capacity 16384 8 (3 * maxn)"
    using capacity_grow [OF assms(8)] assms(9) True by (simp add: GRAB_MAX_def)
  have pos: "0 < maxn" using assms(8) by (auto simp: capacity_def)
  have "maxn * (2 + 1) < MAX_TALLOC_SIZE div 1"
    using capacity_le [OF c] by (simp add: MAX_TALLOC_SIZE_def)
  moreover have "well_linked h" using assms(3) by (simp add: since_def)
  moreover have "0 < maxn * (2 + 1)" using pos by simp
  ultimately obtain b' h' where g: "talloc_realloc_array env ctx (Some b) 1 (maxn * (2 + 1)) name h = Some (Some b', h')"
      "keeps b h h'" "block h' b' (resize_cells (1 * (maxn * (2 + 1))) d)" "b' = b \<or> chunks h b' = None"
    using grow_block [where ctx = ctx and name = name, OF assms(1) _ assms(4) zero_less_one _ _ since_null [OF assms(2,3)]]
    by blast
  have "take n (resize_cells (1 * (maxn * (2 + 1))) d) = map Byte s"
    using assms(5-7) True pos by (simp add: resize_cells_def min_def)
  with g True c pos since_step [OF assms(3) g(2,4)] show ?thesis
    by (intro exI [of _ b'] exI [of _ "maxn * (2 + 1)"] exI [of _ h'] exI [of _ "resize_cells (1 * (maxn * (2 + 1))) d"])
       (simp add: mult.commute)
next
  case False
  with assms show ?thesis
    by (intro exI [of _ b] exI [of _ maxn] exI [of _ h] exI [of _ d]) simp
qed

lemma grab_loop_ok:
  assumes "allocates env" "well_linked h0" "delivers rd rest"
  shows "since h0 b h \<Longrightarrow> block h b d \<Longrightarrow> take n d = map Byte s \<Longrightarrow> length s = n \<Longrightarrow> n < maxn \<Longrightarrow> maxn \<le> length d \<Longrightarrow>
    capacity 16384 8 maxn \<Longrightarrow> n + length (rest f) < GRAB_MAX \<Longrightarrow>
    \<exists>b' f' h' d'. grab_loop rd env ctx (Some b) maxn n f h = Some (True, Some b', n + length (rest f), f', h') \<and>
      since h0 b' h' \<and> block h' b' d' \<and> take (n + length (rest f)) d' = map Byte (s @ rest f) \<and>
      n + length (rest f) < length d'"
proof (induction "length (rest f)" arbitrary: b h d n s maxn f rule: less_induct)
  case less
  from assms(3) less.prems(5) obtain bs f' where
    rd: "rd (maxn - n) f = (Some bs, f')" "length bs \<le> maxn - n" "rest f = bs @ rest f'" "bs = [] \<longrightarrow> rest f = []"
    unfolding delivers_def by (metis zero_less_diff)
  show ?case
  proof (cases "bs = []")
    case True
    with rd less.prems show ?thesis by (subst grab_loop.simps) auto
  next
    case False
    have lk: "well_linked h" using less.prems(1) by (simp add: since_def)
    have fits: "n + length bs \<le> length d" using rd(2) less.prems(5,6) by linarith
    then have fits': "n + length (map Byte bs) \<le> length d" by simp
    from store_cells_block [OF lk less.prems(2) fits'] obtain h1 where
      h1: "store_bytes b n bs h = Some h1" "keeps b h h1" "block h1 b (put_cells n (map Byte bs) d)"
      unfolding store_bytes_def by blast
    let ?d = "put_cells n (map Byte bs) d"
    have len: "length ?d = length d" using fits by (simp add: put_cells_def)
    have t: "take (n + length bs) ?d = map Byte (s @ bs)" by (rule put_next [OF less.prems(3,4) fits])
    have m: "n + length bs \<le> maxn" "maxn \<le> length ?d" "n + length bs < GRAB_MAX"
      using rd(2,3) less.prems(5,6,8) len by auto
    have i1: "since h0 b h1" by (rule since_step [OF less.prems(1) h1(2)]) simp
    from grab_next [where ctx = ctx and name = "Name_const ''char''",
        OF assms(1,2) i1 h1(3) t m(1,2) less.prems(7) m(3)] obtain b' maxn' h2 d' where
      nx: "(if n + length bs = maxn
        then do { (r, h2) \<leftarrow> talloc_realloc_array env ctx (Some b) 1 (maxn * (2 + 1)) (Name_const ''char'') h1;
                  Some (r, maxn * (2 + 1), h2) }
        else Some (Some b, maxn, h1)) = Some (Some b', maxn', h2)" "since h0 b' h2" "block h2 b' d'"
        "take (n + length bs) d' = map Byte (s @ bs)" "n + length bs < maxn'" "maxn' \<le> length d'"
        "capacity 16384 8 maxn'" by blast
    have run: "grab_loop rd env ctx (Some b) maxn n f h = grab_loop rd env ctx (Some b') maxn' (n + length bs) f' h2"
      using False rd(1) h1(1) nx(1) by (subst grab_loop.simps) simp
    have sm: "length (rest f') < length (rest f)" using rd(3) False by simp
    have l: "length (s @ bs) = n + length bs" using less.prems(4) by simp
    have g: "n + length bs + length (rest f') < GRAB_MAX" using less.prems(8) rd(3) by simp
    from less.hyps [OF sm nx(2-4) l nx(5-7) g] show ?thesis
      unfolding run by (simp add: rd(3) add.assoc)
  qed
qed

end
