(* ===== verification/StringProps.thy ===== *)
theory StringProps
  imports StringSpec
begin

text \<open>
  The properties of src/string.c: the array \<open>strsplit\<close> makes, that \<open>strjoin\<close> undoes it, and that
  \<open>grab_file\<close> gets the whole file.
\<close>

section \<open>A small system\<close>

text \<open>An allocator that takes the first free address, and always moves a block it resizes.\<close>

definition first_free :: "theap \<Rightarrow> ptr" where
  "first_free h = (LEAST p. chunks h p = None)"

definition first_fit :: tenv where
  "first_fit = \<lparr>tc_lock = None, t_malloc = (\<lambda>n h. Some (first_free h)), t_realloc = (\<lambda>p n h. Some (first_free h)),
                t_external = (\<lambda>c p n h. None), t_destructor = (\<lambda>n p h. (0, h))\<rparr>"

definition empty_heap :: theap where
  "empty_heap = \<lparr>chunks = (\<lambda>p. None), null_context = None, autofree_context = None\<rparr>"

lemma first_free: "finite {p. chunks h p \<noteq> None} \<Longrightarrow> chunks h (first_free h) = None"
proof -
  assume "finite {p. chunks h p \<noteq> None}"
  then obtain p where "p \<notin> {p. chunks h p \<noteq> None}" using ex_new_if_finite [OF infinite_UNIV_nat] by blast
  then have "chunks h p = None" by simp
  then show ?thesis unfolding first_free_def by (rule LeastI)
qed

lemma first_fit_allocates: "allocates first_fit"
  using first_free by (simp add: allocates_def first_fit_def)

lemma empty_linked: "well_linked empty_heap"
  by (simp add: well_linked_def links_ok_def internal_def empty_heap_def opposite_def field_def)

text \<open>A file of which every read gives at most three bytes.\<close>

definition slow_read :: "nat \<Rightarrow> char list \<Rightarrow> char list option \<times> char list" where
  "slow_read n f = (Some (take (min n 3) f), drop (min n 3) f)"

lemma slow_read_delivers: "delivers slow_read (\<lambda>f. f)"
  by (auto simp: delivers_def slow_read_def)

section \<open>Texts\<close>

text \<open>The block \<open>p\<close> holds the bytes \<open>bs\<close> and a NUL after them.\<close>

definition holds_text :: "theap \<Rightarrow> ptr \<Rightarrow> char list \<Rightarrow> bool" where
  "holds_text h p bs \<longleftrightarrow>
     (case chunks h p of None \<Rightarrow> False | Some c \<Rightarrow> take (length bs + 1) (tc_data c) = map Byte (bs @ [NUL]))"

lemma grab_fd_ok:
  assumes "allocates env" "well_linked h" "\<And>q. ctx = Some q \<Longrightarrow> chunks h q \<noteq> None" "delivers rd rest"
    and "length (rest f) < GRAB_MAX"
  shows "\<exists>p f' h'. grab_fd rd env ctx f h = Some (Some p, length (rest f), f', h') \<and>
    holds_text h' p (rest f) \<and> since h p h'"
proof -
  have "(16384 + 1 :: nat) < MAX_TALLOC_SIZE div 1" by (simp add: MAX_TALLOC_SIZE_def)
  from array_block [where ctx = ctx and name = "Name_const ''char''", OF assms(1,2) _ zero_less_one this] assms(3)
  obtain r h1 where r: "talloc_array env ctx 1 (16384 + 1) (Name_const ''char'') h = Some (Some r, h1)"
      "chunks h r = None" "keeps r h h1" "block h1 r (replicate (1 * (16384 + 1)) Undef)" by blast
  have i: "since h r h1" unfolding since_def
  proof (intro conjI allI impI)
    fix x assume x: "chunks h x \<noteq> None"
    then have "x \<noteq> r" using r(2) by auto
    with x r(3) show "content h1 x = content h x" by (simp add: keeps_def)
  qed (use r(2,3) in \<open>simp_all add: keeps_def\<close>)
  have z: "take 0 (replicate (1 * (16384 + 1)) Undef) = map Byte []" "length ([] :: char list) = 0"
    "(0::nat) < 16384" "(16384::nat) \<le> length (replicate (1 * (16384 + 1)) Undef)" by simp_all
  from grab_loop_ok [where ctx = ctx and f = f, OF assms(1,2,4) i r(4) z capacity_start] assms(5) obtain b f' h2 d where
    l: "grab_loop rd env ctx (Some r) 16384 0 f h1 = Some (True, Some b, length (rest f), f', h2)"
      "since h b h2" "block h2 b d" "take (length (rest f)) d = map Byte (rest f)" "length (rest f) < length d"
    by auto
  have "well_linked h2" using l(2) by (simp add: since_def)
  moreover have fits: "length (rest f) + length (map Byte [NUL]) \<le> length d" using l(5) by simp
  ultimately obtain h3 where h3: "store_bytes b (length (rest f)) [NUL] h2 = Some h3" "keeps b h2 h3"
      "block h3 b (put_cells (length (rest f)) (map Byte [NUL]) d)"
    using store_cells_block [OF _ l(3)] unfolding store_bytes_def by blast
  have "take (length (rest f) + 1) (put_cells (length (rest f)) (map Byte [NUL]) d) = map Byte (rest f @ [NUL])"
    using put_next [OF l(4) refl, of "[NUL]"] fits by simp
  then have "holds_text h3 b (rest f)" using h3(3) by (auto simp: holds_text_def block_def)
  moreover have "since h b h3" by (rule since_step [OF l(2) h3(2)]) simp
  ultimately show ?thesis using r(1) l(1) h3(1) by (simp add: grab_fd_def)
qed

section \<open>The properties\<close>

text \<open>
  C38. When memory does not run out, \<open>strsplit\<close> returns the number of pieces of the string
  and an array of pointers to exactly these pieces, ended by a null pointer; it never writes outside of
  a block, however often the array grows. The heap keeps its invariant, and every block that was
  there keeps its contents. The number of pieces is bounded by what the array can hold.
\<close>

theorem strsplit_splits:
  assumes "allocates env" "well_linked h" "\<forall>q. ctx = Some q \<longrightarrow> chunks h q \<noteq> None" "cstring s"
    and "length (pieces delims s) < SPLIT_MAX" "length s + 1 < MAX_TALLOC_SIZE"
  shows "\<exists>l h'. strsplit env ctx s delims h = Some (l, of_nat (length (pieces delims s)), h') \<and>
    holds_strings h' l (pieces delims s) \<and> well_linked h' \<and>
    (\<forall>x. chunks h x \<noteq> None \<longrightarrow> content h' x = content h x)"
proof -
  have "\<And>q. ctx = Some q \<Longrightarrow> chunks h q \<noteq> None" using assms(3) by blast
  from strsplit_ok [OF assms(1,2) this assms(4-6)] obtain l h' where
    l: "strsplit env ctx s delims h = Some (l, of_nat (length (pieces delims s)), h')"
      "holds_strings h' l (pieces delims s)" "chunks h l = None" "keeps l h h'" by blast
  moreover have "content h' x = content h x" if "chunks h x \<noteq> None" for x
    using that l(3,4) by (cases "x = l") (auto simp: keeps_def)
  ultimately show ?thesis by (auto simp: keeps_linked)
qed

theorem strsplit_splits_witness:
  "\<exists>l h'. strsplit first_fit None ''a,,bc,'' '','' empty_heap = Some (l, 3, h') \<and>
    holds_strings h' l [''a'', [], ''bc'']"
proof -
  have "pieces '','' ''a,,bc,'' = [''a'', [], ''bc'']" by (simp add: pieces.simps)
  moreover have "cstring ''a,,bc,''" by (simp add: cstring_def NUL_def)
  ultimately show ?thesis
    using strsplit_splits [of first_fit empty_heap None "''a,,bc,''" "'',''"] first_fit_allocates empty_linked
    by (auto simp: SPLIT_MAX_def MAX_TALLOC_SIZE_def)
qed

text \<open>
  C39. \<open>strjoin\<close> undoes \<open>strsplit\<close>: splitting a string at one character and joining the pieces with that
  character gives a new block with the string, ended with the character once if it was not already.
\<close>

theorem strjoin_strsplit:
  assumes "allocates env" "well_linked h" "\<forall>q. ctx = Some q \<longrightarrow> chunks h q \<noteq> None" "cstring s" "c \<noteq> NUL"
    and "length (pieces [c] s) < SPLIT_MAX" "length s + 2 < MAX_TALLOC_SIZE"
  shows "\<exists>l n h1 r h2. strsplit env ctx s [c] h = Some (l, n, h1) \<and>
    strjoin env ctx l (Some [c]) h1 = Some (Some r, h2) \<and>
    load_string r h2 = Some (if s = [] \<or> last s = c then s else s @ [c])"
proof -
  have x: "\<And>q. ctx = Some q \<Longrightarrow> chunks h q \<noteq> None" using assms(3) by blast
  have "length s + 1 < MAX_TALLOC_SIZE" using assms(7) by simp
  from strsplit_ok [OF assms(1,2) x assms(4,6) this] obtain l h1 where
    l: "strsplit env ctx s [c] h = Some (l, of_nat (length (pieces [c] s)), h1)"
      "holds_strings h1 l (pieces [c] s)" "chunks h l = None" "keeps l h h1" by blast
  have x1: "chunks h1 q \<noteq> None" if "ctx = Some q" for q
  proof -
    have "q \<noteq> l" using x [OF that] l(3) by auto
    then show ?thesis using keeps_allocated [OF l(4) _ x [OF that]] by simp
  qed
  have nn: "NUL \<notin> set t" if "t \<in> set (pieces [c] s)" for t
    using pieces_no_delim [OF that] assms(4) by (auto simp: cstring_def)
  have n: "length (pieces [c] s) < 2 ^ 32" using assms(6) by (simp add: SPLIT_MAX_def)
  have d: "NUL \<notin> set [c]" using assms(5) by simp
  have m: "length (concat (map (\<lambda>t. t @ [c]) (pieces [c] s))) + 1 < MAX_TALLOC_SIZE"
    using assms(7) by (simp add: pieces_join with_end_def)
  from strjoin_ok [where ctx = ctx, OF assms(1) keeps_linked [OF l(4)] x1 l(2) nn d n m] obtain r h2 where
    "strjoin env ctx l (Some [c]) h1 = Some (Some r, h2)" "load_string r h2 = Some (with_end c s)"
    unfolding pieces_join by blast
  with l(1) show ?thesis unfolding with_end_def by (intro exI conjI)
qed

theorem strjoin_strsplit_witness:
  "\<exists>l n h1 r h2. strsplit first_fit None ''a,,bc'' '','' empty_heap = Some (l, n, h1) \<and>
    strjoin first_fit None l (Some '','') h1 = Some (Some r, h2) \<and> load_string r h2 = Some ''a,,bc,''"
proof -
  have "pieces '','' ''a,,bc'' = [''a'', [], ''bc'']" by (simp add: pieces.simps)
  moreover have "cstring ''a,,bc''" "CHR '','' \<noteq> NUL" by (simp_all add: cstring_def NUL_def)
  ultimately show ?thesis
    using strjoin_strsplit [of first_fit empty_heap None "''a,,bc''" "CHR '',''"] first_fit_allocates empty_linked
    by (simp add: SPLIT_MAX_def MAX_TALLOC_SIZE_def)
qed

text \<open>
  C40. \<open>grab_file\<close> on a file that can be opened and read returns a new block that holds all the bytes of the
  file and a NUL after them, and the size of the file, however the operating system cuts the reads. Closing
  the file leaves \<open>errno\<close> as it was, also when it fails.
\<close>

theorem grab_file_reads:
  assumes "allocates env" "well_linked h" "\<forall>q. ctx = Some q \<longrightarrow> chunks h q \<noteq> None"
    and "opn filename = Some (fd, f)" "delivers rd rest" "length (rest f) < GRAB_MAX"
  shows "\<exists>p h'. grab_file rd opn close env ctx filename errno h = Some (Some p, Some (length (rest f)), errno, h') \<and>
    holds_text h' p (rest f) \<and> chunks h p = None \<and> well_linked h'"
proof -
  have "\<And>q. ctx = Some q \<Longrightarrow> chunks h q \<noteq> None" using assms(3) by blast
  from grab_fd_ok [OF assms(1,2) this assms(5,6)] obtain p f' h' where
    "grab_fd rd env ctx f h = Some (Some p, length (rest f), f', h')" "holds_text h' p (rest f)" "since h p h'" by blast
  with assms(4) show ?thesis
    by (simp add: grab_file_def close_noerr_def since_def split: prod.split)
qed

theorem grab_file_reads_witness:
  "\<exists>p h'. grab_file slow_read (\<lambda>n. Some (3, ''some bytes'')) (\<lambda>fd e. (-1, 5)) first_fit None (Some ''f'') 0 empty_heap
      = Some (Some p, Some 10, 0, h') \<and> holds_text h' p ''some bytes''"
  using grab_file_reads [of first_fit empty_heap None "\<lambda>n. Some (3, ''some bytes'')" "Some ''f''" 3 "''some bytes''"
      slow_read "\<lambda>f. f" "\<lambda>fd e. (-1, 5)" 0] first_fit_allocates empty_linked slow_read_delivers
  by (auto simp: GRAB_MAX_def)

end
