(* ===== verification/TallocCalls.thy ===== *)
theory TallocCalls
  imports TallocInv StringProps
begin

unbundle bit_operations_syntax

text \<open>
  A program that uses src/talloc.c, as a step relation: each step is one call of the library that
  returned, or a write to the bytes of a block. Whatever the calls and their arguments were, the
  links between the blocks in use are consistent.
\<close>

section \<open>Calls\<close>

inductive talloc_call :: "tenv \<Rightarrow> theap \<Rightarrow> theap \<Rightarrow> bool" for env where
  call_alloc: "talloc_fn env ctx sz h = Some (r, h') \<Longrightarrow> talloc_call env h h'"
| call_named_const: "talloc_named_const env ctx sz name h = Some (r, h') \<Longrightarrow> talloc_call env h h'"
| call_named: "talloc_named env ctx sz text h = Some (r, h') \<Longrightarrow> talloc_call env h h'"
| call_init: "talloc_init env text h = Some (r, h') \<Longrightarrow> talloc_call env h h'"
| call_zero: "talloc_zero env ctx sz name h = Some (r, h') \<Longrightarrow> talloc_call env h h'"
| call_memdup: "talloc_memdup env ctx mem sz name h = Some (r, h') \<Longrightarrow> talloc_call env h h'"
| call_array: "talloc_array env ctx el n name h = Some (r, h') \<Longrightarrow> talloc_call env h h'"
| call_zero_array: "talloc_zero_array env ctx el n name h = Some (r, h') \<Longrightarrow> talloc_call env h h'"
| call_realloc: "talloc_realloc env ctx ptr sz name h = Some (r, h') \<Longrightarrow> talloc_call env h h'"
| call_realloc_array: "talloc_realloc_array env ctx ptr el n name h = Some (r, h') \<Longrightarrow> talloc_call env h h'"
| call_strdup: "talloc_strdup env ctx s h = Some (r, h') \<Longrightarrow> talloc_call env h h'"
| call_append: "talloc_append_string env ptr s h = Some (r, h') \<Longrightarrow> talloc_call env h h'"
| call_strndup: "talloc_strndup env ctx text n h = Some (r, h') \<Longrightarrow> talloc_call env h h'"
| call_vasprintf: "talloc_vasprintf env ctx s h = Some (r, h') \<Longrightarrow> talloc_call env h h'"
| call_vasprintf_append: "talloc_vasprintf_append env ptr s h = Some (r, h') \<Longrightarrow> talloc_call env h h'"
| call_reference: "talloc_reference env ctx ptr h = Some (r, h') \<Longrightarrow> talloc_call env h h'"
| call_increase_ref_count: "talloc_increase_ref_count env ptr h = Some (n, h') \<Longrightarrow> talloc_call env h h'"
| call_steal: "talloc_steal ctx ptr h = Some (r, h') \<Longrightarrow> talloc_call env h h'"
| call_move: "talloc_move ctx ptr h = Some (q, r, h') \<Longrightarrow> talloc_call env h h'"
| call_free: "talloc_free env ptr h = Some (n, h') \<Longrightarrow> talloc_call env h h'"
| call_unlink: "talloc_unlink env ctx ptr h = Some (n, h') \<Longrightarrow> talloc_call env h h'"
| call_set_name_const: "talloc_set_name_const p name h = Some h' \<Longrightarrow> talloc_call env h h'"
| call_set_name: "talloc_set_name_v env p text h = Some (r, h') \<Longrightarrow> talloc_call env h h'"
| call_set_destructor: "talloc_set_destructor p d h = Some h' \<Longrightarrow> talloc_call env h h'"
| call_total_size: "talloc_total_size ptr h = Some (n, h') \<Longrightarrow> talloc_call env h h'"
| call_total_blocks: "talloc_total_blocks p h = Some (n, h') \<Longrightarrow> talloc_call env h h'"
| call_report: "talloc_report_depth_file env show_ptr ptr depth m f h = Some (f', h') \<Longrightarrow> talloc_call env h h'"
| call_report_null: "talloc_report_null env show_ptr f h = Some (f', h') \<Longrightarrow> talloc_call env h h'"
| call_report_null_full: "talloc_report_null_full env show_ptr f h = Some (f', h') \<Longrightarrow> talloc_call env h h'"
| call_add_external: "talloc_add_external env ctx h = Some (r, h') \<Longrightarrow> talloc_call env h h'"
| call_enable_tracking: "talloc_enable_null_tracking env h = Some h' \<Longrightarrow> talloc_call env h h'"
| call_disable_tracking: "talloc_disable_null_tracking env h = Some h' \<Longrightarrow> talloc_call env h h'"
| call_autofree_context: "talloc_autofree_context env pid h = Some (r, h') \<Longrightarrow> talloc_call env h h'"
| call_autofree: "talloc_autofree env pid h = Some h' \<Longrightarrow> talloc_call env h h'"
| write_block: "store_cells p off cells h = Some h' \<Longrightarrow> talloc_call env h h'"

section \<open>What every call keeps\<close>

text \<open>
  The library does everything to the links with a few operations; the other calls are made of these and of writes
  that leave the links alone. A relation between heaps that these keep is kept by all calls.
\<close>

locale kept_relation =
  fixes env :: tenv and R :: "theap \<Rightarrow> theap \<Rightarrow> bool"
  assumes framed_kept: "framed h h' \<Longrightarrow> R h h'"
    and kept_trans: "R h h1 \<Longrightarrow> R h1 h2 \<Longrightarrow> R h h2"
    and alloc_kept: "talloc_alloc env ctx sz h = Some (r, h') \<Longrightarrow> R h h'"
    and external_kept: "talloc_add_external env ctx h = Some (r, h') \<Longrightarrow> R h h'"
    and free_kept: "talloc_free env p h = Some (n, h') \<Longrightarrow> R h h'"
    and steal_kept: "talloc_steal ctx p h = Some (r, h') \<Longrightarrow> R h h'"
    and realloc_kept: "talloc_realloc env ctx p sz name h = Some (r, h') \<Longrightarrow> R h h'"
begin

lemma neutral_kept: "neutral h h' \<Longrightarrow> R h h'"
  by (rule framed_kept [OF neutral_framed])

lemmas write_kept =
  set_name_neutral [THEN neutral_kept] set_destructor_neutral [THEN neutral_kept] store_bytes_neutral [THEN neutral_kept]
  store_cells_neutral [THEN neutral_kept] store_ptr_neutral [THEN neutral_kept] refs_add_neutral [THEN neutral_kept]
  upd_name_neutral [THEN neutral_kept]

lemmas after = kept_trans [rotated]
lemmas after_write = write_kept [THEN after]

lemma contexts_kept: "R h (h\<lparr>null_context := n\<rparr>)" "R h (h\<lparr>autofree_context := n\<rparr>)" "R h h"
  by (simp_all add: framed_kept framed_def)

lemma named_kept: "talloc_named_const env ctx sz name h = Some (r, h') \<Longrightarrow> R h h'"
  by (auto simp: talloc_named_const_def bind_eq_Some_conv split: option.splits)
    (blast intro: alloc_kept after_write)+

lemma zero_kept: "talloc_zero env ctx sz name h = Some (r, h') \<Longrightarrow> R h h'"
  by (auto simp: talloc_zero_def bind_eq_Some_conv split: option.splits)
    (blast intro: named_kept after_write)+

lemma memdup_kept: "talloc_memdup env ctx mem sz name h = Some (r, h') \<Longrightarrow> R h h'"
  by (auto simp: talloc_memdup_def bind_eq_Some_conv split: option.splits if_splits)
    (blast intro: named_kept after_write)+

lemma array_kept:
  "talloc_array env ctx el n name h = Some (r, h') \<Longrightarrow> R h h'"
  "talloc_zero_array env ctx el n name h = Some (r, h') \<Longrightarrow> R h h'"
  "talloc_realloc_array env ctx p el n name h = Some (r, h') \<Longrightarrow> R h h'"
  by (auto simp: talloc_array_def talloc_zero_array_def talloc_realloc_array_def contexts_kept split: if_splits
      intro: named_kept zero_kept realloc_kept)

lemma strdup_kept: "talloc_strdup env t s h = Some (r, h') \<Longrightarrow> R h h'"
  by (auto simp: talloc_strdup_def bind_eq_Some_conv contexts_kept split: option.splits)
    (blast intro: memdup_kept after_write)+

lemma append_kept: "talloc_append_string env p s h = Some (r, h') \<Longrightarrow> R h h'"
  by (auto simp: talloc_append_string_def bind_eq_Some_conv contexts_kept split: option.splits)
    (blast intro: array_kept after_write)+

lemma strndup_kept:
  assumes "talloc_strndup env t s n h = Some (r, h')"
  shows "R h h'"
proof -
  obtain r1 h1 where h1: "talloc_alloc env t (length (take n s) + 1) h = Some (r1, h1)"
    using assms by (auto simp: talloc_strndup_def Let_def bind_eq_Some_conv)
  show ?thesis
  proof (cases r1)
    case None
    then show ?thesis using assms h1 alloc_kept [OF h1] by (auto simp: talloc_strndup_def Let_def bind_eq_Some_conv)
  next
    case (Some p)
    then obtain h2 h3 where h: "store_bytes p 0 (take n s) h1 = Some h2"
      "store_bytes p (length (take n s)) [NUL] h2 = Some h3" "talloc_set_name_const p (Name_at p) h3 = Some h'"
      using assms h1 by (auto simp: talloc_strndup_def Let_def bind_eq_Some_conv)
    show ?thesis
      by (rule after_write(1) [OF h(3) after_write(3) [OF h(2) after_write(3) [OF h(1) alloc_kept [OF h1]]]])
  qed
qed

lemma vasprintf_kept: "talloc_vasprintf env t s h = Some (r, h') \<Longrightarrow> R h h'"
  by (auto simp: talloc_vasprintf_def bind_eq_Some_conv contexts_kept split: option.splits)
    (blast intro: alloc_kept after_write)+

lemma vasprintf_append_kept:
  assumes a: "talloc_vasprintf_append env p s h = Some (r, h')"
  shows "R h h'"
proof (cases "p = None \<or> s = None \<or> s = Some []")
  case True
  then show ?thesis
    using a vasprintf_kept [of None s h r h'] contexts_kept(3)
    by (auto simp: talloc_vasprintf_append_def bind_eq_Some_conv split: option.splits)
next
  case False
  then obtain x q where q: "p = Some q" "s = Some x" "x \<noteq> []" by (cases p; cases s) auto
  then obtain tc where tc: "talloc_chunk_from_ptr q h = Some tc" "tc_size tc \<noteq> 0"
    using a by (auto simp: talloc_vasprintf_append_def bind_eq_Some_conv split: if_splits)
  obtain r1 h1 where h1: "talloc_realloc_array env None (Some q) 1 (tc_size tc + length x) (Name_const ''char'') h = Some (r1, h1)"
    using a q tc by (auto simp: talloc_vasprintf_append_def bind_eq_Some_conv)
  show ?thesis
  proof (cases r1)
    case None
    then show ?thesis using a q tc h1 array_kept(3) [OF h1] by (auto simp: talloc_vasprintf_append_def bind_eq_Some_conv)
  next
    case (Some y)
    then obtain h2 where h: "store_bytes y (tc_size tc - 1) (x @ [NUL]) h1 = Some h2"
      "talloc_set_name_const y (Name_at y) h2 = Some h'"
      using a q tc h1 by (auto simp: talloc_vasprintf_append_def bind_eq_Some_conv)
    show ?thesis by (rule after_write(1) [OF h(2) after_write(3) [OF h(1) array_kept(3) [OF h1]]])
  qed
qed

lemma set_name_v_kept: "talloc_set_name_v env p s h = Some (r, h') \<Longrightarrow> R h h'"
  by (auto simp: talloc_set_name_v_def bind_eq_Some_conv split: option.splits)
    (blast intro: vasprintf_kept after_write)+

lemma talloc_named_kept: "talloc_named env ctx sz s h = Some (r, h') \<Longrightarrow> R h h'"
  by (auto simp: talloc_named_def bind_eq_Some_conv split: option.splits if_splits)
    (blast intro: set_name_v_kept [THEN after] alloc_kept free_kept [THEN after] alloc_kept [THEN after] set_name_v_kept free_kept)+

lemma tracking_kept:
  "talloc_enable_null_tracking env h = Some h' \<Longrightarrow> R h h'"
  "talloc_disable_null_tracking env h = Some h' \<Longrightarrow> R h h'"
  by (auto simp: talloc_enable_null_tracking_def talloc_disable_null_tracking_def bind_eq_Some_conv contexts_kept
      split: if_splits)
    (blast intro: named_kept [THEN kept_trans] free_kept [THEN kept_trans] contexts_kept)+

lemma init_kept: "talloc_init env s h = Some (r, h') \<Longrightarrow> R h h'"
  by (auto simp: talloc_init_def bind_eq_Some_conv) (blast intro: talloc_named_kept [THEN after] tracking_kept)

lemma reference_kept: "talloc_reference env ctx ptr h = Some (r, h') \<Longrightarrow> R h h'"
  by (auto simp: talloc_reference_def bind_eq_Some_conv contexts_kept split: option.splits)
    (blast intro: named_kept after_write)+

lemma count_kept: "talloc_increase_ref_count env ptr h = Some (n, h') \<Longrightarrow> R h h'"
  by (auto simp: talloc_increase_ref_count_def bind_eq_Some_conv intro: reference_kept)

lemma unreference_kept: "talloc_unreference env ctx p h = Some (n, h') \<Longrightarrow> R h h'"
  by (auto simp: talloc_unreference_def Let_def bind_eq_Some_conv contexts_kept split: option.splits intro: free_kept)

lemma unlink_rest_kept:
  assumes "(case tc_refs tc of
       None \<Rightarrow> talloc_free env (Some p) h
     | Some q \<Rightarrow>
         do { new_parent \<leftarrow> talloc_parent_chunk (Some q) h;
              (r2, h2) \<leftarrow> talloc_unreference env new_parent p h;
              if r2 \<noteq> 0 then Some (-1, h2)
              else do { (_, h3) \<leftarrow> talloc_steal new_parent (Some p) h2; Some (0, h3) } }) = Some (n, h')"
  shows "R h h'"
proof (cases "tc_refs tc")
  case None
  then show ?thesis using assms free_kept by simp
next
  case (Some q)
  then obtain np r2 h2 where u: "talloc_unreference env np p h = Some (r2, h2)"
    "(if r2 \<noteq> 0 then Some (-1, h2) else do { (_, h3) \<leftarrow> talloc_steal np (Some p) h2; Some (0, h3) }) = Some (n, h')"
    using assms by (auto simp: bind_eq_Some_conv)
  show ?thesis
  proof (cases "r2 = 0")
    case True
    then obtain t where "talloc_steal np (Some p) h2 = Some (t, h')" using u(2) by (auto simp: bind_eq_Some_conv)
    then show ?thesis by (rule after [OF steal_kept unreference_kept [OF u(1)]])
  qed (use u unreference_kept in simp)
qed

lemma unlink_kept:
  assumes a: "talloc_unlink env ctx ptr h = Some (n, h')"
  shows "R h h'"
proof (cases ptr)
  case None
  then show ?thesis using a contexts_kept(3) by (simp add: talloc_unlink_def)
next
  case (Some p)
  define cx where "cx = (case ctx of None \<Rightarrow> null_context h | Some q \<Rightarrow> Some q)"
  obtain r1 h1 where h1: "talloc_unreference env cx p h = Some (r1, h1)"
    using a Some by (auto simp: talloc_unlink_def Let_def cx_def bind_eq_Some_conv)
  note k = unreference_kept [OF h1]
  show ?thesis
  proof (cases "r1 = 0")
    case True
    then show ?thesis using a Some h1 k by (simp add: talloc_unlink_def Let_def cx_def)
  next
    case False
    then obtain par where par: "(if par \<noteq> cx then Some (-1, h1)
        else do {
          tc \<leftarrow> talloc_chunk_from_ptr p h1;
          (case tc_refs tc of
             None \<Rightarrow> talloc_free env (Some p) h1
           | Some q \<Rightarrow>
               do { new_parent \<leftarrow> talloc_parent_chunk (Some q) h1;
                    (r2, h2) \<leftarrow> talloc_unreference env new_parent p h1;
                    if r2 \<noteq> 0 then Some (-1, h2)
                    else do { (_, h3) \<leftarrow> talloc_steal new_parent (Some p) h2;
                              Some (0, h3) } }) }) = Some (n, h')"
      using a Some h1 unfolding talloc_unlink_def Let_def cx_def [symmetric]
      by (auto simp: bind_eq_Some_conv)
    show ?thesis
    proof (cases "par = cx")
      case False
      then show ?thesis using par k by simp
    next
      case True
      show ?thesis
      proof (cases "talloc_chunk_from_ptr p h1")
        case None
        then show ?thesis using par True by simp
      next
        case (Some tc)
        have "R h1 h'" by (rule unlink_rest_kept [where tc = tc and p = p]) (use par True Some in simp)
        then show ?thesis by (rule kept_trans [OF k])
      qed
    qed
  qed
qed

lemma move_kept: "talloc_move ctx ptr h = Some (q, r, h') \<Longrightarrow> R h h'"
  by (auto simp: talloc_move_def bind_eq_Some_conv intro: steal_kept)

lemma autofree_kept:
  "talloc_autofree_context env pid h = Some (r, h') \<Longrightarrow> R h h'"
  "talloc_autofree env pid h = Some h' \<Longrightarrow> R h h'"
proof -
  show "R h h'" if a: "talloc_autofree_context env pid h = Some (r, h')"
  proof -
    have "h' = h \<or> (\<exists>r1 h1 p h2 h3. talloc_named_const env None PID_SIZE (Name_const ''pid_t'') h = Some (r1, h1) \<and>
        store_cells p 0 [Num pid] (h1\<lparr>autofree_context := Some p\<rparr>) = Some h2 \<and>
        talloc_set_name_const p (Name_const ''autofree_context'') h2 = Some h3 \<and>
        talloc_set_destructor p Destr_autofree h3 = Some h')"
      using a by (auto simp: talloc_autofree_context_def bind_eq_Some_conv split: if_splits)
    then show ?thesis
    proof (elim disjE exE conjE)
      fix r1 h1 p h2 h3
      assume h: "talloc_named_const env None PID_SIZE (Name_const ''pid_t'') h = Some (r1, h1)"
        "store_cells p 0 [Num pid] (h1\<lparr>autofree_context := Some p\<rparr>) = Some h2"
        "talloc_set_name_const p (Name_const ''autofree_context'') h2 = Some h3"
        "talloc_set_destructor p Destr_autofree h3 = Some h'"
      show ?thesis
        by (rule after_write(2) [OF h(4) after_write(1) [OF h(3) after_write(4) [OF h(2)
            kept_trans [OF named_kept [OF h(1)] contexts_kept(2)]]]])
    qed (simp add: contexts_kept)
  qed
  show "R h h'" if "talloc_autofree env pid h = Some h'"
    using that by (auto simp: talloc_autofree_def bind_eq_Some_conv contexts_kept split: option.splits if_splits intro: free_kept)
qed

lemma walks_kept:
  "talloc_total_size ptr h = Some (n, h') \<Longrightarrow> R h h'"
  "talloc_total_blocks p h = Some (n, h') \<Longrightarrow> R h h'"
  "talloc_report_depth_file env show_ptr ptr d m f h = Some (f', h') \<Longrightarrow> R h h'"
  "talloc_report_null env show_ptr f h = Some (f', h') \<Longrightarrow> R h h'"
  "talloc_report_null_full env show_ptr f h = Some (f', h') \<Longrightarrow> R h h'"
  by (auto intro: framed_kept total_framed report_file_framed report_null_framed)

lemma call_kept: "talloc_call env h h' \<Longrightarrow> R h h'"
  by (erule talloc_call.induct)
    (erule alloc_kept [folded talloc_fn_def] named_kept talloc_named_kept init_kept zero_kept
      memdup_kept array_kept realloc_kept strdup_kept append_kept strndup_kept vasprintf_kept
      vasprintf_append_kept reference_kept count_kept steal_kept move_kept free_kept unlink_kept
      set_name_v_kept external_kept walks_kept tracking_kept autofree_kept write_kept)+

lemma calls_kept: "(talloc_call env)\<^sup>*\<^sup>* h h' \<Longrightarrow> R h h'"
  by (induction rule: rtranclp_induct) (use contexts_kept(3) call_kept kept_trans in blast)+

end

interpretation linked: kept_relation env "\<lambda>h h'. gentle env \<longrightarrow> linked_heap h \<longrightarrow> linked_heap h'"
  by unfold_locales (auto intro: framed_tidy alloc_tidy add_external_tidy free_tidy any_steal_tidy realloc_tidy)

section \<open>Looking for the parent\<close>

text \<open>The walk to the first sibling ends: positions go down along a list, and there are finitely many chunks.\<close>

lemma first_sibling_found:
  assumes t: "linked_heap h"
  shows "chunks h p = Some c \<Longrightarrow> \<exists>r d. first_sibling h p = Some r \<and> chunks h r = Some d"
proof -
  note t = t [unfolded linked_heap_def]
  obtain w f where "in_lists w f (h\<lparr>null_context := None\<rparr>)" using t by (auto simp: tidy_def)
  then have f: "chunks h x = Some d \<Longrightarrow> tc_prev d = Some y \<Longrightarrow> f y < f x" for x y d
    using in_listsD(2) by fastforce
  let ?low = "\<lambda>p. {x. chunks h x \<noteq> None \<and> f x < f p}"
  have fin: "finite (?low p)" for p
    using tidy_finite [OF t] by (rule finite_subset [rotated]) auto
  show "chunks h p = Some c \<Longrightarrow> \<exists>r d. first_sibling h p = Some r \<and> chunks h r = Some d"
  proof (induction "card (?low p)" arbitrary: p c rule: less_induct)
    case less
    show ?case
    proof (cases "tc_prev c")
      case None
      then show ?thesis using less(2) by (subst first_sibling.simps) simp
    next
      case (Some q)
      obtain d where q: "chunks h q = Some d" using tidyD(5) [OF t, of p c q] less(2) Some by auto
      have "?low q \<subset> ?low p" using f [OF less(2) Some] q by auto
      then have "card (?low q) < card (?low p)" by (rule psubset_card_mono [OF fin])
      from less(1) [OF this q] show ?thesis using less(2) Some by (subst first_sibling.simps) simp
    qed
  qed
qed

lemma parent_found:
  assumes t: "linked_heap h" and p: "chunks h p = Some c"
  shows "\<exists>q. talloc_parent (Some p) h = Some q \<and> (\<forall>k. q = Some k \<longrightarrow> chunks h k \<noteq> None)"
proof -
  obtain r d where r: "first_sibling h p = Some r" "chunks h r = Some d"
    using first_sibling_found [OF t p] by blast
  note t = t [unfolded linked_heap_def]
  have "talloc_chunk_from_ptr p h = Some c"
    using tidy_flags [OF t, of p c] p by (simp add: talloc_chunk_from_ptr_def)
  moreover have "\<forall>k. tc_parent d = Some k \<longrightarrow> chunks h k \<noteq> None" using tidyD(6) [OF t, of r d] r(2) by fastforce
  ultimately show ?thesis using r by (simp add: talloc_parent_def talloc_parent_chunk_def)
qed

section \<open>The property\<close>

lemma empty_tidy: "linked_heap empty_heap"
proof -
  have "in_lists (\<lambda>x. None) (\<lambda>x. 0) empty_heap" by (simp add: in_lists_def empty_heap_def)
  then show ?thesis
    using well_linkedD(1) [OF empty_linked] unfolding linked_heap_def tidy_def by (auto simp: empty_heap_def)
qed


text \<open>An allocator with an arena of a few addresses, that never moves a block.\<close>

definition arena :: tenv where
  "arena = \<lparr>tc_lock = None, t_malloc = (\<lambda>n h. find (\<lambda>p. chunks h p = None) [1, 2, 3, 4, 5]), t_realloc = (\<lambda>p n h. Some p),
            t_external = (\<lambda>c p n h. None), t_destructor = (\<lambda>n p h. (0, h))\<rparr>"

lemma arena_gentle: "gentle arena"
  by (auto simp: gentle_def arena_def split: if_splits)

definition arena_run :: "theap option" where
  "arena_run =
     do { (_, h1) \<leftarrow> talloc_named_const arena None 8 (Name_const ''a'') empty_heap;
          (_, h2) \<leftarrow> talloc_named_const arena (Some 1) 4 (Name_const ''b'') h1;
          (_, h3) \<leftarrow> talloc_named_const arena (Some 1) 4 (Name_const ''c'') h2;
          (_, h4) \<leftarrow> talloc_steal (Some 2) (Some 3) h3;
          (_, h5) \<leftarrow> talloc_reference arena (Some 1) (Some 3) h4;
          Some h5 }"

lemma arena_reached: "arena_run = Some h \<Longrightarrow> (talloc_call arena)\<^sup>*\<^sup>* empty_heap h"
proof -
  assume "arena_run = Some h"
  then obtain r1 h1 r2 h2 r3 h3 r4 h4 r5 where
    c: "talloc_named_const arena None 8 (Name_const ''a'') empty_heap = Some (r1, h1)"
    "talloc_named_const arena (Some 1) 4 (Name_const ''b'') h1 = Some (r2, h2)"
    "talloc_named_const arena (Some 1) 4 (Name_const ''c'') h2 = Some (r3, h3)"
    "talloc_steal (Some 2) (Some 3) h3 = Some (r4, h4)"
    "talloc_reference arena (Some 1) (Some 3) h4 = Some (r5, h)"
    by (auto simp: arena_run_def bind_eq_Some_conv)
  note s = c(1-3) [THEN call_named_const] c(4) [THEN call_steal, where env = arena] c(5) [THEN call_reference]
  show ?thesis using s by (meson rtranclp.rtrancl_refl rtranclp.rtrancl_into_rtrancl)
qed


end
