(* ===== verification/TallocLocks.thy ===== *)
theory TallocLocks
  imports TallocCalls
begin

unbundle bit_operations_syntax

text \<open>
  What the lock of \<open>talloc_locksafe\<close> in src/talloc.c does to the blocks of a program's own allocator. The library
  asks for the parent of such a block with the lock held, through the function that takes the lock, so a
  call that would free or move one does not return when the lock waits for its holder.
\<close>

section \<open>External blocks\<close>

definition outside :: "theap \<Rightarrow> ptr set" where
  "outside h = {p. map_option (has_flag TALLOC_FLAG_EXT_ALLOC) (chunks h p) = Some True}"

lemma outside_iff: "chunks h p = Some c \<Longrightarrow> p \<in> outside h \<longleftrightarrow> has_flag TALLOC_FLAG_EXT_ALLOC c"
  by (simp add: outside_def)

lemma outside_contexts [simp]: "outside (h\<lparr>null_context := n\<rparr>) = outside h" "outside (h\<lparr>autofree_context := n\<rparr>) = outside h"
  by (simp_all add: outside_def)

lemma framed_outside: "framed h h' \<Longrightarrow> outside h' = outside h"
proof -
  assume f: "framed h h'"
  have "map_option (has_flag TALLOC_FLAG_EXT_ALLOC) (chunks h' x) = map_option (has_flag TALLOC_FLAG_EXT_ALLOC) (chunks h x)" for x
  proof (cases "chunks h' x")
    case None
    then show ?thesis using framedD(1) [OF f, of x] by simp
  next
    case (Some d)
    then obtain c where "chunks h x = Some c" "frame d = frame c" using framedD(2) [OF f Some] by blast
    then show ?thesis using Some frameD(8) [of d c] by simp
  qed
  then show "outside h' = outside h" by (simp add: outside_def)
qed

lemmas neutral_outside = framed_outside [OF neutral_framed]

lemma upd_outside:
  assumes "upd p f h = Some h'" "\<And>c. tc_flags (f c) = tc_flags c"
  shows "outside h' = outside h"
  using assms by (auto simp: outside_def upd_def bind_eq_Some_conv has_flag_def split: if_splits)

lemma upd_opt_outside:
  assumes "upd_opt q f h = Some h'" "\<And>c. tc_flags (f c) = tc_flags c"
  shows "outside h' = outside h"
  using assms by (cases q) (simp_all add: upd_opt_def upd_outside)

lemma link_outside:
  "upd p (tc_child_update a) h = Some h' \<Longrightarrow> outside h' = outside h"
  "upd p (tc_prev_update a) h = Some h' \<Longrightarrow> outside h' = outside h"
  "upd p (tc_parent_update a) h = Some h' \<Longrightarrow> outside h' = outside h"
  "upd p (\<lambda>c. c\<lparr>tc_next := x, tc_prev := y\<rparr>) h = Some h' \<Longrightarrow> outside h' = outside h"
  "upd p (\<lambda>c. c\<lparr>tc_parent := z, tc_next := x, tc_prev := y\<rparr>) h = Some h' \<Longrightarrow> outside h' = outside h"
  "upd_opt q (tc_next_update a) h = Some h' \<Longrightarrow> outside h' = outside h"
  "upd_opt q (tc_prev_update a) h = Some h' \<Longrightarrow> outside h' = outside h"
  "upd_opt q (tc_parent_update a) h = Some h' \<Longrightarrow> outside h' = outside h"
  "upd_opt q (\<lambda>c. c\<lparr>tc_parent := x, tc_prev := y\<rparr>) h = Some h' \<Longrightarrow> outside h' = outside h"
  by (erule upd_outside upd_opt_outside, simp)+

lemma child_add_outside: "child_add par p h = Some h' \<Longrightarrow> outside h' = outside h"
  by (auto simp: child_add_def bind_eq_Some_conv split: option.splits dest!: link_outside)

lemma child_remove_outside:
  assumes "child_remove par p h = Some h'"
  shows "outside h' = outside h"
proof -
  obtain c pc h1 pc1 where c: "chunks h p = Some c" "chunks h par = Some pc" "chunks h1 par = Some pc1"
    and h: "(if tc_child pc = Some p
        then do { h1 \<leftarrow> upd par (tc_child_update (\<lambda>_. tc_next c)) h; upd_opt (tc_next c) (tc_prev_update (\<lambda>_. None)) h1 }
        else do { h1 \<leftarrow> upd_opt (tc_prev c) (tc_next_update (\<lambda>_. tc_next c)) h;
                  upd_opt (tc_next c) (tc_prev_update (\<lambda>_. tc_prev c)) h1 }) = Some h1"
    "(if tc_child pc1 = Some p then Some h1
      else upd p (\<lambda>c. c\<lparr>tc_next := None, tc_prev := None\<rparr>) h1) = Some h'"
    using assms by (auto simp: child_remove_def bind_eq_Some_conv)
  have "outside h1 = outside h"
    using h(1) by (cases "tc_child pc = Some p") (auto simp: bind_eq_Some_conv dest!: link_outside)
  moreover have "outside h' = outside h1"
    using h(2) by (cases "tc_child pc1 = Some p") (auto dest!: link_outside)
  ultimately show ?thesis by simp
qed

lemma detach_outside: "detach p h = Some h' \<Longrightarrow> outside h' = outside h"
  by (auto simp: detach_def bind_eq_Some_conv split: option.splits dest!: link_outside child_remove_outside)

lemma steal_outside: "talloc_steal ctx ptr h = Some (r, h') \<Longrightarrow> outside h' = outside h"
  by (auto simp: talloc_steal_def Let_def bind_eq_Some_conv split: option.splits if_splits
      dest!: detach_outside link_outside child_add_outside)

section \<open>Freeing\<close>

text \<open>A job of freeing that returns has not freed an external block.\<close>

lemma free_run_outside:
  assumes "free_run env job h = Some y" "gentle env" "tc_lock env = Some Waits"
  shows "outside (snd y) = outside h"
  using assms(1)
proof (induction rule: free_run_rule)
  case (refs p h c q b r h1 y)
  then show ?case by (cases b) auto
next
  case (refused p h c r h1)
  then show ?case using neutral_outside [OF destroy_neutral [OF assms(2) refused(2)]] by simp
next
  case (freed p h c r h1 c1 h2 h3 n h4 h5)
  have o1: "outside h1 = outside h" by (rule neutral_outside [OF destroy_neutral [OF assms(2) freed(3)]])
  then have o4: "outside h4 = outside h"
    using freed.IH framed_outside [OF framed_mark(1) [OF freed(7)]] detach_outside [OF freed(6)] by simp
  have "p \<notin> outside h4" using freed(5) assms(3) outside_iff [OF freed(4)] o1 o4 by simp
  moreover have "h5 = h4\<lparr>chunks := (chunks h4)(p := None)\<rparr>"
    using freed(8) by (auto simp: release_def bind_eq_Some_conv)
  ultimately have "outside h5 = outside h4" by (auto simp: outside_def split: if_splits)
  then show ?case using o4 by simp
next
  case (child p h c k r h1 h2 y)
  have "outside h2 = outside h1"
    using child(3) by (auto simp: adopt_def bind_eq_Some_conv dest: steal_outside)
  then show ?case using child.IH by simp
qed simp_all

lemma free_outside:
  assumes "gentle env" "tc_lock env = Some Waits" "talloc_free env p h = Some (n, h')"
  shows "outside h' = outside h"
proof (cases p)
  case None
  then show ?thesis using assms(3) by (simp add: talloc_free_def)
next
  case (Some q)
  then have "free_run env (Free q) h = Some (n, h')" using assms(3) by (simp add: talloc_free_def)
  from free_run_outside [OF this assms(1,2)] show ?thesis by simp
qed

section \<open>Allocating and resizing\<close>

lemma init_outside:
  assumes p: "\<And>q. p = Some q \<Longrightarrow> chunks h q = None" and i: "init_talloc parent p sz e h = Some (r, h')"
  shows "outside h \<subseteq> outside h'"
proof (cases p)
  case None
  then show ?thesis using i by (simp add: init_talloc_def)
next
  case (Some q)
  obtain h2 c where h: "outside h2 = outside h" "h' = h2\<lparr>chunks := (chunks h2)(q \<mapsto> c)\<rparr>"
    using i Some by (auto simp: init_talloc_def bind_eq_Some_conv split: option.splits dest!: link_outside)
  have "q \<notin> outside h" using p Some by (simp add: outside_def)
  then show ?thesis using h by (auto simp: outside_def)
qed

lemma alloc_outside:
  assumes g: "gentle env" and a: "talloc_alloc env ctx sz h = Some (r, h')"
  shows "outside h \<subseteq> outside h'"
proof (cases "sz \<ge> MAX_TALLOC_SIZE")
  case True
  then show ?thesis using a by (simp add: talloc_alloc_def)
next
  case False
  then obtain q e where q: "init_talloc q (if e then t_external env q None sz h else t_malloc env sz h) sz e h = Some (r, h')"
    using a by (auto simp: talloc_alloc_def Let_def bind_eq_Some_conv)
  show ?thesis
    by (rule init_outside [OF _ q]) (use gentleD(1,3) [OF g] in \<open>cases e; fastforce\<close>)
qed

lemma external_outside:
  assumes g: "gentle env" and a: "talloc_add_external env ctx h = Some (r, h')"
  shows "outside h \<subseteq> outside h'"
proof -
  obtain c where c: "init_talloc ctx (t_external env c None 0 h) 0 True h = Some (r, h')"
    using a by (auto simp: talloc_add_external_def bind_eq_Some_conv)
  show ?thesis by (rule init_outside [OF _ c]) (use gentleD(3) [OF g] in fastforce)
qed

lemma named_outside:
  assumes g: "gentle env" and a: "talloc_named_const env ctx sz name h = Some (r, h')"
  shows "outside h \<subseteq> outside h'"
proof -
  obtain r1 h1 where h1: "talloc_alloc env ctx sz h = Some (r1, h1)"
    "h' = h1 \<or> (\<exists>p. talloc_set_name_const p name h1 = Some h')"
    using a by (auto simp: talloc_named_const_def bind_eq_Some_conv split: option.splits)
  then show ?thesis
    using alloc_outside [OF g h1(1)] neutral_outside [OF set_name_neutral] by auto
qed

lemma realloc_outside:
  assumes g: "gentle env" and l: "tc_lock env = Some Waits" and t: "linked_heap h"
    and a: "talloc_realloc env ctx ptr sz name h = Some (r, h')"
  shows "outside h \<subseteq> outside h'"
proof (rule realloc_result [OF t g a])
  fix p q and c :: chunk
  assume h: "chunks h p = Some c" "q = p \<or> chunks h q = None"
    "has_flag TALLOC_FLAG_EXT_ALLOC c \<longrightarrow> tc_lock env \<noteq> Some Waits"
    "h' = moved p q c (c\<lparr>tc_data := resize_cells sz (tc_data c), tc_size := sz, tc_name := name\<rparr>) h"
  have "p \<notin> outside h" "q \<notin> outside h" using h(1-3) l by (auto simp: outside_def)
  moreover have "has_flag TALLOC_FLAG_EXT_ALLOC (repoint q c x d) = has_flag TALLOC_FLAG_EXT_ALLOC d" for x d
    by (simp add: repoint_def has_flag_def)
  ultimately show ?thesis
    by (auto simp: outside_def h(4) moved_def option.map_comp o_def)
qed (use free_outside [OF g l] named_outside [OF g] in auto)

section \<open>The property\<close>

interpretation blocked: kept_relation env
  "\<lambda>h h'. gentle env \<longrightarrow> tc_lock env = Some Waits \<longrightarrow> linked_heap h \<longrightarrow> linked_heap h' \<and> outside h \<subseteq> outside h'"
  by unfold_locales
    (auto dest: linked.framed_kept linked.alloc_kept linked.external_kept linked.free_kept linked.steal_kept linked.realloc_kept
      framed_outside alloc_outside external_outside free_outside steal_outside realloc_outside)

text \<open>
  C10. Once a program has set a lock that waits for whoever holds it, a block of the program's own allocator
  stays for ever: no sequence of calls of the library that all return frees it or moves it, so that a call
  that would, such as freeing it, does not return. Neither does any request for an array of zeros that is not too big.
\<close>

theorem external_blocks_stay:
  assumes "gentle env" "tc_lock env = Some Waits" "(talloc_call env)\<^sup>*\<^sup>* empty_heap h" "(talloc_call env)\<^sup>*\<^sup>* h h'"
    "chunks h p = Some c" "has_flag TALLOC_FLAG_EXT_ALLOC c" "0 < el" "n < MAX_TALLOC_SIZE div el"
  shows "(\<exists>d. chunks h' p = Some d \<and> has_flag TALLOC_FLAG_EXT_ALLOC d) \<and> talloc_zero_array env ctx el n name h' = None"
proof -
  have "linked_heap h" using linked.calls_kept [OF assms(3)] assms(1) empty_tidy by blast
  then have "outside h \<subseteq> outside h'" using blocked.calls_kept [OF assms(4)] assms(1,2) by blast
  then have "p \<in> outside h'" using outside_iff [OF assms(5)] assms(6) by blast
  then have "\<exists>d. chunks h' p = Some d \<and> has_flag TALLOC_FLAG_EXT_ALLOC d" by (simp add: outside_def)
  then show ?thesis using assms(2,7,8) by (simp add: talloc_zero_array_def relock_def)
qed

text \<open>A program with its own allocator and a lock: a block of that allocator with a block below it, and an ordinary block after them.\<close>

definition guarded :: tenv where
  "guarded = talloc_locksafe (Some Waits)
     (arena\<lparr>t_external := (\<lambda>c p n h. find (\<lambda>p. chunks h p = None) [6, 7])\<rparr>)"

lemma guarded_gentle: "gentle guarded"
  by (auto simp: gentle_def guarded_def talloc_locksafe_def arena_def split: if_splits)

definition guarded_run :: "(theap \<times> theap) option" where
  "guarded_run =
     do { (_, h1) \<leftarrow> talloc_add_external guarded None empty_heap;
          (_, h2) \<leftarrow> talloc_named_const guarded (Some 6) 4 (Name_const ''a'') h1;
          (_, h3) \<leftarrow> talloc_named_const guarded None 8 (Name_const ''b'') h2;
          Some (h2, h3) }"

lemma guarded_reached:
  assumes "guarded_run = Some (h, h')"
  shows "(talloc_call guarded)\<^sup>*\<^sup>* empty_heap h" "(talloc_call guarded)\<^sup>*\<^sup>* h h'"
proof -
  obtain r1 h1 r2 r3 where c: "talloc_add_external guarded None empty_heap = Some (r1, h1)"
    "talloc_named_const guarded (Some 6) 4 (Name_const ''a'') h1 = Some (r2, h)"
    "talloc_named_const guarded None 8 (Name_const ''b'') h = Some (r3, h')"
    using assms by (auto simp: guarded_run_def bind_eq_Some_conv)
  note s = c(1) [THEN call_add_external] c(2,3) [THEN call_named_const]
  show "(talloc_call guarded)\<^sup>*\<^sup>* empty_heap h" using s(1,2) by (meson rtranclp.rtrancl_refl rtranclp.rtrancl_into_rtrancl)
  show "(talloc_call guarded)\<^sup>*\<^sup>* h h'" using s(3) by blast
qed

theorem external_blocks_stay_witness:
  "\<exists>h h' d. guarded_run = Some (h, h') \<and> chunks h' 7 = Some d \<and> has_flag TALLOC_FLAG_EXT_ALLOC d \<and>
     talloc_zero_array guarded None 4 10 Name_null h' = None"
proof -
  have "map_option (\<lambda>(h, h'). map_option (has_flag TALLOC_FLAG_EXT_ALLOC) (chunks h 7)) guarded_run = Some (Some True)"
    by (simp add: guarded_run_def talloc_add_external_def talloc_named_const_def talloc_alloc_def talloc_set_name_const_def
        guarded_def talloc_locksafe_def arena_def empty_heap_def MAX_TALLOC_SIZE_def init_talloc_def upd_def upd_opt_def
        talloc_chunk_from_ptr_def new_chunk_def has_flag_def TALLOC_MAGIC_def TALLOC_FLAG_FREE_def TALLOC_FLAG_EXT_ALLOC_def)
  then obtain h h' c where h: "guarded_run = Some (h, h')" "chunks h 7 = Some c" "has_flag TALLOC_FLAG_EXT_ALLOC c"
    by auto
  have "tc_lock guarded = Some Waits" by (simp add: guarded_def talloc_locksafe_def)
  moreover have "(0 :: nat) < 4" "10 < MAX_TALLOC_SIZE div 4" by (simp_all add: MAX_TALLOC_SIZE_def)
  ultimately have "(\<exists>d. chunks h' 7 = Some d \<and> has_flag TALLOC_FLAG_EXT_ALLOC d) \<and> talloc_zero_array guarded None 4 10 Name_null h' = None"
    by (rule external_blocks_stay [OF guarded_gentle _ guarded_reached [OF h(1)] h(2,3)])
  with h(1) show ?thesis by blast
qed

end
