(* ===== verification/TallocReport.thy ===== *)
theory TallocReport
  imports TallocTree
begin

unbundle bit_operations_syntax

text \<open>
  The report of a hierarchy in src/talloc.c. While the walk prints the children of a block, the block
  and the blocks above it are marked; \<open>marked S h\<close> is the heap with marks on the blocks \<open>S\<close>. The
  specification \<open>listing\<close> of what is printed is a function of the tree.
\<close>

section \<open>The text\<close>

definition amount_text :: "theap \<Rightarrow> ptr list \<Rightarrow> string" where
  "amount_text h ps =
     pad_str 6 (show_nat (unat (sum_over (\<lambda>c. of_nat (tc_size c)) h ps))) @ '' bytes in '' @
     pad_str 3 (show_nat (unat (word_of_nat (length ps) :: u64))) @ '' blocks''"

definition block_line :: "(ptr \<Rightarrow> string) \<Rightarrow> (ptr \<Rightarrow> string) \<Rightarrow> theap \<Rightarrow> int \<Rightarrow> ptr list \<Rightarrow> string" where
  "block_line show_ptr name h depth ps =
     pad_str (depth * 4) '''' @ pad_str (- 30) (name (hd ps)) @ '' contains '' @ amount_text h ps @
     '' (ref 0) '' @ show_ptr (hd ps) @ [newline]"

fun listing :: "(ptr \<Rightarrow> string) \<Rightarrow> (ptr \<Rightarrow> string) \<Rightarrow> theap \<Rightarrow> int \<Rightarrow> hier list \<Rightarrow> string" where
  "listing show_ptr name h depth [] = []"
| "listing show_ptr name h depth (Hier p us # ts) =
     block_line show_ptr name h depth (p # blocks us) @ listing show_ptr name h (depth + 1) us @
     listing show_ptr name h depth ts"

text \<open>\<open>name\<close> gives the names of some blocks, none of which is a handle of a reference.\<close>

definition names :: "(ptr \<Rightarrow> string) \<Rightarrow> theap \<Rightarrow> ptr set \<Rightarrow> bool" where
  "names name h B \<longleftrightarrow> (\<forall>p \<in> B. talloc_get_name p h = Some (name p) \<and>
     (\<forall>c. chunks h p = Some c \<longrightarrow> tc_name c \<noteq> Name_ref))"

section \<open>Marked blocks\<close>

definition marked :: "ptr set \<Rightarrow> theap \<Rightarrow> theap" where
  "marked S h = h\<lparr>chunks := (\<lambda>x. if x \<in> S then map_option (set_flag TALLOC_FLAG_LOOP) (chunks h x) else chunks h x)\<rparr>"

lemma marked_chunks: "chunks (marked S h) x = (if x \<in> S then map_option (set_flag TALLOC_FLAG_LOOP) (chunks h x) else chunks h x)"
  "null_context (marked S h) = null_context h"
  by (simp_all add: marked_def)

lemma marked_empty: "marked {} h = h"
  by (rule theap_eqI) (simp_all add: marked_def)

lemma marked_name:
  assumes "chunks h p = Some c" "p \<notin> S" "plain c"
  shows "talloc_get_name p (marked S h) = talloc_get_name p h"
proof -
  have "load_string q (marked S h) = load_string q h" for q
    by (cases "chunks h q") (simp_all add: load_string_def marked_chunks set_flag_def)
  moreover have "talloc_chunk_from_ptr p (marked S h) = talloc_chunk_from_ptr p h"
    using assms(2) by (simp add: talloc_chunk_from_ptr_def marked_chunks)
  ultimately show ?thesis
    unfolding talloc_get_name_def
    by (simp add: name_text_def talloc_chunk_from_ptr_plain [OF assms(1,3)] cong: tname.case_cong)
qed

lemma marked_mark:
  assumes "chunks h p = Some c" "p \<notin> S" "plain c"
  shows "upd p (set_flag TALLOC_FLAG_LOOP) (marked S h) = Some (marked (insert p S) h)"
    "upd p (clear_flag TALLOC_FLAG_LOOP) (marked (insert p S) h) = Some (marked S h)"
  using assms by (auto simp: upd_def marked_chunks loop_flag(2) intro!: theap_eqI) (simp_all add: marked_def)

lemma total_one:
  assumes "chunks h p = Some c" "plain c" "kids h p None us (tc_child c)" "distinct (p # blocks us)"
  shows "total_run f (Block p) h = Some (sum_over f h (p # blocks us), h)"
proof -
  have "total_run f (Block p) h = Some (f c + sum_over f h (blocks us), h)"
  proof (rule total_block [OF assms(1,2)])
    fix h1 assume h1: "h1 = h\<lparr>chunks := (chunks h)(p \<mapsto> set_flag TALLOC_FLAG_LOOP c)\<rparr>"
    have same: "chunks h1 x = chunks h x" if "x \<in> set (blocks us)" for x
      using that assms(4) by (auto simp: h1)
    from total_siblings [OF kids_frame [OF same assms(3)]] assms(4) sum_over_frame [OF same]
    show "total_run f (Siblings (tc_child c)) h1 = Some (sum_over f h (blocks us), h1)" by simp
  qed
  then show ?thesis using assms(1) by (simp add: sum_over_def)
qed

lemma sum_over_one: "(\<And>x. x \<in> set ps \<Longrightarrow> chunks h x \<noteq> None) \<Longrightarrow> sum_over (\<lambda>c. 1) h ps = word_of_nat (length ps)"
proof (induction ps)
  case (Cons p ps)
  then obtain c where "chunks h p = Some c" by force
  with Cons show ?case by (simp add: sum_over_def)
qed (simp add: sum_over_def)

section \<open>The walk\<close>

text \<open>The totals of a block whose subtree is not marked, and its line.\<close>

lemma helper_text:
  assumes "chunks h p = Some c" "plain c" "kids h p None us (tc_child c)" "distinct (p # blocks us)"
    and S: "S \<inter> set (p # blocks us) = {}" and n: "talloc_get_name p h = Some (name p)"
    and l: "tc_lock env \<noteq> Some Waits"
  shows "talloc_report_depth_FILE_helper env show_ptr (Some p) depth m False f (marked S h) =
    Some (f @ (if depth = 0
      then (if m < 0 then ''full '' else '''') @ ''talloc report on '' @ [CHR 0x27] @ name p @ [CHR 0x27] @
           '' (total '' @ amount_text h (p # blocks us) @ '')'' @ [newline]
      else block_line show_ptr name h depth (p # blocks us)), marked S h)"
proof -
  have same: "chunks (marked S h) x = chunks h x" if "x \<in> set (p # blocks us)" for x
    using that S by (auto simp: marked_chunks)
  have c: "chunks (marked S h) p = Some c" using same [of p] assms(1) by simp
  have k: "kids (marked S h) p None us (tc_child c)"
    by (rule kids_frame [OF _ assms(3)]) (use same in simp)
  note t = total_one [OF c assms(2) k assms(4)]
  have s: "sum_over g (marked S h) (p # blocks us) = sum_over g h (p # blocks us)" for g
    by (rule sum_over_frame [OF same])
  have "sum_over (\<lambda>c. 1) h (p # blocks us) = word_of_nat (length (p # blocks us))"
    by (rule sum_over_one) (use assms(1) kids_allocated [OF assms(3)] in auto)
  moreover have "talloc_reference_count p (marked S h) = Some 0"
    using assms(2) by (simp add: talloc_reference_count_def talloc_chunk_from_ptr_plain [OF c assms(2)] plain_def
        ref_count_loop.simps)
  moreover have "talloc_get_name p (marked S h) = Some (name p)"
    using marked_name [OF assms(1) _ assms(2)] S n by simp
  moreover have "show_nat 0 = ''0''" by code_simp
  ultimately show ?thesis
    using t s l by (simp add: talloc_report_depth_FILE_helper_def talloc_total_size_def talloc_total_size_run_def
        talloc_total_blocks_def amount_text_def block_line_def Let_def)
qed

lemma report_siblings:
  "tc_lock env \<noteq> Some Waits \<Longrightarrow> kids h par prev ts q \<Longrightarrow> distinct (blocks ts) \<Longrightarrow> S \<inter> set (blocks ts) = {} \<Longrightarrow>
   names name h (set (blocks ts)) \<Longrightarrow> 0 < depth \<Longrightarrow> m < 0 \<Longrightarrow>
   report_run (talloc_report_depth_FILE_helper env show_ptr) m (Reports q depth) f (marked S h) =
     Some (f @ listing show_ptr name h depth ts, marked S h)"
proof (induction ts arbitrary: par prev q S depth f rule: blocks.induct)
  case (1 par prev q S depth f)
  then show ?case by (subst report_run.simps) simp
next
  case (2 k us ts par prev q S depth f)
  let ?cb = "talloc_report_depth_FILE_helper env show_ptr"
  from "2.prems"(2) obtain c where c: "q = Some k" "chunks h k = Some c" "plain c"
      "kids h k None us (tc_child c)" "kids h par (Some k) ts (tc_next c)"
    unfolding kids_Cons by blast
  have k: "k \<notin> S" "k \<notin> set (blocks us)" "distinct (blocks us)" "distinct (blocks ts)"
    "S \<inter> set (k # blocks us) = {}" "insert k S \<inter> set (blocks us) = {}" "S \<inter> set (blocks ts) = {}"
    "distinct (k # blocks us)"
    using "2.prems"(3,4) by auto
  have n: "talloc_get_name k h = Some (name k)" "tc_name c \<noteq> Name_ref" "names name h (set (blocks us))"
    "names name h (set (blocks ts))"
    using "2.prems"(5) c(2) by (auto simp: names_def)
  have mc: "chunks (marked S h) k = Some c" using c(2) k(1) by (simp add: marked_chunks)
  have mk: "chunks (marked (insert k S) h) k = Some (set_flag TALLOC_FLAG_LOOP c)"
    using c(2) by (simp add: marked_chunks)
  let ?f1 = "f @ block_line show_ptr name h depth (k # blocks us)"
  have line: "?cb (Some k) depth m False f (marked S h) = Some (?f1, marked S h)"
    using helper_text [where name = name, OF c(2-4) k(8,5) n(1) "2.prems"(1)] "2.prems"(6) by simp
  have "report_run ?cb m (Reports (tc_child c) (depth + 1)) ?f1 (marked (insert k S) h) =
      Some (?f1 @ listing show_ptr name h (depth + 1) us, marked (insert k S) h)"
    using "2.IH"(1) [OF "2.prems"(1) c(4) k(3,6) n(3) _ "2.prems"(7)] "2.prems"(6) by simp
  then have "report_run ?cb m (Report k depth) f (marked S h) =
      Some (?f1 @ listing show_ptr name h (depth + 1) us, marked S h)"
    using plain_flags(2) [OF c(3)] "2.prems"(7) line marked_mark [OF c(2) k(1) c(3)] mk
    by (subst report_run.simps) (simp add: talloc_chunk_from_ptr_plain [OF mc c(3)] set_flag_def)
  moreover have "report_run ?cb m (Reports (tc_next c) depth) (?f1 @ listing show_ptr name h (depth + 1) us) (marked S h) =
      Some ((?f1 @ listing show_ptr name h (depth + 1) us) @ listing show_ptr name h depth ts, marked S h)"
    by (rule "2.IH"(2) [OF "2.prems"(1) c(5) k(4,7) n(4) "2.prems"(6,7)])
  ultimately show ?case using c(1) mc n(2) by (subst report_run.simps) simp
qed

section \<open>The property\<close>

text \<open>
  C37. The full report of a hierarchy ends and prints one line for each block, each block after its
  parent and before its younger siblings, indented by its depth, with its name and with the total size and the number of
  blocks of its own subtree; the marks of the walk are taken back, so that the heap is the one before. The program has not set a lock that waits.
\<close>

theorem report_lists_hierarchy:
  assumes "hierarchy h (Hier r ts)" "names name h (set (r # blocks ts))" "tc_lock env \<noteq> Some Waits"
  shows "talloc_report_full env show_ptr (Some r) f h =
    Some (f @ ''full talloc report on '' @ [CHR 0x27] @ name r @ [CHR 0x27] @ '' (total '' @
      amount_text h (r # blocks ts) @ '')'' @ [newline] @ listing show_ptr name h 1 ts, h)"
proof -
  let ?cb = "talloc_report_depth_FILE_helper env show_ptr"
  from assms(1) obtain c where c: "distinct (r # blocks ts)" "chunks h r = Some c" "plain c"
      "kids h r None ts (tc_child c)" unfolding hierarchy_iff by blast
  have n: "talloc_get_name r h = Some (name r)" "names name h (set (blocks ts))"
    using assms(2) by (auto simp: names_def)
  define f1 where "f1 = f @ ''full talloc report on '' @ [CHR 0x27] @ name r @ [CHR 0x27] @ '' (total '' @
      amount_text h (r # blocks ts) @ '')'' @ [newline]"
  have line: "?cb (Some r) 0 (- 1) False f h = Some (f1, h)"
    using helper_text [OF c(2-4,1), of "{}" name env show_ptr 0 "- 1" f] n(1) assms(3) by (simp add: marked_empty f1_def)
  have m: "upd r (set_flag TALLOC_FLAG_LOOP) h = Some (marked {r} h)"
    "upd r (clear_flag TALLOC_FLAG_LOOP) (marked {r} h) = Some h"
    using marked_mark [OF c(2) _ c(3), of "{}"] by (simp_all add: marked_empty)
  have "report_run ?cb (- 1) (Reports (tc_child c) 1) f1 (marked {r} h) =
      Some (f1 @ listing show_ptr name h 1 ts, marked {r} h)"
    by (rule report_siblings [OF assms(3) c(4) _ _ n(2)]) (use c(1) in auto)
  moreover have "chunks (marked {r} h) r = Some (set_flag TALLOC_FLAG_LOOP c)" using c(2) by (simp add: marked_chunks)
  ultimately have "report_run ?cb (- 1) (Report r 0) f h = Some (f1 @ listing show_ptr name h 1 ts, h)"
    using plain_flags(2) [OF c(3)] line m
    by (subst report_run.simps) (simp add: talloc_chunk_from_ptr_plain [OF c(2,3)] set_flag_def)
  then show ?thesis
    by (simp add: talloc_report_full_def talloc_report_depth_file_def talloc_report_depth_cb_def f1_def)
qed

text \<open>The report of the small heap; its blocks have no names.\<close>

theorem report_lists_hierarchy_witness:
  "\<exists>l. talloc_report_full demo_tenv (\<lambda>p. ''0x'' @ show_nat p) (Some 1) [] demo_heap = Some (l, demo_heap) \<and>
     length (filter (\<lambda>c. c = newline) l) = 4"
proof -
  have "names (\<lambda>_. ''UNNAMED'') demo_heap (set (1 # blocks [Hier 3 [Hier 4 []], Hier 2 []]))"
    by (simp add: names_def talloc_get_name_def demo_heap_def demo_chunk_def new_chunk_def talloc_chunk_from_ptr_def
        TALLOC_MAGIC_def TALLOC_FLAG_FREE_def)
  note r = report_lists_hierarchy [OF demo_hierarchy [unfolded demo_hier_def] this, of demo_tenv]
  have "tc_lock demo_tenv \<noteq> Some Waits" by (simp add: demo_tenv_def)
  note r = r [OF this]
  have s: "sum_over (\<lambda>c. of_nat (tc_size c)) demo_heap [Suc 0, 3, 4, 2] = 21"
    "sum_over (\<lambda>c. of_nat (tc_size c)) demo_heap [3, 4] = 16" "sum_over (\<lambda>c. of_nat (tc_size c)) demo_heap [4] = 9"
    "sum_over (\<lambda>c. of_nat (tc_size c)) demo_heap [2] = 5"
    by (simp_all add: sum_over_def demo_heap_def demo_chunk_def new_chunk_def)
  have "show_nat 21 = ''21''" "show_nat 16 = ''16''" "show_nat 9 = ''9''" "show_nat 5 = ''5''" "show_nat 1 = ''1''"
    "show_nat 2 = ''2''" "show_nat 3 = ''3''" "show_nat 4 = ''4''" by code_simp+
  then show ?thesis
    unfolding r by (simp add: s block_line_def amount_text_def pad_str_def newline_def)
qed

end
