(* ===== verification/Spec2Isabelle.thy ===== *)
theory Spec2Isabelle
  imports MainProps CList TallocLocks TallocReport
begin

text \<open>
  pcitop measures the utilization of the PCI buses of HP Integrity servers. It has two parts:
  the kernel driver hplba (src/drivers/), which finds the bus adapters (lower bus adapters, LBAs) of
  the machine, programs their performance counters and shows them as attribute files in sysfs;
  and the tool pcitop (src/src/), which finds the adapters through those files, shows where they
  are, and samples the counters in a loop like the Unix tool top. This development models both
  in HOL, definition by definition, and proves what they promise, by themselves and together.

  The driver.
  \<^item> \<open>Regs\<close>: the register macros of drivers/hplba.h over an explicit I/O space \<open>mmio\<close>, a map of 64-bit
    cells with a log of the accesses.
  \<^item> \<open>Tables\<close>: the enumerations of modes, speeds and measurement states, the tables of their names
    in driver and tool, and the conversions.
  \<^item> \<open>LbaOps\<close>: the operation tables \<open>struct lba_ops\<close>, \<open>struct lba_util_ops\<close> as records of functions, and the
    locale \<open>lba_chip\<close>, what a chip's operations promise.
  \<^item> \<open>Apollo\<close>, \<open>Gemini\<close>, \<open>Mercury\<close>: the three chips, each an interpretation of \<open>lba_chip\<close>.
  \<^item> \<open>HplbaDrv\<close>, \<open>HplbaSysfs\<close>: the measurement state machine, probing, loading and unloading
    (drivers/hplba_drv.c), and the attribute files (drivers/hplba_sysfs.c). The state is the record \<open>drv\<close>.
  \<^item> \<open>DrvSpec\<close>, \<open>DrvInv\<close>, \<open>DrvProps\<close>: the abstract state machine (\<open>rank\<close>, \<open>legal\<close>), the step relation
    \<open>drv_step\<close> of everything that can happen to the loaded driver, the invariants \<open>drv_inv\<close>, between
    the recorded states and the chips' registers, and \<open>listed\<close>, between the adapters and the devices of
    the class, and the driver's properties.

  The tool.
  \<^item> \<open>CStr\<close>: C strings as lists of characters, buffers, \<open>strncpy\<close>, \<open>snprintf\<close> and the conversions of
    printf and sscanf that the sources use, with lemmas that printed numbers are read back.
  \<^item> \<open>CList\<close>: the circular lists of src/list.h and \<open>list_check\<close>, in a store of next and prev pointers;
    the locale \<open>node_list\<close> is the contract their clients rely on.
  \<^item> \<open>Util\<close>: the operating system as a parameter (\<open>os\<close>), the outcome of code that may exit or whose
    behaviour may be undefined (\<open>outcome\<close>), and src/util.c.
  \<^item> \<open>Integrity\<close>: the location of slots in the cabinets of a server (src/integrity.c).
  \<^item> \<open>PciSysfs\<close>: the tree of root bridges, buses and slots read from sysfs (src/pci_sysfs.c).
  \<^item> \<open>Lbas\<close>, \<open>Filters\<close>, \<open>Display\<close>, \<open>Doubles\<close>, \<open>Measure\<close>, \<open>Pcitop\<close>: src/pcitop.c in the order of its parts:
    the tool's state \<open>tool\<close> and the discovery of adapters, the display filters, the listing and the
    banner with the size of its block, the percentages in double precision, the sampling loop,
    and the command line and \<open>main\<close>.
  \<^item> \<open>TopProps\<close>: properties of the tool by itself.

  The vendored libraries linked with the tool.
  \<^item> \<open>Talloc\<close>, \<open>TallocOps\<close>, \<open>TallocData\<close>: the hierarchical allocator src/talloc.c over a heap of
    chunks (the record \<open>chunk\<close> is \<open>struct talloc_chunk\<close>, its \<open>tc_data\<close> the bytes behind it): links and allocation,
    also from an external allocator; freeing, references, resizing, totals, reports; strings, arrays and contexts.
  \<^item> \<open>TallocTree\<close>, \<open>TallocReport\<close>: the tree that the links of a heap stand for (\<open>hierarchy\<close>); freeing prunes
    it, the totals sum it up, and the report prints it line by line (\<open>listing\<close>).
  \<^item> \<open>TallocLinks\<close>: the local invariant \<open>well_linked\<close> of the links, which allocating and resizing need
    and keep, with what they do to the contents of the blocks.
  \<^item> \<open>TallocTidy\<close>, \<open>TallocInv\<close>, \<open>TallocCalls\<close>: the links for arbitrary use of the library, with references, destructors
    that refuse, children that are adopted and blocks moved below themselves. \<open>tidy_but L\<close> is the invariant
    while the blocks \<open>L\<close> are being freed; \<open>talloc_call\<close> is the step relation of a program that uses
    the library, and every heap it reaches has consistent links. The locale \<open>kept_relation\<close> shows that what the
    few basic operations keep is kept by every call.
  \<^item> \<open>TallocLocks\<close>: the locale again, for a program with a lock of its own (\<open>tc_lock\<close>): blocks of an external
    allocator are neither freed nor moved, since the library waits for the lock it holds.
  \<^item> \<open>Strings\<close>, \<open>StringSpec\<close>, \<open>StringProps\<close>: src/string.c and src/noerr.c over the allocator, their
    specification by functions on texts, and their properties.

  Driver and tool together.
  \<^item> \<open>System\<close>: the hypothesis \<open>sysfs\<close> on the operating system, that the attribute files run the
    driver's functions and that only the counters change while the tool sleeps; the locale
    \<open>util_machine\<close>, a state machine that accepts the commands of a measurement, interpreted on the
    driver and, through the attribute files, on the tool's operations.
  \<^item> \<open>Sampling\<close>: what the loops of \<open>measure_utilization\<close> do to all adapters and to the driver behind
    them, up to the completion of a whole measurement (on a machine whose counts do not overflow,
    \<open>steady\<close>).
  \<^item> \<open>SysProps\<close>, \<open>Discovery\<close>: the properties of measurement and discovery, with a concrete operating
    system that satisfies the hypotheses.
  \<^item> \<open>Enumerate\<close>: the whole discovery. The relation \<open>describes\<close> ties an entry of the tool to an adapter of
    the driver and to the root bridge it sits on; \<open>init_lbas\<close> makes one such entry for each adapter,
    and the description of the machine lists exactly the places of their slots.
  \<^item> \<open>MainProps\<close>: runs of \<open>main\<close> from its command line (\<open>commanded\<close>) on a machine with a driver that was loaded and used
    before (\<open>loaded\<close>, \<open>on_machine\<close>), by composing the tree,
    the discovery, the filters (\<open>filtered\<close> is the state after them) and the measurement or the listing.

  Conventions. Machine integers are words of their width; \<open>int\<close> values of C are \<open>int\<close> where the code
  stays far from their range. A result that may be a null pointer, an access out of bounds or a
  string without terminator is an \<open>option\<close> or the outcome \<open>Crash\<close>, so undefined behaviour is a
  visible result: theorems that a function returns exclude it, and some theorems show it
  (\<open>banner_overflows_block\<close>). Loops over lists and counts are structural recursions, so they
  terminate; no fuel is needed. The loops of the allocator and of src/string.c, which follow pointers or read until
  an end, are partial functions with the result \<open>None\<close> when they do not return or
  touch memory that is not theirs, and their properties show that they return. The standard output is a string of the state; buffers whose size the code computes are compared with
  the text written into them.

  Not modelled: messages on the standard error stream and in the kernel log; the path for kernels
  before 2.6.26 in the driver; signal masks (an interrupt is an
  answer of the sleep; one that arrives while the mask holds is the flag os_early_sigint); the reaction
  of the hardware to the enable field (registers are storage the driver writes and the counters
  only move while time passes); locking in driver and tool, since
  the sources have none. The allocator's lock is modelled by where it is taken while it is held (\<open>relock\<close>), not as a
  state shared by threads. What a format makes of its arguments is a parameter, and so is the time when functions registered
  with atexit run. The macros of src/typesafe_cb.h and most of src/talloc.h only add types and places of calls.
\<close>

end
